theory Spec2Isabelle
  imports Complex_Main "HOL-Library.Word" "HOL-Library.Log_Nat"
begin

section \<open>Constants of the launcher core (core.js, CONSTANTS)\<close>

definition MAX_RETRIES :: nat where
  "MAX_RETRIES = 10"

definition MAX_REPAIR_RETRIES :: nat where
  "MAX_REPAIR_RETRIES = 10"

definition RETRY_DELAY_BASE :: nat where
  "RETRY_DELAY_BASE = 1000"

section \<open>CoreUtils.withRetry\<close>

text \<open>
  \<^verbatim>\<open>
  static async withRetry(operation, maxRetries = CONSTANTS.MAX_RETRIES,
                         baseDelay = CONSTANTS.RETRY_DELAY_BASE) {
      for (let attempt = 1; attempt <= maxRetries; attempt++) {
          try { return await operation(); }
          catch (error) {
              if (attempt === maxRetries) throw error;
              await new Promise(resolve => setTimeout(resolve, baseDelay * attempt));
          }
      }
  }
  \<close>
  The operation is a closure with effects, so it is a state transformer that returns
  either an error (\<open>Inl\<close>, the rejection) or a value (\<open>Inr\<close>). The result of
  \<open>withRetry\<close> is \<open>Inl e\<close> when the error \<open>e\<close> is rethrown, \<open>Inr (Some v)\<close> when
  the operation's value is returned and \<open>Inr None\<close> when the loop body never runs and the
  function falls off its end (JavaScript's \<open>undefined\<close>). Beside the result and the
  state, the model returns the number of calls of the operation and the list of the
  timeouts waited for, in milliseconds and in order.
\<close>

function withRetry_from ::
  "nat \<Rightarrow> ('s \<Rightarrow> ('e + 'a) \<times> 's) \<Rightarrow> nat \<Rightarrow> nat \<Rightarrow> 's \<Rightarrow> ('e + 'a option) \<times> 's \<times> nat \<times> nat list"
where
  "withRetry_from attempt operation maxRetries baseDelay s =
     (if attempt \<le> maxRetries then
        (case operation s of
           (Inr v, s') \<Rightarrow> (Inr (Some v), s', 1, [])
         | (Inl err, s') \<Rightarrow>
             if attempt = maxRetries then (Inl err, s', 1, [])
             else (case withRetry_from (attempt + 1) operation maxRetries baseDelay s' of
                     (r, s'', n, ds) \<Rightarrow> (r, s'', n + 1, baseDelay * attempt # ds)))
      else (Inr None, s, 0, []))"
  by pat_completeness auto
termination
  by (relation "measure (\<lambda>(attempt, operation, maxRetries, baseDelay, s). maxRetries + 1 - attempt)") auto

declare withRetry_from.simps [simp del]

definition withRetry ::
  "('s \<Rightarrow> ('e + 'a) \<times> 's) \<Rightarrow> nat \<Rightarrow> nat \<Rightarrow> 's \<Rightarrow> ('e + 'a option) \<times> 's \<times> nat \<times> nat list"
where
  "withRetry operation maxRetries baseDelay s = withRetry_from 1 operation maxRetries baseDelay s"

text \<open>The state in which the operation is called for the \<open>(k+1)\<close>-th time.\<close>

definition state_before :: "('s \<Rightarrow> ('e + 'a) \<times> 's) \<Rightarrow> 's \<Rightarrow> nat \<Rightarrow> 's" where
  "state_before operation s k = ((\<lambda>t. snd (operation t)) ^^ k) s"

text \<open>The outcome of the \<open>(k+1)\<close>-th call of the operation.\<close>

definition outcome_of :: "('s \<Rightarrow> ('e + 'a) \<times> 's) \<Rightarrow> 's \<Rightarrow> nat \<Rightarrow> 'e + 'a" where
  "outcome_of operation s k = fst (operation (state_before operation s k))"

text \<open>An operation given by a script: the outcome of its \<open>(k+1)\<close>-th call is \<open>script k\<close>;
  the state counts the calls.\<close>

definition scripted :: "(nat \<Rightarrow> 'e + 'a) \<Rightarrow> nat \<Rightarrow> ('e + 'a) \<times> nat" where
  "scripted script k = (script k, k + 1)"

section \<open>JavaScript values: errors, byte buffers, strings, numbers as text\<close>

text \<open>
  A rejected promise or a thrown exception carries a \<open>js_error\<close>: either
  \<^verbatim>\<open>new Error(message)\<close> or an error of the operating system with its \<^verbatim>\<open>code\<close>
  (\<^verbatim>\<open>ENOENT\<close>, \<^verbatim>\<open>EACCES\<close>, ...). A \<^verbatim>\<open>Buffer\<close> is a list of bytes.
  Strings are lists of 8-bit characters; the manifest's paths, versions and digests are
  ASCII.
\<close>

datatype js_error = JsError string | SysError string

fun code :: "js_error \<Rightarrow> string option" where
  "code (SysError c) = Some c"
| "code (JsError m) = None"

fun message :: "js_error \<Rightarrow> string" where
  "message (SysError c) = c"
| "message (JsError m) = m"

type_synonym bytes = "8 word list"

text \<open>\<^verbatim>\<open>String.prototype.toLowerCase\<close> on ASCII text.\<close>

definition lower_char :: "char \<Rightarrow> char" where
  "lower_char c =
     (if (65::nat) \<le> of_char c \<and> of_char c \<le> (90::nat) then char_of (of_char c + (32::nat)) else c)"

definition toLowerCase :: "string \<Rightarrow> string" where
  "toLowerCase s = map lower_char s"

text \<open>The decimal text of an integer, as a template literal renders it.\<close>

definition digit_char :: "nat \<Rightarrow> char" where
  "digit_char n = char_of (48 + n)"

function show_nat :: "nat \<Rightarrow> string" where
  "show_nat n = (if n < 10 then [digit_char n] else show_nat (n div 10) @ [digit_char (n mod 10)])"
  by pat_completeness auto
termination
  by (relation "measure (\<lambda>n. n)") auto

declare show_nat.simps [simp del]

definition show_int :: "int \<Rightarrow> string" where
  "show_int i = (if i < 0 then CHR ''-'' # show_nat (nat (- i)) else show_nat (nat i))"

text \<open>Reading decimal text back: the inverse of \<open>show_nat\<close>, used to show that the
  rendering is injective.\<close>

definition read_nat :: "string \<Rightarrow> nat" where
  "read_nat s = foldl (\<lambda>a c. 10 * a + (of_char c - 48)) 0 s"

section \<open>The file system seen by the engine\<close>

text \<open>
  The disk maps a path to what is there. \<open>Missing\<close>: \<^verbatim>\<open>fs.stat\<close> rejects with code
  \<^verbatim>\<open>ENOENT\<close>. \<open>Faulty c\<close>: \<^verbatim>\<open>fs.stat\<close> rejects with the code \<open>c\<close> of
  another failure of the operating system. \<open>File size mtime chunks ending\<close>: \<^verbatim>\<open>fs.stat\<close>
  resolves with \<^verbatim>\<open>stats.size\<close> and \<^verbatim>\<open>stats.mtime.getTime()\<close>, and a read stream
  on the path delivers \<open>chunks\<close> as its \<^verbatim>\<open>data\<close> events and then ends (\<open>End\<close>) or
  fails (\<open>Failed c\<close>).
\<close>

datatype stream_end = End | Failed string

datatype node = Missing | Faulty string | File int int "bytes list" stream_end

type_synonym disk = "string \<Rightarrow> node"

datatype stats = Stats (st_size: int) (st_mtime: int)

definition fs_stat :: "disk \<Rightarrow> string \<Rightarrow> js_error + stats" where
  "fs_stat d p =
     (case d p of
        Missing \<Rightarrow> Inl (SysError ''ENOENT'')
      | Faulty c \<Rightarrow> Inl (SysError c)
      | File sz mt chunks e \<Rightarrow> Inr (Stats sz mt))"

text \<open>\<^verbatim>\<open>fs.unlink\<close>: rejects with \<^verbatim>\<open>ENOENT\<close> when nothing is there, removes the entry
  otherwise.\<close>

definition fs_unlink :: "disk \<Rightarrow> string \<Rightarrow> (js_error + unit) \<times> disk" where
  "fs_unlink d p =
     (case d p of
        Missing \<Rightarrow> (Inl (SysError ''ENOENT''), d)
      | _ \<Rightarrow> (Inr (), d(p := Missing)))"

text \<open>\<^verbatim>\<open>path.join(a, b)\<close> for a directory and a relative path.\<close>

definition path_join :: "string \<Rightarrow> string \<Rightarrow> string" where
  "path_join a b = a @ ''/'' @ b"

text \<open>\<^verbatim>\<open>path.basename\<close>: the text after the last separator.\<close>

definition basename :: "string \<Rightarrow> string" where
  "basename p = rev (takeWhile (\<lambda>c. c \<noteq> CHR ''/'' \<and> c \<noteq> CHR 0x5C) (rev p))"

section \<open>FileValidator\<close>

text \<open>
  \<^verbatim>\<open>
  async quickValidate(filePath, expectedSize) {
      try { const stats = await fs.stat(filePath); return stats.size === expectedSize; }
      catch (error) { if (error.code === 'ENOENT') return false; throw error; }
  }
  \<close>
  The result is \<open>Inr b\<close> when the promise resolves with \<open>b\<close> and \<open>Inl e\<close> when it rejects.
\<close>

definition quickValidate :: "disk \<Rightarrow> string \<Rightarrow> int \<Rightarrow> js_error + bool" where
  "quickValidate d filePath expectedSize =
     (case fs_stat d filePath of
        Inr st \<Rightarrow> Inr (st_size st = expectedSize)
      | Inl err \<Rightarrow> if code err = Some ''ENOENT'' then Inr False else Inl err)"

text \<open>
  \<^verbatim>\<open>calculateMD5WithProgress\<close> opens a read stream, feeds every chunk to the digest and
  calls \<^verbatim>\<open>onProgress(chunk.length, processed, fileSize)\<close> after each one. The digest
  (\<^verbatim>\<open>crypto.createHash('md5')\<close>, hex output) is a parameter of the model. The calls of
  \<^verbatim>\<open>onProgress\<close> are returned as a list, for the caller to run its callback over.
\<close>

type_synonym progress_call = "int \<times> int \<times> int"

fun progress_calls :: "int \<Rightarrow> int \<Rightarrow> bytes list \<Rightarrow> progress_call list" where
  "progress_calls processed fileSize [] = []"
| "progress_calls processed fileSize (chunk # rest) =
     (int (length chunk), processed + int (length chunk), fileSize)
       # progress_calls (processed + int (length chunk)) fileSize rest"

definition calculateMD5WithProgress ::
  "(bytes \<Rightarrow> string) \<Rightarrow> disk \<Rightarrow> string \<Rightarrow> int \<Rightarrow> (js_error + string) \<times> progress_call list"
where
  "calculateMD5WithProgress digest d filePath fileSize =
     (case d filePath of
        Missing \<Rightarrow> (Inl (SysError ''ENOENT''), [])
      | Faulty c \<Rightarrow> (Inl (SysError c), [])
      | File sz mt chunks e \<Rightarrow>
          (case e of
             End \<Rightarrow> Inr (digest (concat chunks))
           | Failed c \<Rightarrow> Inl (SysError c),
           progress_calls 0 fileSize chunks))"

text \<open>The key of the validation cache: \<^verbatim>\<open>`${filePath}_${stats.mtime.getTime()}_${stats.size}`\<close>.\<close>

definition cacheKey :: "string \<Rightarrow> int \<Rightarrow> int \<Rightarrow> string" where
  "cacheKey filePath mt sz = filePath @ ''_'' @ show_int mt @ ''_'' @ show_int sz"

type_synonym validationCache = "string \<rightharpoonup> string"

text \<open>
  What one call of \<^verbatim>\<open>deepValidate\<close> leaves behind: its result, the validation cache,
  the calls of \<^verbatim>\<open>onProgress\<close> it made, and whether it opened a read stream on the file.
\<close>

record 'r validated =
  verdict :: 'r
  cache_after :: validationCache
  calls :: "progress_call list"
  streamed :: bool

text \<open>
  The body of the \<^verbatim>\<open>try\<close> block of \<^verbatim>\<open>deepValidate\<close>:
  \<^verbatim>\<open>
  const stats = await fs.stat(filePath);
  if (stats.size !== expectedSize) return false;
  const cacheKey = `${filePath}_${stats.mtime.getTime()}_${stats.size}`;
  if (this.validationCache.has(cacheKey)) {
      const cachedMD5 = this.validationCache.get(cacheKey);
      if (onProgress) onProgress(stats.size, stats.size, stats.size);
      return cachedMD5.toLowerCase() === expectedMD5.toLowerCase();
  }
  const actualMD5 = await this.calculateMD5WithProgress(filePath, stats.size, onProgress);
  this.validationCache.set(cacheKey, actualMD5);
  return actualMD5.toLowerCase() === expectedMD5.toLowerCase();
  \<close>
\<close>

definition deepValidate_try ::
  "(bytes \<Rightarrow> string) \<Rightarrow> disk \<Rightarrow> validationCache \<Rightarrow> string \<Rightarrow> int \<Rightarrow> string
     \<Rightarrow> (js_error + bool) validated"
where
  "deepValidate_try digest d cache filePath expectedSize expectedMD5 =
     (case fs_stat d filePath of
        Inl err \<Rightarrow> \<lparr>verdict = Inl err, cache_after = cache, calls = [], streamed = False\<rparr>
      | Inr st \<Rightarrow>
          if st_size st \<noteq> expectedSize
          then \<lparr>verdict = Inr False, cache_after = cache, calls = [], streamed = False\<rparr>
          else
            (case cache (cacheKey filePath (st_mtime st) (st_size st)) of
               Some cachedMD5 \<Rightarrow>
                 \<lparr>verdict = Inr (toLowerCase cachedMD5 = toLowerCase expectedMD5),
                  cache_after = cache,
                  calls = [(st_size st, st_size st, st_size st)],
                  streamed = False\<rparr>
             | None \<Rightarrow>
                 (case calculateMD5WithProgress digest d filePath (st_size st) of
                    (Inl err, cs) \<Rightarrow>
                      \<lparr>verdict = Inl err, cache_after = cache, calls = cs, streamed = True\<rparr>
                  | (Inr actualMD5, cs) \<Rightarrow>
                      \<lparr>verdict = Inr (toLowerCase actualMD5 = toLowerCase expectedMD5),
                       cache_after = cache(cacheKey filePath (st_mtime st) (st_size st) \<mapsto> actualMD5),
                       calls = cs,
                       streamed = True\<rparr>)))"

text \<open>\<^verbatim>\<open>deepValidate\<close>: the \<^verbatim>\<open>try\<close> block under \<^verbatim>\<open>catch { return false; }\<close>.\<close>

definition deepValidate ::
  "(bytes \<Rightarrow> string) \<Rightarrow> disk \<Rightarrow> validationCache \<Rightarrow> string \<Rightarrow> int \<Rightarrow> string
     \<Rightarrow> (js_error + bool) validated"
where
  "deepValidate digest d cache filePath expectedSize expectedMD5 =
     (let r = deepValidate_try digest d cache filePath expectedSize expectedMD5
      in case verdict r of
           Inl err \<Rightarrow> r\<lparr>verdict := Inr False\<rparr>
         | Inr b \<Rightarrow> r)"

text \<open>\<^verbatim>\<open>clearCache() { this.validationCache.clear(); }\<close>\<close>

definition clearCache :: "validationCache" where
  "clearCache = Map.empty"

text \<open>
  A stand-in digest for concrete runs of the model, where the parameter \<open>digest\<close> has to be
  a function: the byte sum modulo 256, as two lower-case hexadecimal digits. No property
  below depends on it.
\<close>

definition hex_char :: "nat \<Rightarrow> char" where
  "hex_char n = (if n < 10 then char_of (48 + n) else char_of (87 + n))"

definition sum_digest :: "bytes \<Rightarrow> string" where
  "sum_digest bs =
     (let s = sum_list (map unat bs) mod 256 in [hex_char (s div 16), hex_char (s mod 16)])"

section \<open>JavaScript numbers\<close>

text \<open>
  A JavaScript number is an IEEE 754 double: a finite value, an infinity, or \<^verbatim>\<open>NaN\<close>. The
  model keeps the value of a finite double as a rational and rounds the exact result of
  each arithmetic operation to the nearest double, ties to even, with gradual underflow
  below \<^verbatim>\<open>2^-1022\<close> and overflow to an infinity from \<^verbatim>\<open>2^1024\<close> on. The sign of zero is
  not kept: no operation of the tracker divides by zero, and a zero of either sign
  compares and prints the same.
\<close>

datatype number = Finite rat | PlusInfinity | MinusInfinity | NaN

text \<open>\<open>two_pow k\<close> is 2 to the power \<open>k\<close>, for an integer \<open>k\<close>.\<close>

definition two_pow :: "int \<Rightarrow> rat" where
  "two_pow k = (if k \<ge> 0 then 2 ^ nat k else 1 / 2 ^ nat (- k))"

text \<open>The binary exponent of a rational \<open>x \<noteq> 0\<close>: the \<open>e\<close> with
  \<open>two_pow e \<le> \<bar>x\<bar> < two_pow (e + 1)\<close>, found from the bit lengths of the numerator and the
  denominator.\<close>

definition exponent :: "rat \<Rightarrow> int" where
  "exponent x =
     (case quotient_of \<bar>x\<bar> of
        (p, q) \<Rightarrow> (let k = bitlen p - bitlen q in if two_pow k \<le> \<bar>x\<bar> then k else k - 1))"

text \<open>The nearest integer, the even one of the two when they are equally near.\<close>

definition roundTiesToEven :: "rat \<Rightarrow> int" where
  "roundTiesToEven y =
     (let f = \<lfloor>y\<rfloor>; r = y - of_int f
      in if r < 1 / 2 then f else if 1 / 2 < r then f + 1 else if even f then f else f + 1)"

text \<open>The nearest value with a significand of 53 bits and an exponent of at least
  \<open>-1022\<close>. The exponent is not bounded above here; \<open>rounded\<close> turns a value whose
  exponent is above 1023 (one of magnitude \<^verbatim>\<open>2^1024\<close> or more) into an infinity.\<close>

definition fl :: "rat \<Rightarrow> rat" where
  "fl x =
     (if x = 0 then 0
      else (let e = max (exponent x) (- 1022); ulp = two_pow (e - 52)
            in of_int (roundTiesToEven (x / ulp)) * ulp))"

definition rounded :: "rat \<Rightarrow> number" where
  "rounded x =
     (let y = fl x
      in if y = 0 then Finite 0
         else if exponent y \<le> 1023 then Finite y
         else if 0 < y then PlusInfinity else MinusInfinity)"

text \<open>An integer counter (a byte count, a file count, a time in milliseconds) as a number:
  the counters of the tracker are kept as exact integers.\<close>

definition Number :: "int \<Rightarrow> number" where
  "Number n = Finite (of_int n)"

fun isFinite :: "number \<Rightarrow> bool" where
  "isFinite (Finite x) = True"
| "isFinite PlusInfinity = False"
| "isFinite MinusInfinity = False"
| "isFinite NaN = False"

fun fneg :: "number \<Rightarrow> number" where
  "fneg (Finite x) = Finite (- x)"
| "fneg PlusInfinity = MinusInfinity"
| "fneg MinusInfinity = PlusInfinity"
| "fneg NaN = NaN"

fun fadd :: "number \<Rightarrow> number \<Rightarrow> number" where
  "fadd (Finite x) (Finite y) = rounded (x + y)"
| "fadd (Finite x) PlusInfinity = PlusInfinity"
| "fadd (Finite x) MinusInfinity = MinusInfinity"
| "fadd PlusInfinity (Finite y) = PlusInfinity"
| "fadd PlusInfinity PlusInfinity = PlusInfinity"
| "fadd PlusInfinity MinusInfinity = NaN"
| "fadd MinusInfinity (Finite y) = MinusInfinity"
| "fadd MinusInfinity MinusInfinity = MinusInfinity"
| "fadd MinusInfinity PlusInfinity = NaN"
| "fadd NaN b = NaN"
| "fadd a NaN = NaN"

definition fsub :: "number \<Rightarrow> number \<Rightarrow> number" where
  "fsub a b = fadd a (fneg b)"

text \<open>An infinity times or over a finite value: the sign of the result, and \<^verbatim>\<open>NaN\<close> for
  infinity times zero.\<close>

definition signed_infinity :: "bool \<Rightarrow> number" where
  "signed_infinity positive = (if positive then PlusInfinity else MinusInfinity)"

fun fmul :: "number \<Rightarrow> number \<Rightarrow> number" where
  "fmul (Finite x) (Finite y) = rounded (x * y)"
| "fmul (Finite x) PlusInfinity = (if x = 0 then NaN else signed_infinity (0 < x))"
| "fmul (Finite x) MinusInfinity = (if x = 0 then NaN else signed_infinity (x < 0))"
| "fmul PlusInfinity (Finite y) = (if y = 0 then NaN else signed_infinity (0 < y))"
| "fmul MinusInfinity (Finite y) = (if y = 0 then NaN else signed_infinity (y < 0))"
| "fmul PlusInfinity PlusInfinity = PlusInfinity"
| "fmul PlusInfinity MinusInfinity = MinusInfinity"
| "fmul MinusInfinity PlusInfinity = MinusInfinity"
| "fmul MinusInfinity MinusInfinity = PlusInfinity"
| "fmul NaN b = NaN"
| "fmul a NaN = NaN"

text \<open>Division. A finite value over zero is an infinity with the sign of the dividend
  (the zero taken as positive), zero over zero is \<^verbatim>\<open>NaN\<close>.\<close>

fun fdiv :: "number \<Rightarrow> number \<Rightarrow> number" where
  "fdiv (Finite x) (Finite y) =
     (if y = 0 then (if x = 0 then NaN else signed_infinity (0 < x)) else rounded (x / y))"
| "fdiv (Finite x) PlusInfinity = Finite 0"
| "fdiv (Finite x) MinusInfinity = Finite 0"
| "fdiv PlusInfinity (Finite y) = signed_infinity (0 \<le> y)"
| "fdiv MinusInfinity (Finite y) = signed_infinity (y < 0)"
| "fdiv PlusInfinity PlusInfinity = NaN"
| "fdiv PlusInfinity MinusInfinity = NaN"
| "fdiv MinusInfinity PlusInfinity = NaN"
| "fdiv MinusInfinity MinusInfinity = NaN"
| "fdiv NaN b = NaN"
| "fdiv a NaN = NaN"

text \<open>The comparisons \<^verbatim>\<open><\<close> and \<^verbatim>\<open><=\<close>; every comparison with \<^verbatim>\<open>NaN\<close> is false.\<close>

fun number_less :: "number \<Rightarrow> number \<Rightarrow> bool" where
  "number_less (Finite x) (Finite y) = (x < y)"
| "number_less (Finite x) PlusInfinity = True"
| "number_less MinusInfinity (Finite y) = True"
| "number_less MinusInfinity PlusInfinity = True"
| "number_less a b = False"

instantiation number :: ord
begin

definition less_number :: "number \<Rightarrow> number \<Rightarrow> bool" where
  "less_number a b = number_less a b"

definition less_eq_number :: "number \<Rightarrow> number \<Rightarrow> bool" where
  "less_eq_number a b = (a \<noteq> NaN \<and> b \<noteq> NaN \<and> (number_less a b \<or> a = b))"

instance ..

end

text \<open>\<^verbatim>\<open>Math.min(a, b)\<close>\<close>

definition Math_min :: "number \<Rightarrow> number \<Rightarrow> number" where
  "Math_min a b = (if a = NaN \<or> b = NaN then NaN else if a \<le> b then a else b)"

section \<open>UIUpdateThrottler and ProgressTracker\<close>

text \<open>
  Byte and file counts and times in milliseconds are integers (exact in a double below
  \<^verbatim>\<open>2^53\<close>); speeds, percentages and durations are numbers, computed with the rounding
  of doubles. Each function that reads \<^verbatim>\<open>Date.now()\<close> takes the time read as its
  parameter \<open>now\<close>.
\<close>

record UIUpdateThrottler =
  minInterval :: int
  throttler_lastUpdate :: int
  forceNextUpdate :: bool

definition new_UIUpdateThrottler :: "int \<Rightarrow> UIUpdateThrottler" where
  "new_UIUpdateThrottler interval =
     \<lparr>minInterval = interval, throttler_lastUpdate = 0, forceNextUpdate = False\<rparr>"

definition shouldUpdate :: "bool \<Rightarrow> int \<Rightarrow> UIUpdateThrottler \<Rightarrow> bool \<times> UIUpdateThrottler" where
  "shouldUpdate force now u =
     (let timeSinceLastUpdate = now - throttler_lastUpdate u
      in if force \<or> forceNextUpdate u \<or> timeSinceLastUpdate \<ge> minInterval u
         then (True, u\<lparr>throttler_lastUpdate := now, forceNextUpdate := False\<rparr>)
         else (False, u))"

definition forceUpdate :: "UIUpdateThrottler \<Rightarrow> UIUpdateThrottler" where
  "forceUpdate u = u\<lparr>forceNextUpdate := True\<rparr>"

text \<open>One entry of the manifest; \<open>rsize\<close> is \<^verbatim>\<open>parseInt(r.size, 10)\<close>.\<close>

record resource =
  dest :: string
  rsize :: int
  md5 :: string

record ProgressTracker =
  totalBytes :: int
  processedBytes :: int
  downloadedBytes :: int
  totalFiles :: int
  processedFiles :: int
  currentFile :: "string option"
  fileProgress :: "string \<rightharpoonup> int"
  fileSizes :: "string \<rightharpoonup> int"
  currentSpeed :: number
  averageSpeed :: number
  speedHistory :: "number list"
  lastUpdate :: int
  lastBytes :: int
  phase :: string
  subMessage :: string
  corruptFiles :: "resource list"
  repairedFiles :: int
  uiThrottler :: UIUpdateThrottler

text \<open>\<^verbatim>\<open>reset()\<close> sets every field but the throttler.\<close>

definition reset :: "int \<Rightarrow> ProgressTracker \<Rightarrow> ProgressTracker" where
  "reset now t =
     \<lparr>totalBytes = 0, processedBytes = 0, downloadedBytes = 0,
      totalFiles = 0, processedFiles = 0, currentFile = None,
      fileProgress = Map.empty, fileSizes = Map.empty,
      currentSpeed = Finite 0, averageSpeed = Finite 0, speedHistory = [],
      lastUpdate = now, lastBytes = 0,
      phase = ''idle'', subMessage = '''',
      corruptFiles = [], repairedFiles = 0,
      uiThrottler = uiThrottler t\<rparr>"

text \<open>The constructor: \<^verbatim>\<open>this.reset(); this.uiThrottler = new UIUpdateThrottler(50);\<close>\<close>

definition new_ProgressTracker :: "int \<Rightarrow> ProgressTracker" where
  "new_ProgressTracker now =
     \<lparr>totalBytes = 0, processedBytes = 0, downloadedBytes = 0,
      totalFiles = 0, processedFiles = 0, currentFile = None,
      fileProgress = Map.empty, fileSizes = Map.empty,
      currentSpeed = Finite 0, averageSpeed = Finite 0, speedHistory = [],
      lastUpdate = now, lastBytes = 0,
      phase = ''idle'', subMessage = '''',
      corruptFiles = [], repairedFiles = 0,
      uiThrottler = new_UIUpdateThrottler 50\<rparr>"

text \<open>
  \<^verbatim>\<open>
  updateSpeedMetrics() {
      const now = Date.now();
      const timeDiff = (now - this.lastUpdate) / 1000;
      if (timeDiff > 0.1) {
          const bytesDiff = this.phase === 'downloading' || this.phase === 'repairing' ?
              this.downloadedBytes - this.lastBytes : this.processedBytes - this.lastBytes;
          const instantSpeed = bytesDiff / timeDiff;
          const smoothingFactor = CONSTANTS.SPEED_SMOOTHING_FACTOR || 0.7;
          this.currentSpeed = this.averageSpeed * smoothingFactor +
              instantSpeed * (1 - smoothingFactor);
          this.speedHistory.push(this.currentSpeed);
          if (this.speedHistory.length > 10) this.speedHistory.shift();
          this.averageSpeed = this.speedHistory.reduce((a, b) => a + b, 0) / this.speedHistory.length;
          this.lastUpdate = now;
          this.lastBytes = this.phase === 'downloading' || this.phase === 'repairing' ?
              this.downloadedBytes : this.processedBytes;
      }
  }
  \<close>
  \<^verbatim>\<open>CONSTANTS\<close> has no \<^verbatim>\<open>SPEED_SMOOTHING_FACTOR\<close>, so the factor is 0.7.
\<close>

definition smoothingFactor :: number where
  "smoothingFactor = rounded (7 / 10)"

definition currentBytes :: "ProgressTracker \<Rightarrow> int" where
  "currentBytes t =
     (if phase t = ''downloading'' \<or> phase t = ''repairing'' then downloadedBytes t
      else processedBytes t)"

definition updateSpeedMetrics :: "int \<Rightarrow> ProgressTracker \<Rightarrow> ProgressTracker" where
  "updateSpeedMetrics now t =
     (let timeDiff = fdiv (Number (now - lastUpdate t)) (Finite 1000)
      in if rounded (1 / 10) < timeDiff then
           (let bytesDiff = currentBytes t - lastBytes t;
                instantSpeed = fdiv (Number bytesDiff) timeDiff;
                speed = fadd (fmul (averageSpeed t) smoothingFactor)
                             (fmul instantSpeed (fsub (Finite 1) smoothingFactor));
                pushed = speedHistory t @ [speed];
                history = (if length pushed > 10 then tl pushed else pushed)
            in t\<lparr>currentSpeed := speed,
                 speedHistory := history,
                 averageSpeed := fdiv (foldl fadd (Finite 0) history) (Number (int (length history))),
                 lastUpdate := now,
                 lastBytes := currentBytes t\<rparr>)
         else t)"

text \<open>
  \<^verbatim>\<open>
  formatETA(seconds) {
      if (seconds <= 0 || !isFinite(seconds)) return 'Calculating...';
      if (seconds < 1) return '<1s';
      const hours = Math.floor(seconds / 3600);
      const minutes = Math.floor((seconds % 3600) / 60);
      const secs = Math.floor(seconds % 60);
      if (hours > 0) return `${hours}h ${minutes}m`;
      if (minutes > 0) return `${minutes}m ${secs}s`;
      return `${secs}s`;
  }
  \<close>
  \<open>fmod\<close> is the remainder \<^verbatim>\<open>%\<close> on a positive dividend and divisor; it is exact. The
  quotients are rounded before \<^verbatim>\<open>Math.floor\<close>. An integer prints as its decimal digits
  (as JavaScript prints it below \<^verbatim>\<open>1e21\<close>).
\<close>

definition fmod :: "rat \<Rightarrow> rat \<Rightarrow> rat" where
  "fmod x y = x - y * of_int \<lfloor>x / y\<rfloor>"

definition formatETA :: "number \<Rightarrow> string" where
  "formatETA seconds =
     (case seconds of
        Finite x \<Rightarrow>
          if x \<le> 0 then ''Calculating...''
          else if x < 1 then ''<1s''
          else
            (let hours = \<lfloor>fl (x / 3600)\<rfloor>;
                 minutes = \<lfloor>fl (fmod x 3600 / 60)\<rfloor>;
                 secs = \<lfloor>fmod x 60\<rfloor>
             in if hours > 0 then show_int hours @ ''h '' @ show_int minutes @ ''m''
                else if minutes > 0 then show_int minutes @ ''m '' @ show_int secs @ ''s''
                else show_int secs @ ''s'')
      | PlusInfinity \<Rightarrow> ''Calculating...''
      | MinusInfinity \<Rightarrow> ''Calculating...''
      | NaN \<Rightarrow> ''Calculating...'')"

record Metrics =
  m_percentage :: number
  m_speed :: number
  m_eta :: number
  m_etaFormatted :: string
  m_currentFile :: "string option"
  m_processedBytes :: int
  m_totalBytes :: int
  m_processedFiles :: int
  m_totalFiles :: int
  m_phase :: string
  m_subMessage :: string
  m_validatedFiles :: int
  m_filesToRepair :: int
  m_repairedFiles :: int

text \<open>
  \<^verbatim>\<open>
  calculateMetrics() {
      this.updateSpeedMetrics();
      const currentBytes = this.phase === 'downloading' || this.phase === 'repairing' ?
          this.downloadedBytes : this.processedBytes;
      const percentage = this.totalBytes > 0 ? (currentBytes / this.totalBytes) * 100 : 0;
      const remainingBytes = this.totalBytes - currentBytes;
      const eta = this.averageSpeed > 0 ? remainingBytes / this.averageSpeed : 0;
      return { percentage: Math.min(100, percentage), speed: this.averageSpeed, eta,
               etaFormatted: this.formatETA(eta),
               currentFile: this.currentFile ? path.basename(this.currentFile) : null,
               processedBytes: currentBytes, totalBytes: this.totalBytes,
               processedFiles: this.processedFiles, totalFiles: this.totalFiles,
               phase: this.phase, subMessage: this.subMessage,
               validatedFiles: this.processedFiles,
               filesToRepair: this.corruptFiles.length, repairedFiles: this.repairedFiles };
  }
  \<close>
  The model returns the metrics and the tracker as \<open>updateSpeedMetrics\<close> leaves it.
\<close>

definition calculateMetrics :: "int \<Rightarrow> ProgressTracker \<Rightarrow> Metrics \<times> ProgressTracker" where
  "calculateMetrics now t0 =
     (let t = updateSpeedMetrics now t0;
          percentage = (if totalBytes t > 0
                        then fmul (fdiv (Number (currentBytes t)) (Number (totalBytes t))) (Finite 100)
                        else Finite 0);
          remainingBytes = totalBytes t - currentBytes t;
          eta = (if Finite 0 < averageSpeed t then fdiv (Number remainingBytes) (averageSpeed t)
                 else Finite 0)
      in (\<lparr>m_percentage = Math_min (Finite 100) percentage,
           m_speed = averageSpeed t,
           m_eta = eta,
           m_etaFormatted = formatETA eta,
           m_currentFile = (case currentFile t of
                              None \<Rightarrow> None
                            | Some f \<Rightarrow> if f = [] then None else Some (basename f)),
           m_processedBytes = currentBytes t,
           m_totalBytes = totalBytes t,
           m_processedFiles = processedFiles t,
           m_totalFiles = totalFiles t,
           m_phase = phase t,
           m_subMessage = subMessage t,
           m_validatedFiles = processedFiles t,
           m_filesToRepair = int (length (corruptFiles t)),
           m_repairedFiles = repairedFiles t\<rparr>, t))"

text \<open>An optional file name argument sets \<^verbatim>\<open>currentFile\<close> when it is truthy (neither
  \<^verbatim>\<open>null\<close> nor the empty string).\<close>

definition setCurrentFile :: "string option \<Rightarrow> ProgressTracker \<Rightarrow> ProgressTracker" where
  "setCurrentFile f t =
     (case f of None \<Rightarrow> t | Some n \<Rightarrow> if n = [] then t else t\<lparr>currentFile := Some n\<rparr>)"

text \<open>
  \<^verbatim>\<open>
  updateValidationProgress(bytesProcessed, currentFile = null, filesProcessed = 0) {
      this.processedBytes += bytesProcessed;
      if (currentFile) this.currentFile = currentFile;
      if (filesProcessed > 0) this.processedFiles += filesProcessed;
      return this.calculateMetrics();
  }
  \<close>
\<close>

definition updateValidationProgress ::
  "int \<Rightarrow> int \<Rightarrow> string option \<Rightarrow> int \<Rightarrow> ProgressTracker \<Rightarrow> Metrics \<times> ProgressTracker"
where
  "updateValidationProgress now bytesProcessed file filesProcessed t =
     (let t1 = t\<lparr>processedBytes := processedBytes t + bytesProcessed\<rparr>;
          t2 = setCurrentFile file t1;
          t3 = (if filesProcessed > 0 then t2\<lparr>processedFiles := processedFiles t2 + filesProcessed\<rparr>
                else t2)
      in calculateMetrics now t3)"

text \<open>
  \<^verbatim>\<open>
  updateDownloadProgress(bytesDownloaded, fileName = null) {
      this.downloadedBytes += bytesDownloaded;
      if (fileName) this.currentFile = fileName;
      return this.calculateMetrics();
  }
  \<close>
\<close>

definition updateDownloadProgress ::
  "int \<Rightarrow> int \<Rightarrow> string option \<Rightarrow> ProgressTracker \<Rightarrow> Metrics \<times> ProgressTracker"
where
  "updateDownloadProgress now bytesDownloaded fileName t =
     calculateMetrics now
       (setCurrentFile fileName (t\<lparr>downloadedBytes := downloadedBytes t + bytesDownloaded\<rparr>))"

text \<open>
  \<^verbatim>\<open>
  updateFileProgress(fileId, bytesDownloaded, isComplete = false) {
      const currentFileProgress = this.fileProgress.get(fileId) || 0;
      const fileSize = this.fileSizes.get(fileId) || 0;
      const newFileProgress = isComplete ? fileSize : currentFileProgress + bytesDownloaded;
      const progressDiff = newFileProgress - currentFileProgress;
      this.fileProgress.set(fileId, newFileProgress);
      this.downloadedBytes += progressDiff;
      this.downloadedBytes = Math.min(this.downloadedBytes, this.totalBytes);
  }
  \<close>
\<close>

definition get_or_0 :: "(string \<rightharpoonup> int) \<Rightarrow> string \<Rightarrow> int" where
  "get_or_0 m k = (case m k of None \<Rightarrow> 0 | Some v \<Rightarrow> v)"

definition updateFileProgress :: "string \<Rightarrow> int \<Rightarrow> bool \<Rightarrow> ProgressTracker \<Rightarrow> ProgressTracker" where
  "updateFileProgress fileId bytesDownloaded isComplete t =
     (let currentFileProgress = get_or_0 (fileProgress t) fileId;
          fileSize = get_or_0 (fileSizes t) fileId;
          newFileProgress = (if isComplete then fileSize else currentFileProgress + bytesDownloaded);
          progressDiff = newFileProgress - currentFileProgress
      in t\<lparr>fileProgress := (fileProgress t)(fileId \<mapsto> newFileProgress),
           downloadedBytes := min (downloadedBytes t + progressDiff) (totalBytes t)\<rparr>)"

definition setFileSizes :: "(string \<rightharpoonup> int) \<Rightarrow> ProgressTracker \<Rightarrow> ProgressTracker" where
  "setFileSizes fileSizeMap t = t\<lparr>fileSizes := fileSizeMap\<rparr>"

definition setCorruptFiles :: "resource list \<Rightarrow> ProgressTracker \<Rightarrow> ProgressTracker" where
  "setCorruptFiles files t = t\<lparr>corruptFiles := files\<rparr>"

definition incrementProcessedFiles :: "ProgressTracker \<Rightarrow> ProgressTracker" where
  "incrementProcessedFiles t = t\<lparr>processedFiles := processedFiles t + 1\<rparr>"

definition incrementRepairedFiles :: "ProgressTracker \<Rightarrow> ProgressTracker" where
  "incrementRepairedFiles t = t\<lparr>repairedFiles := repairedFiles t + 1\<rparr>"

text \<open>
  \<^verbatim>\<open>
  updateProgress(bytesProcessed, currentFile = null) {
      this.processedBytes += bytesProcessed;
      if (currentFile) this.currentFile = currentFile;
      this.updateSpeedMetrics();
  }
  \<close>
\<close>

definition updateProgress :: "int \<Rightarrow> int \<Rightarrow> string option \<Rightarrow> ProgressTracker \<Rightarrow> ProgressTracker" where
  "updateProgress now bytesProcessed file t =
     updateSpeedMetrics now
       (setCurrentFile file (t\<lparr>processedBytes := processedBytes t + bytesProcessed\<rparr>))"

text \<open>
  \<^verbatim>\<open>
  setPhase(phase, subMessage = '') {
      this.phase = phase; this.subMessage = subMessage; this.lastUpdate = Date.now();
      this.lastBytes = phase === 'downloading' || phase === 'repairing' ?
          this.downloadedBytes : this.processedBytes;
  }
  \<close>
\<close>

definition setPhase :: "int \<Rightarrow> string \<Rightarrow> string \<Rightarrow> ProgressTracker \<Rightarrow> ProgressTracker" where
  "setPhase now ph msg t =
     t\<lparr>phase := ph, subMessage := msg, lastUpdate := now,
       lastBytes := (if ph = ''downloading'' \<or> ph = ''repairing'' then downloadedBytes t
                     else processedBytes t)\<rparr>"

definition forceCompletion :: "ProgressTracker \<Rightarrow> ProgressTracker" where
  "forceCompletion t = t\<lparr>downloadedBytes := totalBytes t, processedBytes := totalBytes t\<rparr>"

text \<open>A sequence of \<open>updateFileProgress\<close> calls, each with its file, byte count and
  completion flag.\<close>

fun updateFileProgress_all ::
  "(string \<times> int \<times> bool) list \<Rightarrow> ProgressTracker \<Rightarrow> ProgressTracker"
where
  "updateFileProgress_all [] t = t"
| "updateFileProgress_all ((fileId, bytesDownloaded, isComplete) # rest) t =
     updateFileProgress_all rest (updateFileProgress fileId bytesDownloaded isComplete t)"

section \<open>The surroundings of the engine\<close>

text \<open>
  What the engine reads from outside is fixed in an environment: the clock (the value of
  the \<open>k\<close>-th read of \<^verbatim>\<open>Date.now()\<close>), whether the main window exists and is not destroyed,
  the digest function, what the \<open>k\<close>-th HTTP request of the run brings when it fetches a
  JSON document (\<^verbatim>\<open>JSON.parse(await CoreUtils.httpRequest(url, signal))\<close>) or a file
  (\<^verbatim>\<open>protocol.get(url, ...)\<close> piped to disk), and the game manager with the result of its
  update check.
\<close>

text \<open>A value that should be the \<^verbatim>\<open>resource\<close> array of an index document: absent
  (\<^verbatim>\<open>undefined\<close>, \<^verbatim>\<open>null\<close> or another falsy value), an array of entries, or a truthy value
  that is not an array.\<close>

datatype jsval = Undefined | Arr "resource list" | Other

record channel =
  ch_version :: string
  cdnList :: "string list"
  indexFile :: string
  ch_baseUrl :: string

text \<open>A parsed JSON document: the channel configuration (channel name to entry), or an
  index with its \<^verbatim>\<open>resource\<close> and \<^verbatim>\<open>resources\<close> fields.\<close>

datatype document = ConfigDoc "string \<rightharpoonup> channel" | IndexDoc jsval jsval

fun channel_of :: "document \<Rightarrow> string \<Rightarrow> channel option" where
  "channel_of (ConfigDoc m) k = m k"
| "channel_of (IndexDoc r rs) k = None"

fun resource_field :: "document \<Rightarrow> jsval" where
  "resource_field (IndexDoc r rs) = r"
| "resource_field (ConfigDoc m) = (if m ''resource'' = None then Undefined else Other)"

fun resources_field :: "document \<Rightarrow> jsval" where
  "resources_field (IndexDoc r rs) = rs"
| "resources_field (ConfigDoc m) = (if m ''resources'' = None then Undefined else Other)"

text \<open>
  A file request. \<open>RequestError\<close>: the request emits \<^verbatim>\<open>error\<close> before any response.
  \<open>Response status chunks ending\<close>: a response with that status code whose body delivers
  \<open>chunks\<close> and then completes (\<open>Complete\<close>), fails (\<open>Broken\<close>: the pipeline calls back
  with an error), or is cut by the user's cancel command while it is in flight
  (\<open>Cancelled\<close>).
\<close>

datatype body_end = Complete | Broken string | Cancelled

datatype response = RequestError string | Response nat "bytes list" body_end

record update_check =
  uc_success :: bool
  updateAvailable :: bool
  currentVersion :: "string option"
  latestVersion :: string

record env =
  clock :: "nat \<Rightarrow> int"
  windowAlive :: bool
  md5sum :: "bytes \<Rightarrow> string"
  fetch_json :: "nat \<Rightarrow> string \<Rightarrow> js_error + document"
  fetch_file :: "nat \<Rightarrow> string \<Rightarrow> response"
  gameManager :: "update_check option"

text \<open>A message to the renderer: the channel, and of the payload the status, the metrics,
  the error text and the log line where the source sends them.\<close>

record ui_event =
  ev_channel :: string
  ev_status :: "string option"
  ev_metrics :: "Metrics option"
  ev_error :: "string option"
  ev_log :: "string option"

text \<open>A JSON file beside the game files, as \<^verbatim>\<open>CoreUtils.readJsonFile\<close> sees it: text that
  does not parse, the version marker, or an index.\<close>

datatype json_file = Garbage | VersionMarker string | LocalIndex jsval jsval

text \<open>
  The state outside the managers that a run changes: the disk, the JSON files, the number
  of clock reads and of HTTP requests so far, the messages sent to the renderer (oldest
  first), the URLs of the file transfers started, the timeouts waited for between retries,
  and the calls made on the game manager.
\<close>

record world =
  disk :: disk
  jsonFiles :: "string \<rightharpoonup> json_file"
  ticks :: nat
  requests :: nat
  sent :: "ui_event list"
  transfers :: "string list"
  waited :: "nat list"
  managerCalls :: "string list"

definition Date_now :: "env \<Rightarrow> 'a world_scheme \<Rightarrow> int" where
  "Date_now e w = clock e (ticks w)"

definition tick :: "'a world_scheme \<Rightarrow> 'a world_scheme" where
  "tick w = w\<lparr>ticks := ticks w + 1\<rparr>"

definition send :: "env \<Rightarrow> ui_event \<Rightarrow> 'a world_scheme \<Rightarrow> 'a world_scheme" where
  "send e ev w = (if windowAlive e then w\<lparr>sent := sent w @ [ev]\<rparr> else w)"

text \<open>\<^verbatim>\<open>CoreUtils.combineUrl(base, part)\<close>\<close>

definition combineUrl :: "string \<Rightarrow> string \<Rightarrow> string" where
  "combineUrl base part =
     (let result = (if base \<noteq> [] \<and> last base = CHR ''/'' then butlast base else base);
          p = (if part \<noteq> [] \<and> hd part = CHR ''/'' then tl part else part)
      in result @ ''/'' @ p)"

text \<open>\<^verbatim>\<open>JSON.parse(await CoreUtils.httpRequest(url, signal))\<close>: with an aborted signal the
  request is rejected; otherwise the environment says what the request brings.\<close>

definition httpRequest_json ::
  "env \<Rightarrow> string \<Rightarrow> bool option \<Rightarrow> 'a world_scheme \<Rightarrow> (js_error + document) \<times> 'a world_scheme"
where
  "httpRequest_json e url signal w =
     (if signal = Some True then (Inl (JsError ''Request aborted''), w)
      else (fetch_json e (requests w) url, w\<lparr>requests := requests w + 1\<rparr>))"

definition GAME_CONFIG_URL :: string where
  "GAME_CONFIG_URL = ''https://prod-alicdn-gamestarter.kurogame.com/launcher/game/G153/50004_obOHXFrFanqsaIEOmuKroCcbZkQRBC7c/index.json''"

definition GAME_CONFIG_FILE :: string where
  "GAME_CONFIG_FILE = ''launcherDownloadConfig.json''"

text \<open>\<^verbatim>\<open>CoreUtils.createStandardResponse(success, data, error)\<close> with the data fields the
  engine passes.\<close>

record std_response =
  success :: bool
  r_installPath :: "string option"
  r_version :: "string option"
  r_cancelled :: "bool option"
  r_error :: "string option"

definition createStandardResponse ::
  "bool \<Rightarrow> string option \<Rightarrow> string option \<Rightarrow> bool option \<Rightarrow> string \<Rightarrow> std_response"
where
  "createStandardResponse ok ip ver canc err =
     \<lparr>success = ok, r_installPath = ip, r_version = ver, r_cancelled = canc,
      r_error = (if err = [] then None else Some err)\<rparr>"

section \<open>ValidationPipeline and GameDownloadManager\<close>

text \<open>
  The state of one \<^verbatim>\<open>GameDownloadManager\<close> with its \<^verbatim>\<open>ValidationPipeline\<close>, on top of the
  world. \<open>abortController\<close> is \<open>None\<close> for \<^verbatim>\<open>null\<close> and \<open>Some b\<close> for a controller whose
  \<^verbatim>\<open>signal.aborted\<close> is \<open>b\<close>. \<open>pipelineCache\<close> is the validation cache of the pipeline's
  \<^verbatim>\<open>FileValidator\<close>. A response stream is identified by its URL.
\<close>

record dm = world +
  isDownloading :: bool
  isPaused :: bool
  abortController :: "bool option"
  progressTracker :: ProgressTracker
  pipelineCache :: validationCache
  activeStreams :: "string set"
  completedFiles :: "string set"
  currentPatchVersion :: "string option"

record metadata =
  isFinal :: bool
  md_version :: "string option"

text \<open>
  \<^verbatim>\<open>
  getStatusText(metrics, metadata = {}) {
      switch (metrics.phase) {
          case 'checking': return 'Checking resources';
          case 'validating': {
              if (metadata.isFinal) return 'Verifying integrity...';
              const version = metadata.version;
              return version ? `Preparing Patch ${version}` : 'Preparing download...';
          }
          case 'downloading': return 'Downloading';
          default: return 'Processing';
      }
  }
  \<close>
\<close>

definition getStatusText :: "Metrics \<Rightarrow> metadata \<Rightarrow> string" where
  "getStatusText m md =
     (if m_phase m = ''checking'' then ''Checking resources''
      else if m_phase m = ''validating'' then
        (if isFinal md then ''Verifying integrity...''
         else (case md_version md of
                 None \<Rightarrow> ''Preparing download...''
               | Some v \<Rightarrow> if v = [] then ''Preparing download...'' else ''Preparing Patch '' @ v))
      else if m_phase m = ''downloading'' then ''Downloading''
      else ''Processing'')"

text \<open>
  \<^verbatim>\<open>
  sendProgress() {
      if (!this.progressTracker.uiThrottler.shouldUpdate()) return;
      const metrics = this.progressTracker.calculateMetrics();
      const progress = { status: this.getStatusText(metrics, this.metadata), ...metrics,
                         message: this.getProgressMessage(metrics) };
      if (this.mainWindow && !this.mainWindow.isDestroyed())
          this.mainWindow.webContents.send('download-progress', progress);
  }
  \<close>
\<close>

definition pipeline_sendProgress :: "env \<Rightarrow> metadata \<Rightarrow> dm \<Rightarrow> dm" where
  "pipeline_sendProgress e md s =
     (case shouldUpdate False (Date_now e s) (uiThrottler (progressTracker s)) of
        (ok, u) \<Rightarrow>
          (let s1 = tick (s\<lparr>progressTracker := (progressTracker s)\<lparr>uiThrottler := u\<rparr>\<rparr>)
           in if \<not> ok then s1
              else
                (case calculateMetrics (Date_now e s1) (progressTracker s1) of
                   (m, t) \<Rightarrow>
                     send e \<lparr>ev_channel = ''download-progress'',
                             ev_status = Some (getStatusText m md),
                             ev_metrics = Some m, ev_error = None, ev_log = None\<rparr>
                       (tick (s1\<lparr>progressTracker := t\<rparr>)))))"

text \<open>The callback that \<^verbatim>\<open>validateResources\<close> passes to \<^verbatim>\<open>deepValidate\<close>, run on one
  call \<^verbatim>\<open>(chunkSize, processed, fileSize)\<close>:
  \<^verbatim>\<open>
  (chunkSize) => {
      bytesHashed += chunkSize;
      this.progressTracker.updateValidationProgress(chunkSize, resource.dest);
      this.sendProgress();
  }
  \<close>\<close>

definition on_chunk :: "env \<Rightarrow> metadata \<Rightarrow> resource \<Rightarrow> dm \<Rightarrow> progress_call \<Rightarrow> dm" where
  "on_chunk e md r s call =
     (case updateValidationProgress (Date_now e s) (fst call) (Some (dest r)) 0 (progressTracker s) of
        (m, t) \<Rightarrow> pipeline_sendProgress e md (tick (s\<lparr>progressTracker := t\<rparr>)))"

text \<open>
  The loop of \<^verbatim>\<open>validateResources\<close>:
  \<^verbatim>\<open>
  for (const resource of resources) {
      if (this.abortSignal?.aborted) throw new Error('Validation cancelled');
      const filePath = path.join(installPath, resource.dest);
      const expectedSize = parseInt(resource.size, 10);
      const expectedMD5 = resource.md5;
      let bytesHashed = 0;
      const isValid = await this.validator.deepValidate(filePath, expectedSize, expectedMD5,
                                                        (chunkSize) => { ... });
      const remainingBytes = expectedSize - bytesHashed;
      if (remainingBytes > 0) this.progressTracker.updateValidationProgress(remainingBytes, null);
      this.progressTracker.processedFiles += 1;
      if (!isValid) { invalidFiles.push(resource); }
      this.sendProgress();
  }
  \<close>
\<close>

fun validate_each ::
  "env \<Rightarrow> string \<Rightarrow> metadata \<Rightarrow> resource list \<Rightarrow> resource list \<Rightarrow> dm
     \<Rightarrow> (js_error + resource list) \<times> dm"
where
  "validate_each e installPath md [] invalidFiles s = (Inr invalidFiles, s)"
| "validate_each e installPath md (r # rest) invalidFiles s =
     (if abortController s = Some True then (Inl (JsError ''Validation cancelled''), s)
      else
        (let filePath = path_join installPath (dest r);
             v = deepValidate (md5sum e) (disk s) (pipelineCache s) filePath (rsize r) (md5 r);
             s1 = foldl (on_chunk e md r) (s\<lparr>pipelineCache := cache_after v\<rparr>) (calls v);
             bytesHashed = sum_list (map fst (calls v));
             remainingBytes = rsize r - bytesHashed;
             s2 = (if remainingBytes > 0
                   then tick (s1\<lparr>progressTracker :=
                          snd (updateValidationProgress (Date_now e s1) remainingBytes None 0
                                 (progressTracker s1))\<rparr>)
                   else s1);
             s3 = s2\<lparr>progressTracker :=
                       (progressTracker s2)\<lparr>processedFiles := processedFiles (progressTracker s2) + 1\<rparr>\<rparr>;
             invalidFiles' = (if verdict v = Inr True then invalidFiles else invalidFiles @ [r])
         in validate_each e installPath md rest invalidFiles' (pipeline_sendProgress e md s3)))"

text \<open>
  \<^verbatim>\<open>
  async validateResources(resources, installPath, abortSignal, metadata = {}) {
      this.abortSignal = abortSignal; this.metadata = metadata;
      const invalidFiles = [];
      const totalSize = resources.reduce((sum, r) => sum + parseInt(r.size, 10), 0);
      this.progressTracker.reset();
      this.progressTracker.totalBytes = totalSize;
      this.progressTracker.totalFiles = resources.length;
      this.progressTracker.setPhase('validating', 'Verifying file integrity...');
      for (...) { ... }
      this.validator.clearCache();
      return invalidFiles;
  }
  \<close>
  The abort signal is that of the manager's controller. On a value that is no array,
  \<^verbatim>\<open>resources.reduce\<close> throws a \<^verbatim>\<open>TypeError\<close>.
\<close>

definition validateResources ::
  "env \<Rightarrow> jsval \<Rightarrow> string \<Rightarrow> metadata \<Rightarrow> dm \<Rightarrow> (js_error + resource list) \<times> dm"
where
  "validateResources e resources installPath md s =
     (case resources of
        Arr rs \<Rightarrow>
          (let totalSize = sum_list (map rsize rs);
               t1 = (reset (Date_now e s) (progressTracker s))
                      \<lparr>totalBytes := totalSize, totalFiles := int (length rs)\<rparr>;
               s1 = tick (s\<lparr>progressTracker := t1\<rparr>);
               s2 = tick (s1\<lparr>progressTracker :=
                            setPhase (Date_now e s1) ''validating'' ''Verifying file integrity...''
                              (progressTracker s1)\<rparr>)
           in case validate_each e installPath md rs [] s2 of
                (Inl err, s3) \<Rightarrow> (Inl err, s3)
              | (Inr invalidFiles, s3) \<Rightarrow> (Inr invalidFiles, s3\<lparr>pipelineCache := clearCache\<rparr>))
      | _ \<Rightarrow> (Inl (JsError ''TypeError''), s))"

text \<open>
  \<^verbatim>\<open>
  reset() {
      this.state = { isDownloading: false, isPaused: false, abortController: null };
      this.progressTracker.reset();
      this.activeStreams = new Set(); this.completedFiles = new Set();
      this.currentPatchVersion = null;
  }
  initializeDownload() {
      this.reset(); this.state.isDownloading = true;
      this.state.abortController = new AbortController();
  }
  \<close>
\<close>

definition dm_reset :: "env \<Rightarrow> dm \<Rightarrow> dm" where
  "dm_reset e s =
     tick (s\<lparr>isDownloading := False, isPaused := False, abortController := None,
             progressTracker := reset (Date_now e s) (progressTracker s),
             activeStreams := {}, completedFiles := {}, currentPatchVersion := None\<rparr>)"

definition initializeDownload :: "env \<Rightarrow> dm \<Rightarrow> dm" where
  "initializeDownload e s = (dm_reset e s)\<lparr>isDownloading := True, abortController := Some False\<rparr>"

text \<open>
  \<^verbatim>\<open>
  sendProgress(status, extra = {}) {
      if (!this.mainWindow || this.mainWindow.isDestroyed()) return;
      const metrics = this.progressTracker.calculateMetrics();
      const progressData = { status, ...metrics, ...extra };
      try { this.mainWindow.webContents.send('download-progress', progressData); } catch ...
  }
  \<close>
  \<open>extra\<close> holds an error text, or a percentage that replaces that of the metrics.
\<close>

definition dm_sendProgress :: "env \<Rightarrow> string \<Rightarrow> string option \<Rightarrow> number option \<Rightarrow> dm \<Rightarrow> dm" where
  "dm_sendProgress e status err pct s =
     (if \<not> windowAlive e then s
      else
        (case calculateMetrics (Date_now e s) (progressTracker s) of
           (m, t) \<Rightarrow>
             send e \<lparr>ev_channel = ''download-progress'', ev_status = Some status,
                     ev_metrics = Some (case pct of None \<Rightarrow> m | Some p \<Rightarrow> m\<lparr>m_percentage := p\<rparr>),
                     ev_error = err, ev_log = None\<rparr>
               (tick (s\<lparr>progressTracker := t\<rparr>))))"

record game_config =
  cfg_resources :: jsval
  cfg_baseUrl :: string
  cfg_version :: string

text \<open>
  \<^verbatim>\<open>
  async getGameConfig(versionType = VERSION_TYPES.DEFAULT) {
      this.sendProgress(STATUS.DOWNLOAD.FETCHING_CONFIG);
      const gameConfig = JSON.parse(await CoreUtils.httpRequest(CONSTANTS.GAME_CONFIG_URL, signal));
      const channelConfig = gameConfig[versionType];
      if (!channelConfig) throw new Error(`Could not find a '${versionType}' configuration.`);
      const cdnUrl = channelConfig.cdnList[0].url;
      const resourceListUrl = CoreUtils.combineUrl(cdnUrl, channelConfig.config.indexFile);
      const baseUrl = CoreUtils.combineUrl(cdnUrl, channelConfig.config.baseUrl);
      const response = await CoreUtils.httpRequest(resourceListUrl, signal);
      const resources = JSON.parse(response).resource;
      return { resources, baseUrl, version: channelConfig.version };
  }
  \<close>
\<close>

definition getGameConfig :: "env \<Rightarrow> string \<Rightarrow> dm \<Rightarrow> (js_error + game_config) \<times> dm" where
  "getGameConfig e versionType s =
     (let s1 = dm_sendProgress e ''Fetching remote configuration...'' None None s
      in case httpRequest_json e GAME_CONFIG_URL (abortController s1) s1 of
           (Inl err, s2) \<Rightarrow> (Inl err, s2)
         | (Inr gameConfig, s2) \<Rightarrow>
             (case channel_of gameConfig versionType of
                None \<Rightarrow>
                  (Inl (JsError (''Could not find a '' @ [CHR 0x27] @ versionType @ [CHR 0x27]
                                  @ '' configuration.'')), s2)
              | Some channelConfig \<Rightarrow>
                  (case cdnList channelConfig of
                     [] \<Rightarrow> (Inl (JsError ''TypeError''), s2)
                   | cdnUrl # others \<Rightarrow>
                       (let resourceListUrl = combineUrl cdnUrl (indexFile channelConfig);
                            baseUrl = combineUrl cdnUrl (ch_baseUrl channelConfig)
                        in case httpRequest_json e resourceListUrl (abortController s2) s2 of
                             (Inl err, s3) \<Rightarrow> (Inl err, s3)
                           | (Inr response, s3) \<Rightarrow>
                               (Inr \<lparr>cfg_resources = resource_field response,
                                     cfg_baseUrl = baseUrl,
                                     cfg_version = ch_version channelConfig\<rparr>, s3)))))"

text \<open>
  \<^verbatim>\<open>
  async getFilesToDownload(resources, installPath) {
      const invalidFiles = await this.validationPipeline.validateResources(resources, installPath,
          this.state.abortController?.signal, { isFinal: false, version: this.currentPatchVersion });
      const totalSizeToDownload = invalidFiles.reduce((sum, r) => sum + parseInt(r.size, 10), 0);
      this.progressTracker.reset();
      this.progressTracker.totalBytes = totalSizeToDownload;
      this.progressTracker.totalFiles = invalidFiles.length;
      const fileSizeMap = new Map(invalidFiles.map(r => [r.dest, parseInt(r.size, 10)]));
      this.progressTracker.setFileSizes(fileSizeMap);
      return invalidFiles;
  }
  \<close>
  In \<^verbatim>\<open>new Map(pairs)\<close> a later pair replaces an earlier one with the same key.
\<close>

definition getFilesToDownload ::
  "env \<Rightarrow> jsval \<Rightarrow> string \<Rightarrow> dm \<Rightarrow> (js_error + resource list) \<times> dm"
where
  "getFilesToDownload e resources installPath s =
     (case validateResources e resources installPath
             \<lparr>isFinal = False, md_version = currentPatchVersion s\<rparr> s of
        (Inl err, s1) \<Rightarrow> (Inl err, s1)
      | (Inr invalidFiles, s1) \<Rightarrow>
          (let totalSizeToDownload = sum_list (map rsize invalidFiles);
               t = setFileSizes (map_of (rev (map (\<lambda>r. (dest r, rsize r)) invalidFiles)))
                     ((reset (Date_now e s1) (progressTracker s1))
                        \<lparr>totalBytes := totalSizeToDownload,
                          totalFiles := int (length invalidFiles)\<rparr>)
           in (Inr invalidFiles, tick (s1\<lparr>progressTracker := t\<rparr>))))"

text \<open>
  \<^verbatim>\<open>
  cancelDownload() {
      if (this.state.isDownloading && this.state.abortController) {
          this.state.abortController.abort();
          this.activeStreams.forEach(stream => stream.destroy());
          this.activeStreams.clear();
      }
  }
  \<close>
\<close>

definition cancelDownload :: "dm \<Rightarrow> dm" where
  "cancelDownload s =
     (if isDownloading s \<and> abortController s \<noteq> None
      then s\<lparr>abortController := Some True, activeStreams := {}\<rparr>
      else s)"

definition statusText :: "dm \<Rightarrow> string" where
  "statusText s =
     (case currentPatchVersion s of
        None \<Rightarrow> ''Downloading...''
      | Some v \<Rightarrow> if v = [] then ''Downloading...'' else ''Downloading Patch '' @ v)"

text \<open>
  \<^verbatim>\<open>setupDownloadStream\<close> pipes the response through a \<^verbatim>\<open>ProgressStream\<close> into a
  write stream on \<open>filePath\<close>:
  \<^verbatim>\<open>
  this.activeStreams.add(res);
  const fileStream = createWriteStream(filePath);
  const progressStream = new ProgressStream(fileId, this.progressTracker);
  pipeline(res, progressStream, fileStream, (err) => {
      clearInterval(progressInterval);
      this.activeStreams.delete(res);
      if (err) {
          fileStream.close(() => { fs.unlink(filePath).catch(() => {}).finally(() => reject(err)); });
      } else {
          this.progressTracker.uiThrottler.forceUpdate();
          this.sendProgress(statusText);
          resolve();
      }
  });
  \<close>
  The write stream creates or truncates the file; every chunk passes
  \<^verbatim>\<open>progressTracker.updateFileProgress(fileId, chunk.length)\<close> and is appended. A
  cancelled transfer is one during which \<open>cancelDownload\<close> runs: that destroys the response
  stream, and the pipeline calls back with an error. The progress timer of the source
  (a message to the renderer every 50 ms) is left out.
\<close>

definition written :: "int \<Rightarrow> bytes list \<Rightarrow> node" where
  "written mt chunks = File (int (length (concat chunks))) mt chunks End"

definition setupDownloadStream ::
  "env \<Rightarrow> string \<Rightarrow> bytes list \<Rightarrow> body_end \<Rightarrow> string \<Rightarrow> string \<Rightarrow> dm \<Rightarrow> (js_error + unit) \<times> dm"
where
  "setupDownloadStream e url chunks ending filePath fileId s =
     (let s1 = s\<lparr>activeStreams := insert url (activeStreams s)\<rparr>;
          s2 = s1\<lparr>disk := (disk s1)(filePath := written (Date_now e s1) chunks),
                  progressTracker :=
                    foldl (\<lambda>t chunk. updateFileProgress fileId (int (length chunk)) False t)
                      (progressTracker s1) chunks\<rparr>;
          s3 = (if ending = Cancelled then cancelDownload s2 else s2);
          s4 = s3\<lparr>activeStreams := activeStreams s3 - {url}\<rparr>
      in case ending of
           Complete \<Rightarrow>
             (Inr (),
              dm_sendProgress e (statusText s4) None None
                (s4\<lparr>progressTracker :=
                      (progressTracker s4)\<lparr>uiThrottler := forceUpdate (uiThrottler (progressTracker s4))\<rparr>\<rparr>))
         | Broken c \<Rightarrow> (Inl (SysError c), s4\<lparr>disk := snd (fs_unlink (disk s4) filePath)\<rparr>)
         | Cancelled \<Rightarrow>
             (Inl (JsError ''Premature close''), s4\<lparr>disk := snd (fs_unlink (disk s4) filePath)\<rparr>))"

text \<open>
  \<^verbatim>\<open>
  downloadAndPipe(url, filePath, fileId, fileSize) {
      return new Promise((resolve, reject) => {
          const request = protocol.get(url, { signal }, (res) => {
              if (res.statusCode !== 200) {
                  res.resume();
                  return reject(new Error(`HTTP Error: ${res.statusCode} for URL ${url}`));
              }
              this.setupDownloadStream(res, filePath, fileId, fileSize, resolve, reject);
          });
          request.on('error', reject);
      });
  }
  \<close>
\<close>

definition downloadAndPipe ::
  "env \<Rightarrow> string \<Rightarrow> string \<Rightarrow> string \<Rightarrow> dm \<Rightarrow> (js_error + unit) \<times> dm"
where
  "downloadAndPipe e url filePath fileId s =
     (let s1 = s\<lparr>requests := requests s + 1, transfers := transfers s @ [url]\<rparr>
      in case fetch_file e (requests s) url of
           RequestError m \<Rightarrow> (Inl (JsError m), s1)
         | Response status chunks ending \<Rightarrow>
             if status \<noteq> 200
             then (Inl (JsError (''HTTP Error: '' @ show_nat status @ '' for URL '' @ url)), s1)
             else setupDownloadStream e url chunks ending filePath fileId s1)"

text \<open>
  The operation that \<^verbatim>\<open>downloadFileWithRetry\<close> hands to \<^verbatim>\<open>withRetry\<close>:
  \<^verbatim>\<open>
  async () => {
      if (this.state.abortController?.signal.aborted) throw new Error('Download aborted by user.');
      await CoreUtils.ensureDirectory(path.dirname(filePath));
      const url = CoreUtils.combineUrl(baseUrl, resource.dest);
      await this.downloadAndPipe(url, filePath, fileId, fileSize);
      const validator = new FileValidator();
      if (!(await validator.quickValidate(filePath, fileSize)))
          throw new Error('File validation failed after download.');
      this.progressTracker.updateFileProgress(fileId, 0, true);
      this.completedFiles.add(fileId);
  }
  \<close>
\<close>

definition download_attempt ::
  "env \<Rightarrow> resource \<Rightarrow> string \<Rightarrow> string \<Rightarrow> dm \<Rightarrow> (js_error + unit) \<times> dm"
where
  "download_attempt e r baseUrl installPath s =
     (let filePath = path_join installPath (dest r);
          fileSize = rsize r;
          fileId = dest r
      in if abortController s = Some True then (Inl (JsError ''Download aborted by user.''), s)
         else
           (case downloadAndPipe e (combineUrl baseUrl (dest r)) filePath fileId s of
              (Inl err, s1) \<Rightarrow> (Inl err, s1)
            | (Inr u, s1) \<Rightarrow>
                (case quickValidate (disk s1) filePath fileSize of
                   Inl err \<Rightarrow> (Inl err, s1)
                 | Inr ok \<Rightarrow>
                     if \<not> ok then (Inl (JsError ''File validation failed after download.''), s1)
                     else (Inr (),
                           s1\<lparr>progressTracker := updateFileProgress fileId 0 True (progressTracker s1),
                              completedFiles := insert fileId (completedFiles s1)\<rparr>))))"

text \<open>\<^verbatim>\<open>downloadFileWithRetry\<close>: the attempt under
  \<^verbatim>\<open>CoreUtils.withRetry(..., CONSTANTS.MAX_RETRIES)\<close>; the timeouts waited for are logged in
  the world.\<close>

definition downloadFileWithRetry ::
  "env \<Rightarrow> resource \<Rightarrow> string \<Rightarrow> string \<Rightarrow> dm \<Rightarrow> (js_error + unit option) \<times> dm"
where
  "downloadFileWithRetry e r baseUrl installPath s =
     (case withRetry (download_attempt e r baseUrl installPath) MAX_RETRIES RETRY_DELAY_BASE s of
        (res, s1, n, ds) \<Rightarrow> (res, s1\<lparr>waited := waited s1 @ ds\<rparr>))"

text \<open>
  \<^verbatim>\<open>
  async worker(queue, baseUrl, installPath) {
      while (queue.length > 0) {
          if (this.state.abortController?.signal.aborted) throw new Error("Download aborted by user.");
          if (this.state.isPaused) { await this.waitForResume(); continue; }
          const resource = queue.shift();
          if (resource) await this.downloadFileWithRetry(resource, baseUrl, installPath);
      }
  }
  \<close>
  The eight workers of \<^verbatim>\<open>executeDownload\<close> share one queue and interleave where they
  await; the model runs the schedule in which each file is finished before the next one
  is taken from the queue. \<^verbatim>\<open>waitForResume\<close> polls until the download is resumed or
  aborted from outside; inside a run nothing does that, so a worker that finds the manager
  paused never returns: the result is \<open>None\<close>.
\<close>

fun worker :: "env \<Rightarrow> string \<Rightarrow> string \<Rightarrow> resource list \<Rightarrow> dm \<Rightarrow> ((js_error + unit) \<times> dm) option" where
  "worker e baseUrl installPath [] s = Some (Inr (), s)"
| "worker e baseUrl installPath (r # queue) s =
     (if abortController s = Some True then Some (Inl (JsError ''Download aborted by user.''), s)
      else if isPaused s then None
      else
        (case downloadFileWithRetry e r baseUrl installPath s of
           (Inl err, s1) \<Rightarrow> Some (Inl err, s1)
         | (Inr u, s1) \<Rightarrow> worker e baseUrl installPath queue s1))"

text \<open>
  \<^verbatim>\<open>
  async executeDownload(filesToDownload, baseUrl, installPath) {
      this.progressTracker.setPhase('downloading', 'Downloading files...');
      this.sendProgress(statusText);
      const queue = [...filesToDownload];
      const workers = Array(CONSTANTS.MAX_CONCURRENT_DOWNLOADS).fill(null)
          .map(() => this.worker(queue, baseUrl, installPath));
      await Promise.all(workers);
      if (this.state.abortController.signal.aborted)
          throw new Error("Download was cancelled by the user.");
  }
  \<close>
\<close>

definition executeDownload ::
  "env \<Rightarrow> resource list \<Rightarrow> string \<Rightarrow> string \<Rightarrow> dm \<Rightarrow> ((js_error + unit) \<times> dm) option"
where
  "executeDownload e filesToDownload baseUrl installPath s =
     (let s1 = tick (s\<lparr>progressTracker :=
                         setPhase (Date_now e s) ''downloading'' ''Downloading files...''
                           (progressTracker s)\<rparr>);
          s2 = dm_sendProgress e (statusText s1) None None s1
      in case worker e baseUrl installPath filesToDownload s2 of
           None \<Rightarrow> None
         | Some (Inl err, s3) \<Rightarrow> Some (Inl err, s3)
         | Some (Inr u, s3) \<Rightarrow>
             (case abortController s3 of
                None \<Rightarrow> Some (Inl (JsError ''TypeError''), s3)
              | Some aborted \<Rightarrow>
                  if aborted then Some (Inl (JsError ''Download was cancelled by the user.''), s3)
                  else Some (Inr (), s3)))"

text \<open>
  \<^verbatim>\<open>completeDownload\<close>: writes the version marker (\<^verbatim>\<open>GameUtils.updateGameConfig\<close>), clears
  the game manager's update cache, writes \<^verbatim>\<open>LocalGameResources.json\<close> with
  \<^verbatim>\<open>{ resource: resources }\<close>, runs a fresh update check and tells the renderer its
  result, sends the status \<^verbatim>\<open>Completed\<close> with percentage 100, and returns
  \<^verbatim>\<open>createStandardResponse(true, { installPath, version })\<close>. \<^verbatim>\<open>writeJsonFile\<close> returns
  its failure instead of throwing, so nothing here throws.
\<close>

definition completeDownload ::
  "env \<Rightarrow> string \<Rightarrow> string \<Rightarrow> jsval \<Rightarrow> dm \<Rightarrow> std_response \<times> dm"
where
  "completeDownload e installPath version resources s =
     (let s1 = s\<lparr>jsonFiles := (jsonFiles s)(path_join installPath GAME_CONFIG_FILE \<mapsto> VersionMarker version)\<rparr>;
          s2 = (case gameManager e of
                  None \<Rightarrow> s1
                | Some uc \<Rightarrow> s1\<lparr>managerCalls := managerCalls s1 @ [''clearUpdateCache'']\<rparr>);
          s3 = s2\<lparr>jsonFiles := (jsonFiles s2)(path_join installPath ''LocalGameResources.json''
                                    \<mapsto> LocalIndex resources Undefined)\<rparr>;
          s4 = (case gameManager e of
                  None \<Rightarrow> s3
                | Some uc \<Rightarrow>
                    (let s' = s3\<lparr>managerCalls := managerCalls s3 @ [''checkForUpdates'']\<rparr>
                     in if uc_success uc
                        then send e \<lparr>ev_channel = ''update-status-refreshed'', ev_status = None,
                                     ev_metrics = None, ev_error = None, ev_log = None\<rparr> s'
                        else s'));
          s5 = dm_sendProgress e ''Completed'' None (Some (Finite 100)) s4
      in (createStandardResponse True (Some installPath) (Some version) None [], s5))"

text \<open>
  \<^verbatim>\<open>
  handleDownloadError(error) {
      const isCancelled = this.state.abortController?.signal.aborted;
      const status = isCancelled ? STATUS.DOWNLOAD.CANCELLED : STATUS.DOWNLOAD.ERROR;
      this.sendProgress(status, { error: error.message });
      return CoreUtils.createStandardResponse(false, { cancelled: isCancelled }, error.message);
  }
  \<close>
\<close>

definition handleDownloadError :: "env \<Rightarrow> js_error \<Rightarrow> dm \<Rightarrow> std_response \<times> dm" where
  "handleDownloadError e error s =
     (let isCancelled = abortController s;
          status = (if isCancelled = Some True then ''Cancelled'' else ''Error'')
      in (createStandardResponse False None None isCancelled (message error),
          dm_sendProgress e status (Some (message error)) None s))"

text \<open>
  The \<^verbatim>\<open>try\<close> block of \<^verbatim>\<open>downloadGame\<close>:
  \<^verbatim>\<open>
  const config = await this.getGameConfig(versionType);
  this.currentPatchVersion = config.version;
  await CoreUtils.ensureDirectory(installPath);
  const filesToDownload = await this.getFilesToDownload(config.resources, installPath);
  if (filesToDownload.length === 0) {
      return await this.completeDownload(installPath, config.version, config.resources);
  }
  await this.executeDownload(filesToDownload, config.baseUrl, installPath);
  const finalInvalid = await this.validationPipeline.validateResources(config.resources,
      installPath, this.state.abortController?.signal,
      { isFinal: true, version: this.currentPatchVersion });
  if (finalInvalid.length > 0) {
      throw new Error(`Validation failed: ${finalInvalid.length} files are still corrupt after download.`);
  }
  return await this.completeDownload(installPath, config.version, config.resources);
  \<close>
\<close>

definition downloadGame_try ::
  "env \<Rightarrow> string \<Rightarrow> string \<Rightarrow> dm \<Rightarrow> ((js_error + std_response) \<times> dm) option"
where
  "downloadGame_try e installPath versionType s =
     (case getGameConfig e versionType s of
        (Inl err, s1) \<Rightarrow> Some (Inl err, s1)
      | (Inr config, s1) \<Rightarrow>
          (let s2 = s1\<lparr>currentPatchVersion := Some (cfg_version config)\<rparr>
           in case getFilesToDownload e (cfg_resources config) installPath s2 of
                (Inl err, s3) \<Rightarrow> Some (Inl err, s3)
              | (Inr filesToDownload, s3) \<Rightarrow>
                  if length filesToDownload = 0
                  then (case completeDownload e installPath (cfg_version config) (cfg_resources config) s3 of
                          (resp, s4) \<Rightarrow> Some (Inr resp, s4))
                  else
                    (case executeDownload e filesToDownload (cfg_baseUrl config) installPath s3 of
                       None \<Rightarrow> None
                     | Some (Inl err, s4) \<Rightarrow> Some (Inl err, s4)
                     | Some (Inr u, s4) \<Rightarrow>
                         (case validateResources e (cfg_resources config) installPath
                                 \<lparr>isFinal = True, md_version = currentPatchVersion s4\<rparr> s4 of
                            (Inl err, s5) \<Rightarrow> Some (Inl err, s5)
                          | (Inr finalInvalid, s5) \<Rightarrow>
                              if length finalInvalid > 0
                              then Some (Inl (JsError (''Validation failed: ''
                                            @ show_nat (length finalInvalid)
                                            @ '' files are still corrupt after download.'')), s5)
                              else (case completeDownload e installPath (cfg_version config)
                                           (cfg_resources config) s5 of
                                      (resp, s6) \<Rightarrow> Some (Inr resp, s6))))))"

text \<open>
  \<^verbatim>\<open>
  async downloadGame(installPath, versionType = VERSION_TYPES.DEFAULT, localVersion = null) {
      if (this.state.isDownloading) {
          return CoreUtils.createStandardResponse(false, null, 'A download is already in progress.');
      }
      this.initializeDownload();
      try { ... } catch (error) { return this.handleDownloadError(error); }
      finally { this.reset(); }
  }
  \<close>
\<close>

definition downloadGame :: "env \<Rightarrow> string \<Rightarrow> string \<Rightarrow> dm \<Rightarrow> (std_response \<times> dm) option" where
  "downloadGame e installPath versionType s =
     (if isDownloading s
      then Some (createStandardResponse False None None None ''A download is already in progress.'', s)
      else
        (case downloadGame_try e installPath versionType (initializeDownload e s) of
           None \<Rightarrow> None
         | Some (Inl error, s1) \<Rightarrow>
             (case handleDownloadError e error s1 of (resp, s2) \<Rightarrow> Some (resp, dm_reset e s2))
         | Some (Inr resp, s1) \<Rightarrow> Some (resp, dm_reset e s1)))"

text \<open>The constructor: \<^verbatim>\<open>this.progressTracker = new ProgressTracker(); ...; this.reset();\<close>
  in a given world.\<close>

definition new_GameDownloadManager :: "env \<Rightarrow> world \<Rightarrow> dm" where
  "new_GameDownloadManager e w =
     dm_reset e
       (tick \<lparr>disk = disk w, jsonFiles = jsonFiles w, ticks = ticks w, requests = requests w,
              sent = sent w, transfers = transfers w, waited = waited w,
              managerCalls = managerCalls w,
              isDownloading = False, isPaused = False, abortController = None,
              progressTracker = new_ProgressTracker (Date_now e w),
              pipelineCache = Map.empty, activeStreams = {}, completedFiles = {},
              currentPatchVersion = None\<rparr>)"

text \<open>A world with nothing on disk and nothing done yet.\<close>

definition empty_world :: world where
  "empty_world =
     \<lparr>disk = (\<lambda>p. Missing), jsonFiles = Map.empty, ticks = 0, requests = 0, sent = [],
      transfers = [], waited = [], managerCalls = []\<rparr>"

section \<open>GameRepairManager\<close>

text \<open>The state of one \<^verbatim>\<open>GameRepairManager\<close>, on top of the world.\<close>

record rm = world +
  isRepairing :: bool
  rm_abortController :: "bool option"
  rm_progressTracker :: ProgressTracker
  rm_validatorCache :: validationCache

text \<open>
  \<^verbatim>\<open>
  sendProgress(data) {
      if (!this.mainWindow || this.mainWindow.isDestroyed()) return;
      try { this.mainWindow.webContents.send('repair-progress', data); } catch ...
  }
  \<close>
\<close>

definition rm_event :: "string option \<Rightarrow> Metrics option \<Rightarrow> string option \<Rightarrow> string option \<Rightarrow> ui_event" where
  "rm_event status m err lg =
     \<lparr>ev_channel = ''repair-progress'', ev_status = status, ev_metrics = m,
      ev_error = err, ev_log = lg\<rparr>"

definition rm_sendProgress :: "env \<Rightarrow> ui_event \<Rightarrow> rm \<Rightarrow> rm" where
  "rm_sendProgress e ev s = send e ev s"

definition set_phase :: "string \<Rightarrow> rm \<Rightarrow> rm" where
  "set_phase ph s = s\<lparr>rm_progressTracker := (rm_progressTracker s)\<lparr>phase := ph\<rparr>\<rparr>"

text \<open>What \<^verbatim>\<open>getLocalResources\<close> takes from a local JSON file:
  \<^verbatim>\<open>
  const localIndex = await CoreUtils.readJsonFile(indexPath);
  let resources = null;
  if (localIndex?.resource) resources = localIndex.resource;
  else if (localIndex?.resources) resources = localIndex.resources;
  \<close>
  \<^verbatim>\<open>readJsonFile\<close> gives \<^verbatim>\<open>null\<close> for a file it cannot read or parse.\<close>

fun local_resources :: "json_file \<Rightarrow> jsval" where
  "local_resources (LocalIndex r rs) = (if r \<noteq> Undefined then r else rs)"
| "local_resources Garbage = Undefined"
| "local_resources (VersionMarker v) = Undefined"

text \<open>
  The loop of \<^verbatim>\<open>getLocalResources\<close> over the candidate paths:
  \<^verbatim>\<open>
  for (const indexPath of possiblePaths) {
      if (await CoreUtils.fileExists(indexPath)) {
          const localIndex = await CoreUtils.readJsonFile(indexPath);
          ...
          if (resources && Array.isArray(resources) && resources.length > 0) {
              if (resources.length >= 100) return resources;
          }
      }
  }
  throw new Error('Quick Check failed: No valid local index found with sufficient files. Please run a Full Check.');
  \<close>
\<close>

fun first_local_index :: "(string \<rightharpoonup> json_file) \<Rightarrow> string list \<Rightarrow> js_error + resource list" where
  "first_local_index files [] =
     Inl (JsError ''Quick Check failed: No valid local index found with sufficient files. Please run a Full Check.'')"
| "first_local_index files (indexPath # others) =
     (case files indexPath of
        None \<Rightarrow> first_local_index files others
      | Some localIndex \<Rightarrow>
          (case local_resources localIndex of
             Arr resources \<Rightarrow>
               if length resources > 0 \<and> length resources \<ge> 100 then Inr resources
               else first_local_index files others
           | _ \<Rightarrow> first_local_index files others))"

definition getLocalResources :: "env \<Rightarrow> string \<Rightarrow> rm \<Rightarrow> (js_error + resource list) \<times> rm" where
  "getLocalResources e gamePath s =
     (let s1 = rm_sendProgress e (rm_event (Some ''Fetching file index...'') None None None)
                 (set_phase ''fetching'' s)
      in (first_local_index (jsonFiles s1)
            [path_join gamePath ''OriginResource.json'',
             path_join gamePath ''LocalGameResources.json''], s1))"

text \<open>\<^verbatim>\<open>a || b\<close> on two fields of an index document.\<close>

definition or_else :: "jsval \<Rightarrow> jsval \<Rightarrow> jsval" where
  "or_else a b = (if a \<noteq> Undefined then a else b)"

text \<open>
  \<^verbatim>\<open>
  async fetchGameConfig() {
      this.progressTracker.phase = 'fetching';
      this.sendProgress({ status: STATUS.REPAIR.FETCHING_CONFIG });
      const gameConfig = JSON.parse(await CoreUtils.httpRequest(CONSTANTS.GAME_CONFIG_URL, signal));
      const channelConfig = gameConfig.default;
      if (!channelConfig) throw new Error('Could not find default configuration for repair.');
      const cdnUrl = channelConfig.cdnList[0].url;
      const indexUrl = CoreUtils.combineUrl(cdnUrl, channelConfig.config.indexFile);
      const baseUrl = CoreUtils.combineUrl(cdnUrl, channelConfig.config.baseUrl);
      this.sendProgress({ status: STATUS.REPAIR.FETCHING_INDEX });
      const indexData = JSON.parse(await CoreUtils.httpRequest(indexUrl, signal));
      return { resources: indexData.resource || indexData.resources, baseUrl };
  }
  \<close>
\<close>

definition fetchGameConfig :: "env \<Rightarrow> rm \<Rightarrow> (js_error + jsval \<times> string) \<times> rm" where
  "fetchGameConfig e s =
     (let s1 = rm_sendProgress e (rm_event (Some ''Fetching configuration...'') None None None)
                 (set_phase ''fetching'' s)
      in case httpRequest_json e GAME_CONFIG_URL (rm_abortController s1) s1 of
           (Inl err, s2) \<Rightarrow> (Inl err, s2)
         | (Inr gameConfig, s2) \<Rightarrow>
             (case channel_of gameConfig ''default'' of
                None \<Rightarrow> (Inl (JsError ''Could not find default configuration for repair.''), s2)
              | Some channelConfig \<Rightarrow>
                  (case cdnList channelConfig of
                     [] \<Rightarrow> (Inl (JsError ''TypeError''), s2)
                   | cdnUrl # others \<Rightarrow>
                       (let indexUrl = combineUrl cdnUrl (indexFile channelConfig);
                            baseUrl = combineUrl cdnUrl (ch_baseUrl channelConfig);
                            s3 = rm_sendProgress e
                                   (rm_event (Some ''Fetching file index...'') None None None) s2
                        in case httpRequest_json e indexUrl (rm_abortController s3) s3 of
                             (Inl err, s4) \<Rightarrow> (Inl err, s4)
                           | (Inr indexData, s4) \<Rightarrow>
                               (Inr (or_else (resource_field indexData) (resources_field indexData),
                                     baseUrl), s4)))))"

text \<open>
  The first part of the \<^verbatim>\<open>try\<close> block of \<^verbatim>\<open>repairGame\<close>, which decides where the list
  of resources comes from:
  \<^verbatim>\<open>
  let resources; let baseUrl;
  if (mode === 'quick') {
      try { resources = await this.getLocalResources(gamePath); }
      catch (localError) {
          const config = await this.fetchGameConfig();
          resources = config.resources; baseUrl = config.baseUrl;
      }
  } else {
      const config = await this.fetchGameConfig();
      resources = config.resources; baseUrl = config.baseUrl;
  }
  if (!resources || !Array.isArray(resources)) throw new Error('Invalid game index structure.');
  if (resources.length < 100) {
      if (mode === 'quick') {
          const config = await this.fetchGameConfig();
          resources = config.resources; baseUrl = config.baseUrl;
      }
  }
  \<close>
  The result is the value of \<^verbatim>\<open>resources\<close> and of \<^verbatim>\<open>baseUrl\<close> (\<open>None\<close> while it is
  \<^verbatim>\<open>undefined\<close>).
\<close>

definition sourceResources ::
  "env \<Rightarrow> string \<Rightarrow> string \<Rightarrow> rm \<Rightarrow> (js_error + jsval \<times> string option) \<times> rm"
where
  "sourceResources e gamePath mode s =
     (let first =
            (if mode = ''quick'' then
               (case getLocalResources e gamePath s of
                  (Inr resources, s1) \<Rightarrow> (Inr (Arr resources, None), s1)
                | (Inl localError, s1) \<Rightarrow>
                    (case fetchGameConfig e s1 of
                       (Inl err, s2) \<Rightarrow> (Inl err, s2)
                     | (Inr (resources, baseUrl), s2) \<Rightarrow> (Inr (resources, Some baseUrl), s2)))
             else
               (case fetchGameConfig e s of
                  (Inl err, s2) \<Rightarrow> (Inl err, s2)
                | (Inr (resources, baseUrl), s2) \<Rightarrow> (Inr (resources, Some baseUrl), s2)))
      in case first of
           (Inl err, s2) \<Rightarrow> (Inl err, s2)
         | (Inr (resources, baseUrl), s2) \<Rightarrow>
             (case resources of
                Arr rs \<Rightarrow>
                  if length rs < 100 \<and> mode = ''quick'' then
                    (case fetchGameConfig e s2 of
                       (Inl err, s3) \<Rightarrow> (Inl err, s3)
                     | (Inr (resources', baseUrl'), s3) \<Rightarrow> (Inr (resources', Some baseUrl'), s3))
                  else (Inr (Arr rs, baseUrl), s2)
              | _ \<Rightarrow> (Inl (JsError ''Invalid game index structure.''), s2)))"

text \<open>
  \<^verbatim>\<open>
  sendValidationProgress(corruptCount) {
      const progress = this.progressTracker.calculateMetrics();
      this.sendProgress({ status: STATUS.REPAIR.VALIDATING, ...progress, ... });
  }
  sendRepairProgress() {
      const progress = this.progressTracker.calculateMetrics();
      this.sendProgress({ status: STATUS.REPAIR.REPAIRING, ...progress, ... });
  }
  \<close>
\<close>

definition rm_sendMetrics :: "env \<Rightarrow> string \<Rightarrow> rm \<Rightarrow> rm" where
  "rm_sendMetrics e status s =
     (case calculateMetrics (Date_now e s) (rm_progressTracker s) of
        (m, t) \<Rightarrow>
          rm_sendProgress e (rm_event (Some status) (Some m) None None)
            (tick (s\<lparr>rm_progressTracker := t\<rparr>)))"

text \<open>\<^verbatim>\<open>if (this.progressTracker.uiThrottler.shouldUpdate()) send...()\<close>\<close>

definition rm_throttled :: "env \<Rightarrow> string \<Rightarrow> rm \<Rightarrow> rm" where
  "rm_throttled e status s =
     (case shouldUpdate False (Date_now e s) (uiThrottler (rm_progressTracker s)) of
        (ok, u) \<Rightarrow>
          (let s1 = tick (s\<lparr>rm_progressTracker := (rm_progressTracker s)\<lparr>uiThrottler := u\<rparr>\<rparr>)
           in if ok then rm_sendMetrics e status s1 else s1))"

text \<open>The callback of the deep validation in repair:
  \<^verbatim>\<open>
  (chunkSize) => {
      this.progressTracker.updateProgress(chunkSize);
      if (this.progressTracker.uiThrottler.shouldUpdate()) this.sendValidationProgress(corruptFiles.length);
  }
  \<close>\<close>

definition rm_on_chunk :: "env \<Rightarrow> rm \<Rightarrow> progress_call \<Rightarrow> rm" where
  "rm_on_chunk e s call =
     rm_throttled e ''Validating''
       (tick (s\<lparr>rm_progressTracker :=
                  updateProgress (Date_now e s) (fst call) None (rm_progressTracker s)\<rparr>))"

text \<open>
  The loop of \<^verbatim>\<open>validateGameFilesWithPerFileUpdates\<close> (the batches of 100 only group the
  iterations):
  \<^verbatim>\<open>
  if (this.abortController?.signal.aborted) throw new Error('cancelled');
  const filePath = path.join(gamePath, resource.dest);
  const expectedSize = parseInt(resource.size, 10);
  this.progressTracker.currentFile = resource.dest;
  let isValid;
  if (isQuickMode) isValid = await this.validator.quickValidate(filePath, expectedSize);
  else isValid = await this.validator.deepValidate(filePath, expectedSize, resource.md5, (chunkSize) => ...);
  if (isQuickMode) this.progressTracker.updateProgress(expectedSize);
  if (!isValid) { corruptFiles.push(resource); this.logCorruptFile(resource.dest); }
  else this.logValidFile(resource.dest);
  this.progressTracker.incrementProcessedFiles();
  if (this.progressTracker.uiThrottler.shouldUpdate()) this.sendValidationProgress(corruptFiles.length);
  \<close>
\<close>

fun rm_validate_each ::
  "env \<Rightarrow> string \<Rightarrow> bool \<Rightarrow> resource list \<Rightarrow> resource list \<Rightarrow> rm \<Rightarrow> (js_error + resource list) \<times> rm"
where
  "rm_validate_each e gamePath isQuickMode [] corrupt s = (Inr corrupt, s)"
| "rm_validate_each e gamePath isQuickMode (r # rest) corrupt s =
     (if rm_abortController s = Some True then (Inl (JsError ''cancelled''), s)
      else
        (let filePath = path_join gamePath (dest r);
             s0 = s\<lparr>rm_progressTracker := (rm_progressTracker s)\<lparr>currentFile := Some (dest r)\<rparr>\<rparr>
         in if isQuickMode then
              (case quickValidate (disk s0) filePath (rsize r) of
                 Inl err \<Rightarrow> (Inl err, s0)
               | Inr isValid \<Rightarrow>
                   (let s1 = tick (s0\<lparr>rm_progressTracker :=
                                        updateProgress (Date_now e s0) (rsize r) None (rm_progressTracker s0)\<rparr>);
                        s2 = rm_sendProgress e
                               (rm_event None None None
                                  (Some ((if isValid then ''[Valid] '' else ''[Invalid] '') @ dest r))) s1;
                        s3 = s2\<lparr>rm_progressTracker := incrementProcessedFiles (rm_progressTracker s2)\<rparr>
                    in rm_validate_each e gamePath isQuickMode rest
                         (if isValid then corrupt else corrupt @ [r])
                         (rm_throttled e ''Validating'' s3)))
            else
              (let v = deepValidate (md5sum e) (disk s0) (rm_validatorCache s0) filePath (rsize r) (md5 r);
                   isValid = (verdict v = Inr True);
                   s1 = foldl (rm_on_chunk e) (s0\<lparr>rm_validatorCache := cache_after v\<rparr>) (calls v);
                   s2 = rm_sendProgress e
                          (rm_event None None None
                             (Some ((if isValid then ''[Valid] '' else ''[Invalid] '') @ dest r))) s1;
                   s3 = s2\<lparr>rm_progressTracker := incrementProcessedFiles (rm_progressTracker s2)\<rparr>
               in rm_validate_each e gamePath isQuickMode rest
                    (if isValid then corrupt else corrupt @ [r])
                    (rm_throttled e ''Validating'' s3))))"

text \<open>\<^verbatim>\<open>validateGameFilesWithPerFileUpdates(resources, gamePath, mode)\<close>; on a value that is
  no array, \<^verbatim>\<open>resources.length\<close> or \<^verbatim>\<open>resources.reduce\<close> throws a \<^verbatim>\<open>TypeError\<close>.\<close>

definition validateGameFilesWithPerFileUpdates ::
  "env \<Rightarrow> jsval \<Rightarrow> string \<Rightarrow> string \<Rightarrow> rm \<Rightarrow> (js_error + resource list) \<times> rm"
where
  "validateGameFilesWithPerFileUpdates e resources gamePath mode s =
     (case resources of
        Arr rs \<Rightarrow>
          (let s1 = s\<lparr>rm_progressTracker :=
                       (rm_progressTracker s)\<lparr>totalFiles := int (length rs),
                                               totalBytes := sum_list (map rsize rs),
                                               phase := ''validating''\<rparr>\<rparr>;
               s2 = rm_sendProgress e (rm_event (Some ''Validating'') None None None) s1
           in case rm_validate_each e gamePath (mode = ''quick'') rs [] s2 of
                (Inl err, s3) \<Rightarrow> (Inl err, s3)
              | (Inr corrupt, s3) \<Rightarrow>
                  (Inr corrupt,
                   s3\<lparr>rm_progressTracker := setCorruptFiles corrupt (rm_progressTracker s3)\<rparr>))
      | _ \<Rightarrow> (Inl (JsError ''TypeError''), s))"

text \<open>
  \<^verbatim>\<open>cancelRepair() { if (this.isRepairing && this.abortController) this.abortController.abort(); }\<close>
\<close>

definition cancelRepair :: "rm \<Rightarrow> rm" where
  "cancelRepair s =
     (if isRepairing s \<and> rm_abortController s \<noteq> None then s\<lparr>rm_abortController := Some True\<rparr> else s)"

text \<open>
  \<^verbatim>\<open>downloadFile(url, filePath, fileSize)\<close>: as \<^verbatim>\<open>downloadAndPipe\<close>, with a progress
  stream that calls
  \<^verbatim>\<open>
  chunkLength => {
      downloadedBytes += chunkLength;
      this.progressTracker.updateDownloadProgress(chunkLength);
      if (this.progressTracker.uiThrottler.shouldUpdate()) this.sendRepairProgress();
  }
  \<close>
  and a pipeline callback that closes and unlinks the file on an error, and otherwise
  forces a progress update. A cancelled transfer is one during which \<open>cancelRepair\<close> runs:
  the abort signal, which the request carries, destroys the response stream.
\<close>

definition rm_on_data :: "env \<Rightarrow> rm \<Rightarrow> bytes \<Rightarrow> rm" where
  "rm_on_data e s chunk =
     rm_throttled e ''Repairing''
       (tick (s\<lparr>rm_progressTracker :=
                  snd (updateDownloadProgress (Date_now e s) (int (length chunk)) None
                         (rm_progressTracker s))\<rparr>))"

definition downloadFile :: "env \<Rightarrow> string \<Rightarrow> string \<Rightarrow> rm \<Rightarrow> (js_error + unit) \<times> rm" where
  "downloadFile e url filePath s =
     (let s1 = s\<lparr>requests := requests s + 1, transfers := transfers s @ [url]\<rparr>
      in case fetch_file e (requests s) url of
           RequestError m \<Rightarrow> (Inl (JsError m), s1)
         | Response status chunks ending \<Rightarrow>
             if status \<noteq> 200 then (Inl (JsError (''HTTP Error: '' @ show_nat status)), s1)
             else
               (let s2 = foldl (rm_on_data e)
                           (s1\<lparr>disk := (disk s1)(filePath := written (Date_now e s1) chunks)\<rparr>) chunks
                in case ending of
                     Complete \<Rightarrow>
                       (Inr (),
                        rm_sendMetrics e ''Repairing''
                          (s2\<lparr>rm_progressTracker :=
                                (rm_progressTracker s2)
                                  \<lparr>uiThrottler := forceUpdate (uiThrottler (rm_progressTracker s2))\<rparr>\<rparr>))
                   | Broken c \<Rightarrow> (Inl (SysError c), s2\<lparr>disk := snd (fs_unlink (disk s2) filePath)\<rparr>)
                   | Cancelled \<Rightarrow>
                       (let s3 = cancelRepair s2
                        in (Inl (JsError ''The operation was aborted''),
                            s3\<lparr>disk := snd (fs_unlink (disk s3) filePath)\<rparr>))))"

text \<open>
  The operation that \<^verbatim>\<open>repairFile\<close> hands to \<^verbatim>\<open>withRetry\<close>:
  \<^verbatim>\<open>
  async () => {
      if (this.abortController?.signal.aborted) throw new Error('Download aborted');
      const url = CoreUtils.combineUrl(baseUrl, resource.dest);
      await CoreUtils.ensureDirectory(path.dirname(filePath));
      await this.downloadFile(url, filePath, fileSize);
      const isValid = await this.validator.quickValidate(filePath, fileSize);
      if (!isValid) throw new Error('File verification failed after download.');
      this.logRepairAction(fileName, 'repaired');
  }
  \<close>
\<close>

definition repair_attempt :: "env \<Rightarrow> resource \<Rightarrow> string \<Rightarrow> string \<Rightarrow> rm \<Rightarrow> (js_error + unit) \<times> rm" where
  "repair_attempt e r baseUrl gamePath s =
     (let filePath = path_join gamePath (dest r)
      in if rm_abortController s = Some True then (Inl (JsError ''Download aborted''), s)
         else
           (case downloadFile e (combineUrl baseUrl (dest r)) filePath s of
              (Inl err, s1) \<Rightarrow> (Inl err, s1)
            | (Inr u, s1) \<Rightarrow>
                (case quickValidate (disk s1) filePath (rsize r) of
                   Inl err \<Rightarrow> (Inl err, s1)
                 | Inr isValid \<Rightarrow>
                     if \<not> isValid then (Inl (JsError ''File verification failed after download.''), s1)
                     else (Inr (),
                           rm_sendProgress e
                             (rm_event None None None (Some (''[Repaired] '' @ basename (dest r)))) s1))))"

text \<open>\<^verbatim>\<open>repairFile\<close>: sets the current file, logs, and runs the attempt under
  \<^verbatim>\<open>CoreUtils.withRetry(..., CONSTANTS.MAX_REPAIR_RETRIES)\<close>.\<close>

definition repairFile :: "env \<Rightarrow> resource \<Rightarrow> string \<Rightarrow> string \<Rightarrow> rm \<Rightarrow> (js_error + unit option) \<times> rm" where
  "repairFile e r baseUrl gamePath s =
     (let s0 = rm_sendProgress e
                 (rm_event None None None (Some (''[Repairing] '' @ basename (dest r))))
                 (s\<lparr>rm_progressTracker := (rm_progressTracker s)\<lparr>currentFile := Some (dest r)\<rparr>\<rparr>)
      in case withRetry (repair_attempt e r baseUrl gamePath) MAX_REPAIR_RETRIES RETRY_DELAY_BASE s0 of
           (res, s1, n, ds) \<Rightarrow> (res, s1\<lparr>waited := waited s1 @ ds\<rparr>))"

text \<open>
  \<^verbatim>\<open>
  async repairWorker(queue, baseUrl, gamePath) {
      while (queue.length > 0) {
          if (this.abortController?.signal.aborted) throw new Error('Repair aborted');
          const resource = queue.shift();
          if (resource) { await this.repairFile(resource, baseUrl, gamePath);
                          this.progressTracker.incrementRepairedFiles(); }
      }
  }
  \<close>
  As for the download workers, the model finishes each file before it takes the next.
\<close>

fun repairWorker :: "env \<Rightarrow> string \<Rightarrow> string \<Rightarrow> resource list \<Rightarrow> rm \<Rightarrow> (js_error + unit) \<times> rm" where
  "repairWorker e baseUrl gamePath [] s = (Inr (), s)"
| "repairWorker e baseUrl gamePath (r # queue) s =
     (if rm_abortController s = Some True then (Inl (JsError ''Repair aborted''), s)
      else
        (case repairFile e r baseUrl gamePath s of
           (Inl err, s1) \<Rightarrow> (Inl err, s1)
         | (Inr u, s1) \<Rightarrow>
             repairWorker e baseUrl gamePath queue
               (s1\<lparr>rm_progressTracker := incrementRepairedFiles (rm_progressTracker s1)\<rparr>)))"

text \<open>
  \<^verbatim>\<open>repairCorruptFiles(corruptFiles, baseUrl, gamePath)\<close>: sets the tracker up for the
  repair phase, tells the renderer, and runs the workers on the queue.
\<close>

definition repairCorruptFiles :: "env \<Rightarrow> resource list \<Rightarrow> string \<Rightarrow> string \<Rightarrow> rm \<Rightarrow> (js_error + unit) \<times> rm" where
  "repairCorruptFiles e corrupt baseUrl gamePath s =
     (let t = setCorruptFiles corrupt
                ((rm_progressTracker s)\<lparr>downloadedBytes := 0, repairedFiles := 0,
                                        totalBytes := sum_list (map rsize corrupt),
                                        phase := ''repairing''\<rparr>);
          s1 = rm_sendProgress e
                 (rm_event (Some ''Downloading missing/corrupted files'') None None
                    (Some (''[INFO] Starting download of '' @ show_nat (length corrupt)
                           @ '' missing/corrupted files...'')))
                 (s\<lparr>rm_progressTracker := t\<rparr>)
      in repairWorker e baseUrl gamePath corrupt s1)"

text \<open>
  \<^verbatim>\<open>handleRepairComplete(startTime, repairedCount, totalValidated)\<close> reads the clock for
  the duration, clears the game manager's update cache when files were repaired, and sends
  the status \<^verbatim>\<open>Completed\<close>.
\<close>

definition handleRepairComplete :: "env \<Rightarrow> nat \<Rightarrow> rm \<Rightarrow> rm" where
  "handleRepairComplete e repairedCount s =
     (let s1 = tick s;
          s2 = (if gameManager e \<noteq> None \<and> repairedCount > 0
                then s1\<lparr>managerCalls := managerCalls s1 @ [''clearUpdateCache'']\<rparr> else s1)
      in rm_sendProgress e (rm_event (Some ''Completed'') None None None) s2)"

text \<open>\<^verbatim>\<open>String.prototype.includes\<close>\<close>

fun str_includes :: "string \<Rightarrow> string \<Rightarrow> bool" where
  "str_includes [] sub = (sub = [])"
| "str_includes (c # cs) sub = (take (length sub) (c # cs) = sub \<or> str_includes cs sub)"

text \<open>
  \<^verbatim>\<open>
  handleRepairError(error) {
      const isCancelled = error.message.includes('cancelled') || this.abortController?.signal.aborted;
      if (isCancelled) this.sendProgress({ status: STATUS.REPAIR.CANCELLED });
      else this.sendProgress({ status: STATUS.REPAIR.ERROR, error: error.message });
  }
  \<close>
\<close>

definition handleRepairError :: "env \<Rightarrow> js_error \<Rightarrow> rm \<Rightarrow> rm" where
  "handleRepairError e error s =
     (if str_includes (message error) ''cancelled'' \<or> rm_abortController s = Some True
      then rm_sendProgress e (rm_event (Some ''Cancelled'') None None None) s
      else rm_sendProgress e (rm_event (Some ''Error'') None (Some (message error)) None) s)"

text \<open>
  \<^verbatim>\<open>
  cleanup() {
      this.isRepairing = false;
      if (this.abortController) { this.abortController.abort(); this.abortController = null; }
      this.progressTracker.reset();
      this.validator.clearCache();
  }
  \<close>
\<close>

definition rm_cleanup :: "env \<Rightarrow> rm \<Rightarrow> rm" where
  "rm_cleanup e s =
     tick (s\<lparr>isRepairing := False, rm_abortController := None,
             rm_progressTracker := reset (Date_now e s) (rm_progressTracker s),
             rm_validatorCache := clearCache\<rparr>)"

text \<open>
  The rest of the \<^verbatim>\<open>try\<close> block of \<^verbatim>\<open>repairGame\<close>, after the resources are known:
  \<^verbatim>\<open>
  const corruptFiles = await this.validateGameFilesWithPerFileUpdates(resources, gamePath, mode);
  if (this.abortController?.signal.aborted) throw new Error('cancelled');
  if (corruptFiles.length === 0) { this.handleRepairComplete(startTime, 0, resources.length); return; }
  if (mode === 'quick' && !baseUrl) {
      const config = await this.fetchGameConfig(); baseUrl = config.baseUrl;
  }
  await this.repairCorruptFiles(corruptFiles, baseUrl, gamePath);
  if (this.abortController?.signal.aborted) throw new Error('cancelled');
  this.handleRepairComplete(startTime, corruptFiles.length, resources.length);
  \<close>
  In full mode \<^verbatim>\<open>baseUrl\<close> is always set by then.
\<close>

definition repairGame_try :: "env \<Rightarrow> string \<Rightarrow> string \<Rightarrow> rm \<Rightarrow> (js_error + unit) \<times> rm" where
  "repairGame_try e gamePath mode s =
     (case sourceResources e gamePath mode s of
        (Inl err, s1) \<Rightarrow> (Inl err, s1)
      | (Inr (resources, baseUrl), s1) \<Rightarrow>
          (case validateGameFilesWithPerFileUpdates e resources gamePath mode s1 of
             (Inl err, s2) \<Rightarrow> (Inl err, s2)
           | (Inr corrupt, s2) \<Rightarrow>
               if rm_abortController s2 = Some True then (Inl (JsError ''cancelled''), s2)
               else if length corrupt = 0 then (Inr (), handleRepairComplete e 0 s2)
               else
                 (case (case baseUrl of
                          Some b \<Rightarrow> (Inr b, s2)
                        | None \<Rightarrow>
                            (case fetchGameConfig e s2 of
                               (Inl err, s3) \<Rightarrow> (Inl err, s3)
                             | (Inr (resources', b), s3) \<Rightarrow> (Inr b, s3))) of
                    (Inl err, s3) \<Rightarrow> (Inl err, s3)
                  | (Inr b, s3) \<Rightarrow>
                      (case repairCorruptFiles e corrupt b gamePath s3 of
                         (Inl err, s4) \<Rightarrow> (Inl err, s4)
                       | (Inr u, s4) \<Rightarrow>
                           if rm_abortController s4 = Some True then (Inl (JsError ''cancelled''), s4)
                           else (Inr (), handleRepairComplete e (length corrupt) s4)))))"

text \<open>
  \<^verbatim>\<open>
  async repairGame(gamePath, mode = 'full') {
      if (this.isRepairing) {
          this.sendProgress({ status: STATUS.REPAIR.ERROR, error: 'Repair process is already running.' });
          return;
      }
      this.isRepairing = true;
      this.abortController = new AbortController();
      this.progressTracker.reset();
      const startTime = Date.now();
      try { ... } catch (error) { this.handleRepairError(error); } finally { this.cleanup(); }
  }
  \<close>
  \<^verbatim>\<open>repairGame\<close> returns nothing; what it reports goes to the renderer.
\<close>

definition repairGame :: "env \<Rightarrow> string \<Rightarrow> string \<Rightarrow> rm \<Rightarrow> rm" where
  "repairGame e gamePath mode s =
     (if isRepairing s
      then rm_sendProgress e
             (rm_event (Some ''Error'') None (Some ''Repair process is already running.'') None) s
      else
        (let s1 = tick (s\<lparr>isRepairing := True, rm_abortController := Some False,
                          rm_progressTracker := reset (Date_now e s) (rm_progressTracker s)\<rparr>);
             s2 = tick s1
         in case repairGame_try e gamePath mode s2 of
              (Inl error, s3) \<Rightarrow> rm_cleanup e (handleRepairError e error s3)
            | (Inr u, s3) \<Rightarrow> rm_cleanup e s3))"

text \<open>The constructor of the repair manager, in a given world.\<close>

definition new_GameRepairManager :: "env \<Rightarrow> world \<Rightarrow> rm" where
  "new_GameRepairManager e w =
     tick \<lparr>disk = disk w, jsonFiles = jsonFiles w, ticks = ticks w, requests = requests w,
           sent = sent w, transfers = transfers w, waited = waited w,
           managerCalls = managerCalls w,
           isRepairing = False, rm_abortController = None,
           rm_progressTracker = new_ProgressTracker (Date_now e w),
           rm_validatorCache = Map.empty\<rparr>"

text \<open>
  The handler of the commands \<^verbatim>\<open>start-repair\<close> and \<^verbatim>\<open>start-quick-repair\<close>:
  \<^verbatim>\<open>
  const handleRepairRequest = async (mode) => {
      const gamePath = launcherConfig.get('gamePath');
      if (!gamePath) {
          return CoreUtils.createStandardResponse(false, null, 'Game path is not configured.');
      }
      repairManager.repairGame(gamePath, mode);
      return CoreUtils.createStandardResponse(true);
  };
  \<close>
  The configured path is a parameter. The handler does not wait for \<^verbatim>\<open>repairGame\<close> and
  does not read what it leaves; its answer is the same whatever \<^verbatim>\<open>repairGame\<close> does.
\<close>

definition handleRepairRequest :: "env \<Rightarrow> string option \<Rightarrow> string \<Rightarrow> rm \<Rightarrow> std_response \<times> rm" where
  "handleRepairRequest e configuredPath mode r =
     (case configuredPath of
        None \<Rightarrow> (createStandardResponse False None None None ''Game path is not configured.'', r)
      | Some gamePath \<Rightarrow>
          if gamePath = []
          then (createStandardResponse False None None None ''Game path is not configured.'', r)
          else (createStandardResponse True None None None [], repairGame e gamePath mode r))"

section \<open>Notions used to state the properties\<close>



text \<open>A file is valid for a manifest entry when it exists, its size on disk is the
  entry's, it can be read to its end and the digest of its content is the entry's, up to
  the case of letters.\<close>

definition valid_file :: "(bytes \<Rightarrow> string) \<Rightarrow> disk \<Rightarrow> string \<Rightarrow> int \<Rightarrow> string \<Rightarrow> bool" where
  "valid_file dg d p sz h =
     (case d p of
        File fsz mt chunks en \<Rightarrow>
          fsz = sz \<and> en = End \<and> toLowerCase (dg (concat chunks)) = toLowerCase h
      | _ \<Rightarrow> False)"

definition valid_on_disk :: "(bytes \<Rightarrow> string) \<Rightarrow> disk \<Rightarrow> string \<Rightarrow> resource \<Rightarrow> bool" where
  "valid_on_disk dg d installPath r = valid_file dg d (path_join installPath (dest r)) (rsize r) (md5 r)"

text \<open>The entry that the cache holds for the file at \<open>p\<close>, if any.\<close>

definition cached_for :: "disk \<Rightarrow> validationCache \<Rightarrow> string \<Rightarrow> string option" where
  "cached_for d c p =
     (case d p of File sz mt chunks en \<Rightarrow> c (cacheKey p mt sz) | _ \<Rightarrow> None)"

text \<open>A cache agrees with the disk when every entry it holds for a file of the disk is
  the digest of that file's content.\<close>

definition cache_agrees :: "(bytes \<Rightarrow> string) \<Rightarrow> disk \<Rightarrow> validationCache \<Rightarrow> bool" where
  "cache_agrees dg d c =
     (\<forall>p. case cached_for d c p of
             None \<Rightarrow> True
           | Some m \<Rightarrow> (case d p of File sz mt chunks en \<Rightarrow> en = End \<and> m = dg (concat chunks)
                                  | _ \<Rightarrow> False))"

text \<open>Two states of the download manager that differ at most in the progress tracker, the
  validation cache, the clock reads and the messages sent.\<close>

definition quiet :: "dm \<Rightarrow> dm \<Rightarrow> bool" where
  "quiet s s' =
     (s' = s\<lparr>ticks := ticks s', sent := sent s', progressTracker := progressTracker s',
            pipelineCache := pipelineCache s'\<rparr>)"

text \<open>... and, beside those, in the number of HTTP requests made.\<close>

definition calm :: "dm \<Rightarrow> dm \<Rightarrow> bool" where
  "calm s s' =
     (s' = s\<lparr>ticks := ticks s', requests := requests s', sent := sent s',
            progressTracker := progressTracker s', pipelineCache := pipelineCache s'\<rparr>)"

text \<open>Two states of the repair manager that differ at most in the progress tracker, the
  validation cache, the clock reads and the messages sent; and, beside those, in the
  number of HTTP requests made.\<close>

definition rm_quiet :: "rm \<Rightarrow> rm \<Rightarrow> bool" where
  "rm_quiet s s' =
     (s' = s\<lparr>ticks := ticks s', sent := sent s', rm_progressTracker := rm_progressTracker s',
            rm_validatorCache := rm_validatorCache s'\<rparr>)"

definition rm_calm :: "rm \<Rightarrow> rm \<Rightarrow> bool" where
  "rm_calm s s' =
     (s' = s\<lparr>ticks := ticks s', requests := requests s', sent := sent s',
            rm_progressTracker := rm_progressTracker s',
            rm_validatorCache := rm_validatorCache s'\<rparr>)"

section \<open>A concrete environment for example runs\<close>

text \<open>One manifest entry, a channel configuration and an index that lists the entry; the
  response to every file request is a parameter.\<close>

definition example_resource :: resource where
  "example_resource = \<lparr>dest = ''a.pak'', rsize = 1, md5 = ''AB''\<rparr>"

definition example_channel :: channel where
  "example_channel =
     \<lparr>ch_version = ''2.0'', cdnList = [''https://cdn/''], indexFile = ''idx.json'',
      ch_baseUrl = ''files''\<rparr>"

definition example_env :: "response \<Rightarrow> env" where
  "example_env file_response =
     \<lparr>clock = (\<lambda>k. 1000 * int k),
      windowAlive = True,
      md5sum = sum_digest,
      fetch_json = (\<lambda>k url.
         if url = GAME_CONFIG_URL then Inr (ConfigDoc [''default'' \<mapsto> example_channel])
         else Inr (IndexDoc (Arr [example_resource]) Undefined)),
      fetch_file = (\<lambda>k url. file_response),
      gameManager = None\<rparr>"

definition example_config :: game_config where
  "example_config =
     \<lparr>cfg_resources = Arr [example_resource], cfg_baseUrl = ''https://cdn/files'',
      cfg_version = ''2.0''\<rparr>"

text \<open>A world whose disk holds the file of the entry, with the content the entry asks
  for.\<close>

definition installed_world :: world where
  "installed_world =
     empty_world\<lparr>disk := (\<lambda>p. if p = ''game/a.pak'' then File 1 7 [[0xAB]] End else Missing)\<rparr>"



section \<open>Properties of withRetry\<close>

lemma state_before_Suc: "state_before operation s (Suc k) = state_before operation (snd (operation s)) k"
  unfolding state_before_def by (induction k) simp_all

lemma outcome_of_Suc: "outcome_of operation s (Suc k) = outcome_of operation (snd (operation s)) k"
  by (simp add: outcome_of_def state_before_Suc)

lemma withRetry_from_success:
  "a + j \<le> m \<Longrightarrow> 1 \<le> a \<Longrightarrow> (\<forall>k<j. isl (outcome_of operation s k)) \<Longrightarrow> outcome_of operation s j = Inr v
   \<Longrightarrow> withRetry_from a operation m b s =
       (Inr (Some v), state_before operation s (j + 1), j + 1, map (\<lambda>k. b * k) [a..<a + j])"
proof (induction j arbitrary: a s)
  case 0
  then obtain s' where "operation s = (Inr v, s')"
    by (cases "operation s") (auto simp: outcome_of_def state_before_def)
  with 0 show ?case
    by (subst withRetry_from.simps) (simp add: state_before_def)
next
  case (Suc j)
  from Suc.prems(3) have "isl (outcome_of operation s 0)" by blast
  then obtain err s' where op: "operation s = (Inl err, s')"
    by (cases "operation s"; cases "fst (operation s)") (auto simp: outcome_of_def state_before_def)
  have ih: "withRetry_from (a + 1) operation m b s' =
       (Inr (Some v), state_before operation s' (j + 1), j + 1, map (\<lambda>k. b * k) [a + 1..<a + 1 + j])"
  proof (rule Suc.IH)
    show "a + 1 + j \<le> m" using Suc.prems(1) by simp
    show "1 \<le> a + 1" by simp
    show "\<forall>k<j. isl (outcome_of operation s' k)"
    proof (intro allI impI)
      fix k assume "k < j"
      then have "isl (outcome_of operation s (Suc k))" using Suc.prems(3) by simp
      then show "isl (outcome_of operation s' k)" using op by (simp add: outcome_of_Suc)
    qed
    show "outcome_of operation s' j = Inr v"
      using Suc.prems(4) op by (simp add: outcome_of_Suc)
  qed
  have "a \<noteq> m" "a \<le> m" using Suc.prems(1) by auto
  then show ?case using op ih
    by (subst withRetry_from.simps) (simp add: state_before_Suc upt_rec [of a])
qed

lemma withRetry_from_exhaust:
  "a + j = m \<Longrightarrow> 1 \<le> a \<Longrightarrow> (\<forall>k\<le>j. isl (outcome_of operation s k))
   \<Longrightarrow> withRetry_from a operation m b s =
       (Inl (projl (outcome_of operation s j)), state_before operation s (j + 1), j + 1, map (\<lambda>k. b * k) [a..<a + j])"
proof (induction j arbitrary: a s)
  case 0
  then have "isl (outcome_of operation s 0)" by blast
  then obtain err s' where op: "operation s = (Inl err, s')"
    by (cases "operation s"; cases "fst (operation s)") (auto simp: outcome_of_def state_before_def)
  with 0 show ?case
    by (subst withRetry_from.simps) (simp add: state_before_def outcome_of_def)
next
  case (Suc j)
  from Suc.prems(3) have "isl (outcome_of operation s 0)" by blast
  then obtain err s' where op: "operation s = (Inl err, s')"
    by (cases "operation s"; cases "fst (operation s)") (auto simp: outcome_of_def state_before_def)
  have ih: "withRetry_from (a + 1) operation m b s' =
       (Inl (projl (outcome_of operation s' j)), state_before operation s' (j + 1), j + 1, map (\<lambda>k. b * k) [a + 1..<a + 1 + j])"
  proof (rule Suc.IH)
    show "a + 1 + j = m" using Suc.prems(1) by simp
    show "1 \<le> a + 1" by simp
    show "\<forall>k\<le>j. isl (outcome_of operation s' k)"
    proof (intro allI impI)
      fix k assume "k \<le> j"
      then have "isl (outcome_of operation s (Suc k))" using Suc.prems(3) by simp
      then show "isl (outcome_of operation s' k)" using op by (simp add: outcome_of_Suc)
    qed
  qed
  have "a \<noteq> m" "a \<le> m" using Suc.prems(1) by auto
  then show ?case using op ih
    by (subst withRetry_from.simps) (simp add: state_before_Suc outcome_of_Suc upt_rec [of a])
qed

lemma state_before_scripted: "state_before (scripted script) s k = s + k"
  unfolding state_before_def scripted_def by (induction k) simp_all

lemma outcome_of_scripted: "outcome_of (scripted script) s k = script (s + k)"
  by (simp add: outcome_of_def state_before_scripted) (simp add: scripted_def)

text \<open>
  Claim C2. Let the operation be called from state \<open>s\<close> with retry cap \<open>m\<close> and base
  delay \<open>b\<close>. If each of its first \<open>m\<close> calls fails (and \<open>m\<close> is at least one), then
  \<open>withRetry\<close> calls it exactly \<open>m\<close> times and rethrows the error of the last call. If
  its first \<open>j < m\<close> calls fail and the next one returns \<open>v\<close>, then \<open>withRetry\<close> returns
  \<open>v\<close> after \<open>j + 1\<close> calls. In both cases the timeout waited for after the failed
  attempt \<open>k\<close> is \<open>b * k\<close>, for every failed attempt but the last one of an exhausted run.
\<close>

theorem withRetry_cap:
  "(1 \<le> m \<and> (\<forall>k<m. isl (outcome_of operation s k)) \<longrightarrow>
      withRetry operation m b s =
        (Inl (projl (outcome_of operation s (m - 1))), state_before operation s m, m,
         map (\<lambda>k. b * k) [1..<m]))
   \<and> (j < m \<and> (\<forall>k<j. isl (outcome_of operation s k)) \<and> outcome_of operation s j = Inr v \<longrightarrow>
      withRetry operation m b s =
        (Inr (Some v), state_before operation s (j + 1), j + 1, map (\<lambda>k. b * k) [1..<j + 1]))"
proof (intro conjI impI)
  assume h: "1 \<le> m \<and> (\<forall>k<m. isl (outcome_of operation s k))"
  then have "1 + (m - 1) = m" "\<forall>k\<le>m - 1. isl (outcome_of operation s k)" by auto
  from withRetry_from_exhaust [OF this(1) _ this(2), of b] h
  show "withRetry operation m b s =
        (Inl (projl (outcome_of operation s (m - 1))), state_before operation s m, m,
         map (\<lambda>k. b * k) [1..<m])"
    by (simp add: withRetry_def)
next
  assume h: "j < m \<and> (\<forall>k<j. isl (outcome_of operation s k)) \<and> outcome_of operation s j = Inr v"
  then have "1 + j \<le> m" by simp
  from withRetry_from_success [OF this, of operation s v b] h
  show "withRetry operation m b s =
        (Inr (Some v), state_before operation s (j + 1), j + 1, map (\<lambda>k. b * k) [1..<j + 1])"
    by (simp add: withRetry_def)
qed

theorem withRetry_cap_witness:
  "withRetry (scripted (\<lambda>k. if k < 2 then Inl (k + 40) else Inr (k * 7))) 3 1000 (0::nat)
     = (Inr (Some 14), 3, 3, [1000, 2000])
   \<and> withRetry (scripted (\<lambda>k. if k < 3 then Inl (k + 40) else Inr (k * 7))) 3 1000 (0::nat)
     = (Inl 42, 3, 3, [1000, 2000])"
proof
  let ?ok = "scripted (\<lambda>k::nat. if k < 2 then Inl (k + 40) else (Inr (k * 7) :: nat + nat))"
  let ?ko = "scripted (\<lambda>k::nat. if k < 3 then Inl (k + 40) else (Inr (k * 7) :: nat + nat))"
  have up: "[Suc 0..<3] = [1, 2]" by (simp add: upt_rec)
  show "withRetry ?ok 3 1000 (0::nat) = (Inr (Some 14), 3, 3, [1000, 2000])"
    using withRetry_cap [of 3 ?ok 0 1000 2 14]
    by (simp add: outcome_of_scripted state_before_scripted up)
  show "withRetry ?ko 3 1000 (0::nat) = (Inl 42, 3, 3, [1000, 2000])"
    using withRetry_cap [of 3 ?ko 0 1000 0 0]
    by (simp add: outcome_of_scripted state_before_scripted up)
qed

section \<open>Properties of the file validator\<close>

subsection \<open>The cache key determines path, modification time and size\<close>

lemma read_nat_snoc: "read_nat (s @ [c]) = 10 * read_nat s + (of_char c - 48)"
  by (simp add: read_nat_def)

lemma of_char_digit: "n < 10 \<Longrightarrow> of_char (digit_char n) = 48 + n"
  by (simp add: digit_char_def)

lemma read_show_nat: "read_nat (show_nat n) = n"
proof (induction n rule: show_nat.induct)
  case (1 n)
  show ?case
  proof (cases "n < 10")
    case True
    then show ?thesis
      by (subst show_nat.simps) (simp add: read_nat_def of_char_digit)
  next
    case False
    with 1 have "read_nat (show_nat (n div 10)) = n div 10" by simp
    with False show ?thesis
      by (subst show_nat.simps) (simp add: read_nat_snoc of_char_digit)
  qed
qed

lemma show_nat_chars: "c \<in> set (show_nat n) \<Longrightarrow> \<exists>k<10. c = digit_char k"
proof (induction n rule: show_nat.induct)
  case (1 n)
  show ?case
  proof (cases "n < 10")
    case True
    with "1.prems" show ?thesis
      by (subst (asm) show_nat.simps) auto
  next
    case False
    with "1.prems" have "c \<in> set (show_nat (n div 10)) \<or> c = digit_char (n mod 10)"
      by (subst (asm) show_nat.simps) auto
    then show ?thesis
    proof
      assume "c \<in> set (show_nat (n div 10))"
      with 1 False show ?thesis by simp
    next
      assume "c = digit_char (n mod 10)"
      then show ?thesis by (intro exI [of _ "n mod 10"]) simp
    qed
  qed
qed

lemma show_nat_nonempty: "show_nat n \<noteq> []"
  by (subst show_nat.simps) simp

lemma digit_char_neq: "k < 10 \<Longrightarrow> digit_char k \<noteq> CHR ''_'' \<and> digit_char k \<noteq> CHR ''-''"
proof -
  assume k: "k < 10"
  then have e: "of_char (digit_char k) = 48 + k" by (rule of_char_digit)
  have "digit_char k \<noteq> CHR ''_''"
  proof
    assume "digit_char k = CHR ''_''"
    then have "of_char (digit_char k) = (of_char (CHR ''_'') :: nat)" by simp
    with e have "48 + k = (95::nat)" by simp
    with k show False by simp
  qed
  moreover have "digit_char k \<noteq> CHR ''-''"
  proof
    assume "digit_char k = CHR ''-''"
    then have "of_char (digit_char k) = (of_char (CHR ''-'') :: nat)" by simp
    with e have "48 + k = (45::nat)" by simp
    then show False by simp
  qed
  ultimately show ?thesis by simp
qed


lemma show_nat_inj: "show_nat n = show_nat m \<Longrightarrow> n = m"
  by (metis read_show_nat)

lemma show_nat_no_sep: "CHR ''_'' \<notin> set (show_nat n) \<and> CHR ''-'' \<notin> set (show_nat n)"
proof -
  have "c \<noteq> CHR ''_'' \<and> c \<noteq> CHR ''-''" if "c \<in> set (show_nat n)" for c
  proof -
    from that obtain k where "k < 10" and "c = digit_char k"
      using show_nat_chars by blast
    then show ?thesis using digit_char_neq [of k] by simp
  qed
  then show ?thesis by blast
qed

lemma show_nat_hd: "hd (show_nat n) \<noteq> CHR ''-''"
  using show_nat_no_sep [of n] show_nat_nonempty [of n] by (cases "show_nat n") auto

lemma show_int_inj: "show_int i = show_int j \<Longrightarrow> i = j"
proof -
  assume e: "show_int i = show_int j"
  show ?thesis
  proof (cases "i < 0")
    case True
    show ?thesis
    proof (cases "j < 0")
      case jn: True
      with True e have "show_nat (nat (- i)) = show_nat (nat (- j))" by (simp add: show_int_def)
      then have "nat (- i) = nat (- j)" by (rule show_nat_inj)
      with True jn show ?thesis by simp
    next
      case False
      with True e have "CHR ''-'' # show_nat (nat (- i)) = show_nat (nat j)" by (simp add: show_int_def)
      then have "hd (show_nat (nat j)) = CHR ''-''" by (metis list.sel(1))
      with show_nat_hd show ?thesis by blast
    qed
  next
    case False
    show ?thesis
    proof (cases "j < 0")
      case True
      with False e have "show_nat (nat i) = CHR ''-'' # show_nat (nat (- j))" by (simp add: show_int_def)
      then have "hd (show_nat (nat i)) = CHR ''-''" by (metis list.sel(1))
      with show_nat_hd show ?thesis by blast
    next
      case jp: False
      with False e have "show_nat (nat i) = show_nat (nat j)" by (simp add: show_int_def)
      then have "nat i = nat j" by (rule show_nat_inj)
      with False jp show ?thesis by simp
    qed
  qed
qed

lemma show_int_no_sep: "CHR ''_'' \<notin> set (show_int i)"
  using show_nat_no_sep by (simp add: show_int_def)

lemma split_at_sep:
  "c \<notin> set a \<Longrightarrow> c \<notin> set b \<Longrightarrow> x @ c # a = y @ c # b \<Longrightarrow> x = y \<and> a = b"
proof -
  assume a: "c \<notin> set a" and b: "c \<notin> set b" and e: "x @ c # a = y @ c # b"
  from e have "rev (x @ c # a) = rev (y @ c # b)" by simp
  then have r: "rev a @ c # rev x = rev b @ c # rev y" by simp
  from a have "takeWhile (\<lambda>z. z \<noteq> c) (rev a @ c # rev x) = rev a"
    by (auto simp: takeWhile_tail)
  moreover from b have "takeWhile (\<lambda>z. z \<noteq> c) (rev b @ c # rev y) = rev b"
    by (auto simp: takeWhile_tail)
  ultimately have "rev a = rev b" using r by simp
  then have "a = b" by simp
  with e show ?thesis by simp
qed

lemma cacheKey_inj:
  "cacheKey p m s = cacheKey p' m' s' \<Longrightarrow> p = p' \<and> m = m' \<and> s = s'"
proof -
  assume e: "cacheKey p m s = cacheKey p' m' s'"
  then have e1: "(p @ CHR ''_'' # show_int m) @ CHR ''_'' # show_int s
               = (p' @ CHR ''_'' # show_int m') @ CHR ''_'' # show_int s'"
    by (simp add: cacheKey_def)
  from split_at_sep [OF show_int_no_sep show_int_no_sep e1]
  have e2: "p @ CHR ''_'' # show_int m = p' @ CHR ''_'' # show_int m'" and s: "show_int s = show_int s'"
    by simp_all
  from split_at_sep [OF show_int_no_sep show_int_no_sep e2]
  have "p = p'" and "show_int m = show_int m'" by simp_all
  with s show ?thesis by (simp add: show_int_inj)
qed

subsection \<open>What deepValidate returns, case by case\<close>

lemma deepValidate_missing:
  "d p = Missing \<Longrightarrow> deepValidate digest d c p sz h = \<lparr>verdict = Inr False, cache_after = c, calls = [], streamed = False\<rparr>"
  by (simp add: deepValidate_def deepValidate_try_def fs_stat_def)

lemma deepValidate_faulty:
  "d p = Faulty x \<Longrightarrow> deepValidate digest d c p sz h = \<lparr>verdict = Inr False, cache_after = c, calls = [], streamed = False\<rparr>"
  by (simp add: deepValidate_def deepValidate_try_def fs_stat_def)

lemma deepValidate_size:
  "d p = File fsz mt chunks e \<Longrightarrow> fsz \<noteq> sz \<Longrightarrow>
   deepValidate digest d c p sz h = \<lparr>verdict = Inr False, cache_after = c, calls = [], streamed = False\<rparr>"
  by (simp add: deepValidate_def deepValidate_try_def fs_stat_def)

lemma deepValidate_hit:
  "d p = File sz mt chunks e \<Longrightarrow> c (cacheKey p mt sz) = Some m \<Longrightarrow>
   deepValidate digest d c p sz h =
     \<lparr>verdict = Inr (toLowerCase m = toLowerCase h), cache_after = c, calls = [(sz, sz, sz)], streamed = False\<rparr>"
  by (simp add: deepValidate_def deepValidate_try_def fs_stat_def)

lemma deepValidate_miss_ok:
  "d p = File sz mt chunks End \<Longrightarrow> c (cacheKey p mt sz) = None \<Longrightarrow>
   deepValidate digest d c p sz h =
     \<lparr>verdict = Inr (toLowerCase (digest (concat chunks)) = toLowerCase h),
      cache_after = c(cacheKey p mt sz \<mapsto> digest (concat chunks)),
      calls = progress_calls 0 sz chunks, streamed = True\<rparr>"
  by (simp add: deepValidate_def deepValidate_try_def fs_stat_def calculateMD5WithProgress_def)

lemma deepValidate_miss_failed:
  "d p = File sz mt chunks (Failed x) \<Longrightarrow> c (cacheKey p mt sz) = None \<Longrightarrow>
   deepValidate digest d c p sz h =
     \<lparr>verdict = Inr False, cache_after = c, calls = progress_calls 0 sz chunks, streamed = True\<rparr>"
  by (simp add: deepValidate_def deepValidate_try_def fs_stat_def calculateMD5WithProgress_def)


text \<open>
  Claim C3, as the code has it. \<open>deepValidate\<close> resolves with \<open>false\<close>, without opening
  the file, when the file is absent or its size on disk differs from \<open>expectedSize\<close>. When
  the sizes match and the cache has no entry for the file, it resolves with \<open>true\<close> iff the
  digest of the streamed content equals \<open>expectedMD5\<close> up to the case of letters. It never
  rejects: every failure inside it, also an error of the operating system other than
  not-found (on \<open>stat\<close> or while reading), is caught and gives \<open>false\<close>. Only
  \<open>quickValidate\<close> lets an error other than \<^verbatim>\<open>ENOENT\<close> propagate, and gives \<open>false\<close> for
  \<^verbatim>\<open>ENOENT\<close>.
\<close>

theorem deepValidate_verdicts:
  "(d p = Missing \<longrightarrow>
      verdict (deepValidate digest d c p sz h) = Inr False \<and> \<not> streamed (deepValidate digest d c p sz h))
   \<and> (d p = File fsz mt chunks e \<and> fsz \<noteq> sz \<longrightarrow>
      verdict (deepValidate digest d c p sz h) = Inr False \<and> \<not> streamed (deepValidate digest d c p sz h))
   \<and> (d p = File sz mt chunks End \<and> c (cacheKey p mt sz) = None \<longrightarrow>
      verdict (deepValidate digest d c p sz h)
        = Inr (toLowerCase (digest (concat chunks)) = toLowerCase h))
   \<and> (d p = File sz mt chunks (Failed x) \<and> c (cacheKey p mt sz) = None \<longrightarrow>
      verdict (deepValidate digest d c p sz h) = Inr False)
   \<and> (d p = Faulty x \<longrightarrow> verdict (deepValidate digest d c p sz h) = Inr False)
   \<and> (\<exists>b. verdict (deepValidate digest d c p sz h) = Inr b)
   \<and> (d p = Missing \<longrightarrow> quickValidate d p sz = Inr False)
   \<and> (d p = Faulty x \<and> x \<noteq> ''ENOENT'' \<longrightarrow> quickValidate d p sz = Inl (SysError x))"
proof -
  have "\<exists>b. verdict (deepValidate digest d c p sz h) = Inr b"
    by (cases "verdict (deepValidate_try digest d c p sz h)") (auto simp: deepValidate_def)
  then show ?thesis
    by (auto simp: deepValidate_missing deepValidate_faulty deepValidate_size
        deepValidate_miss_ok deepValidate_miss_failed quickValidate_def fs_stat_def)
qed


theorem deepValidate_verdicts_witness:
  "verdict (deepValidate sum_digest (\<lambda>p. if p = ''a'' then File 1 7 [[0xAB]] End else Missing)
      Map.empty ''a'' 1 ''AB'') = Inr True
   \<and> verdict (deepValidate sum_digest (\<lambda>p. if p = ''a'' then File 1 7 [[0xAB]] End else Missing)
      Map.empty ''a'' 1 ''AC'') = Inr False
   \<and> verdict (deepValidate sum_digest (\<lambda>p. if p = ''a'' then File 1 7 [[0xAB]] End else Missing)
      Map.empty ''a'' 2 ''AB'') = Inr False
   \<and> verdict (deepValidate sum_digest (\<lambda>p. if p = ''a'' then File 1 7 [[0xAB]] End else Missing)
      Map.empty ''b'' 1 ''AB'') = Inr False
   \<and> verdict (deepValidate sum_digest (\<lambda>p. if p = ''a'' then File 1 7 [[0xAB]] (Failed ''EIO'') else Faulty ''EACCES'')
      Map.empty ''a'' 1 ''AB'') = Inr False
   \<and> quickValidate (\<lambda>p. if p = ''a'' then File 1 7 [[0xAB]] End else Missing) ''b'' 1 = Inr False
   \<and> quickValidate (\<lambda>p. if p = ''a'' then File 1 7 [[0xAB]] (Failed ''EIO'') else Faulty ''EACCES'') ''b'' 1
       = Inl (SysError ''EACCES'')"
proof -
  let ?d = "\<lambda>p. if p = ''a'' then File 1 7 [[0xAB]] End else Missing"
  let ?f = "\<lambda>p. if p = ''a'' then File 1 7 [[0xAB]] (Failed ''EIO'') else Faulty ''EACCES''"
  have dig: "sum_digest [0xAB] = ''ab''"
    by code_simp
  have low: "toLowerCase ''AB'' = ''ab''" "toLowerCase ''AC'' = ''ac''" "toLowerCase ''ab'' = ''ab''"
    by code_simp+
  show ?thesis
    using deepValidate_verdicts [where d = "?d" and p = "''a''" and fsz = 1 and mt = 7 and chunks = "[[0xAB]]" and e = End and sz = 1 and digest = sum_digest and c = Map.empty and h = "''AB''" and x = "''x''"]
      deepValidate_verdicts [where d = "?d" and p = "''a''" and fsz = 1 and mt = 7 and chunks = "[[0xAB]]" and e = End and sz = 1 and digest = sum_digest and c = Map.empty and h = "''AC''" and x = "''x''"]
      deepValidate_verdicts [where d = "?d" and p = "''a''" and fsz = 1 and mt = 7 and chunks = "[[0xAB]]" and e = End and sz = 2 and digest = sum_digest and c = Map.empty and h = "''AB''" and x = "''x''"]
      deepValidate_verdicts [where d = "?d" and p = "''b''" and fsz = 1 and mt = 7 and chunks = "[[0xAB]]" and e = End and sz = 1 and digest = sum_digest and c = Map.empty and h = "''AB''" and x = "''x''"]
      deepValidate_verdicts [where d = "?f" and p = "''a''" and fsz = 1 and mt = 7 and chunks = "[[0xAB]]" and e = End and sz = 1 and digest = sum_digest and c = Map.empty and h = "''AB''" and x = "''EIO''"]
      deepValidate_verdicts [where d = "?f" and p = "''b''" and fsz = 1 and mt = 7 and chunks = "[[0xAB]]" and e = End and sz = 1 and digest = sum_digest and c = Map.empty and h = "''AB''" and x = "''EACCES''"]
    by (simp add: dig low)
qed


text \<open>
  The claim as written fails for \<open>deepValidate\<close>: with \<open>stat\<close> failing with \<^verbatim>\<open>EACCES\<close>,
  \<open>deepValidate\<close> resolves with \<open>false\<close> where the claim has the error propagate as an
  exception; \<open>quickValidate\<close> on the same disk does reject with it.
\<close>

theorem deepValidate_swallows_io_errors:
  "verdict (deepValidate sum_digest (\<lambda>p. Faulty ''EACCES'') Map.empty ''game/a.pak'' 1000 ''ab'')
     = Inr False
   \<and> quickValidate (\<lambda>p. Faulty ''EACCES'') ''game/a.pak'' 1000 = Inl (SysError ''EACCES'')"
  by (simp add: deepValidate_def deepValidate_try_def fs_stat_def quickValidate_def)

text \<open>
  Claim C4, as the code has it. Two calls of \<open>deepValidate\<close> on the same validator, for a
  file that has the same path, modification time and size at both calls (its content and
  the outcome of reading it may differ): when the first call read the file to its end, or
  found its hash in the cache, or found the size different from \<open>expectedSize\<close>, the second
  call returns the verdict of the first, leaves the cache as it is and opens no read
  stream; what it returns is decided by the cached hash, not by the content then on disk.
  A file whose read fails is the exception: the first call caches nothing for it, and the
  second call opens the file again. The size on disk is compared with \<open>expectedSize\<close>
  before the cache is looked at: on a mismatch the result is \<open>false\<close> whatever the cache
  holds. And the entry a call leaves in the cache is not consulted once the size or the
  modification time of the file differs: the next call then behaves as on the cache before
  that entry.
\<close>

theorem deepValidate_second_call:
  "(d p = File fsz mt chunks e \<and> d' p = File fsz mt chunks' e'
      \<and> (e = End \<or> c (cacheKey p mt fsz) \<noteq> None \<or> fsz \<noteq> sz) \<longrightarrow>
      (let r1 = deepValidate digest d c p sz h;
           r2 = deepValidate digest d' (cache_after r1) p sz h
       in verdict r2 = verdict r1 \<and> cache_after r2 = cache_after r1 \<and> \<not> streamed r2
          \<and> (fsz = sz \<longrightarrow>
                (\<exists>m. cache_after r1 (cacheKey p mt fsz) = Some m
                     \<and> verdict r2 = Inr (toLowerCase m = toLowerCase h)))))
   \<and> (d p = File sz mt chunks (Failed x) \<and> d' p = File sz mt chunks' e'
        \<and> c (cacheKey p mt sz) = None \<longrightarrow>
        (let r1 = deepValidate digest d c p sz h;
             r2 = deepValidate digest d' (cache_after r1) p sz h
         in verdict r1 = Inr False \<and> cache_after r1 = c \<and> streamed r2
            \<and> calls r2 = progress_calls 0 sz chunks'))
   \<and> ((d p = Missing \<or> (\<exists>x. d p = Faulty x)) \<longrightarrow>
        (let r1 = deepValidate digest d c p sz h;
             r2 = deepValidate digest d (cache_after r1) p sz h
         in verdict r2 = verdict r1 \<and> cache_after r2 = cache_after r1 \<and> \<not> streamed r2))
   \<and> (d p = File fsz mt chunks e \<and> fsz \<noteq> sz \<longrightarrow>
        deepValidate digest d c p sz h
          = \<lparr>verdict = Inr False, cache_after = c, calls = [], streamed = False\<rparr>)
   \<and> (d p = File fsz mt chunks e \<and> d' p = File fsz' mt' chunks' e' \<and> (fsz', mt') \<noteq> (fsz, mt) \<longrightarrow>
        (let r1 = deepValidate digest d c p sz h;
             r2 = deepValidate digest d' (cache_after r1) p sz' h';
             r0 = deepValidate digest d' c p sz' h'
         in verdict r2 = verdict r0 \<and> calls r2 = calls r0 \<and> streamed r2 = streamed r0))"
proof (intro conjI impI)
  assume a: "d p = File fsz mt chunks e \<and> d' p = File fsz mt chunks' e'
      \<and> (e = End \<or> c (cacheKey p mt fsz) \<noteq> None \<or> fsz \<noteq> sz)"
  show "let r1 = deepValidate digest d c p sz h;
           r2 = deepValidate digest d' (cache_after r1) p sz h
       in verdict r2 = verdict r1 \<and> cache_after r2 = cache_after r1 \<and> \<not> streamed r2
          \<and> (fsz = sz \<longrightarrow>
                (\<exists>m. cache_after r1 (cacheKey p mt fsz) = Some m
                     \<and> verdict r2 = Inr (toLowerCase m = toLowerCase h)))"
  proof (cases "fsz = sz")
    case False
    with a show ?thesis by (simp add: deepValidate_size)
  next
    case True
    show ?thesis
    proof (cases "c (cacheKey p mt sz)")
      case (Some m)
      with a True show ?thesis by (simp add: deepValidate_hit)
    next
      case None
      with a True have "e = End" by simp
      with a True None show ?thesis
        by (simp add: deepValidate_miss_ok deepValidate_hit)
    qed
  qed
next
  assume a: "d p = File sz mt chunks (Failed x) \<and> d' p = File sz mt chunks' e'
        \<and> c (cacheKey p mt sz) = None"
  show "let r1 = deepValidate digest d c p sz h;
             r2 = deepValidate digest d' (cache_after r1) p sz h
         in verdict r1 = Inr False \<and> cache_after r1 = c \<and> streamed r2
            \<and> calls r2 = progress_calls 0 sz chunks'"
    using a by (cases e') (simp_all add: deepValidate_miss_failed deepValidate_miss_ok)
next
  assume "d p = Missing \<or> (\<exists>x. d p = Faulty x)"
  then show "let r1 = deepValidate digest d c p sz h;
             r2 = deepValidate digest d (cache_after r1) p sz h
         in verdict r2 = verdict r1 \<and> cache_after r2 = cache_after r1 \<and> \<not> streamed r2"
    by (auto simp: deepValidate_missing deepValidate_faulty)
next
  assume "d p = File fsz mt chunks e \<and> fsz \<noteq> sz"
  then show "deepValidate digest d c p sz h
          = \<lparr>verdict = Inr False, cache_after = c, calls = [], streamed = False\<rparr>"
    by (simp add: deepValidate_size)
next
  assume a: "d p = File fsz mt chunks e \<and> d' p = File fsz' mt' chunks' e' \<and> (fsz', mt') \<noteq> (fsz, mt)"
  then have k: "cacheKey p mt' fsz' \<noteq> cacheKey p mt fsz"
    using cacheKey_inj by blast
  have c1: "cache_after (deepValidate digest d c p sz h) (cacheKey p mt' fsz') = c (cacheKey p mt' fsz')"
    using a k
    by (cases "fsz = sz"; cases "c (cacheKey p mt sz)"; cases e)
       (simp_all add: deepValidate_size deepValidate_hit deepValidate_miss_ok deepValidate_miss_failed)
  show "let r1 = deepValidate digest d c p sz h;
             r2 = deepValidate digest d' (cache_after r1) p sz' h';
             r0 = deepValidate digest d' c p sz' h'
         in verdict r2 = verdict r0 \<and> calls r2 = calls r0 \<and> streamed r2 = streamed r0"
    using a c1
    by (cases "fsz' = sz'"; cases "c (cacheKey p mt' fsz')"; cases e')
       (simp_all add: deepValidate_size deepValidate_hit deepValidate_miss_ok deepValidate_miss_failed)
qed

theorem deepValidate_second_call_witness:
  "(let d = (\<lambda>p. if p = ''a'' then File 1 7 [[0xAB]] End else Missing);
        d' = (\<lambda>p. if p = ''a'' then File 1 7 [[0xAC]] (Failed ''EIO'') else Missing);
        r1 = deepValidate sum_digest d Map.empty ''a'' 1 ''AB'';
        r2 = deepValidate sum_digest d' (cache_after r1) ''a'' 1 ''AB''
    in streamed r1 \<and> verdict r1 = Inr True \<and> verdict r2 = Inr True
       \<and> cache_after r2 = cache_after r1 \<and> \<not> streamed r2
       \<and> verdict (deepValidate sum_digest d' Map.empty ''a'' 1 ''AB'') = Inr False)
   \<and> (let d = (\<lambda>p. if p = ''a'' then File 1 7 [[0xAB]] End else Missing);
            d' = (\<lambda>p. if p = ''a'' then File 1 8 [[0xAC]] End else Missing);
            r1 = deepValidate sum_digest d Map.empty ''a'' 1 ''AB'';
            r2 = deepValidate sum_digest d' (cache_after r1) ''a'' 1 ''AB''
        in verdict r2 = verdict (deepValidate sum_digest d' Map.empty ''a'' 1 ''AB'') \<and> streamed r2)
   \<and> deepValidate sum_digest (\<lambda>p. if p = ''a'' then File 1 7 [[0xAB]] End else Missing)
         [cacheKey ''a'' 7 1 \<mapsto> ''ab''] ''a'' 2 ''AB''
       = \<lparr>verdict = Inr False, cache_after = [cacheKey ''a'' 7 1 \<mapsto> ''ab''], calls = [], streamed = False\<rparr>"
proof -
  let ?d = "\<lambda>p. if p = ''a'' then File 1 7 [[0xAB]] End else Missing"
  let ?k = "\<lambda>p. if p = ''a'' then File 1 7 [[0xAC]] (Failed ''EIO'') else Missing"
  let ?d' = "\<lambda>p. if p = ''a'' then File 1 8 [[0xAC]] End else Missing"
  have dig: "sum_digest [0xAB] = ''ab''" "toLowerCase ''AB'' = ''ab''" "toLowerCase ''ab'' = ''ab''"
    by code_simp+
  have s1: "streamed (deepValidate sum_digest ?d Map.empty ''a'' 1 ''AB'')"
    "verdict (deepValidate sum_digest ?d Map.empty ''a'' 1 ''AB'') = Inr True"
    by (simp_all add: deepValidate_miss_ok dig)
  have s2: "streamed (deepValidate sum_digest ?d' Map.empty ''a'' 1 ''AB'')"
    by (simp add: deepValidate_miss_ok)
  have s3: "verdict (deepValidate sum_digest ?k Map.empty ''a'' 1 ''AB'') = Inr False"
    by (simp add: deepValidate_miss_failed)
  show ?thesis
    using s1 s2 s3
      deepValidate_second_call [where d = ?d and d' = ?k and p = "''a''" and digest = sum_digest
        and c = Map.empty and sz = 1 and h = "''AB''" and sz' = 1 and h' = "''AB''"
        and fsz = 1 and mt = 7 and chunks = "[[0xAB]]" and e = End
        and fsz' = 1 and mt' = 7 and chunks' = "[[0xAC]]" and e' = "Failed ''EIO''" and x = "''EIO''"]
      deepValidate_second_call [where d = ?d and d' = ?d' and p = "''a''" and digest = sum_digest
        and c = Map.empty and sz = 1 and h = "''AB''" and sz' = 1 and h' = "''AB''"
        and fsz = 1 and mt = 7 and chunks = "[[0xAB]]" and e = End
        and fsz' = 1 and mt' = 8 and chunks' = "[[0xAC]]" and e' = End and x = "''EIO''"]
      deepValidate_second_call [where d = ?d and d' = ?d' and p = "''a''" and digest = sum_digest
        and c = "[cacheKey ''a'' 7 1 \<mapsto> ''ab'']" and sz = 2 and h = "''AB''" and sz' = 1 and h' = "''AB''"
        and fsz = 1 and mt = 7 and chunks = "[[0xAB]]" and e = End
        and fsz' = 1 and mt' = 8 and chunks' = "[[0xAC]]" and e' = End and x = "''EIO''"]
    by (simp add: Let_def)
qed

text \<open>
  The claim as written fails for a file that cannot be read to its end: the first call
  opens it, gets the error \<^verbatim>\<open>EIO\<close> from the stream after one chunk, returns \<open>false\<close> and
  caches nothing; the second call, with the file unchanged, opens and reads it again.
\<close>

theorem deepValidate_rereads_unreadable_file:
  "(let d = (\<lambda>p. if p = ''game/a.pak'' then File 1 7 [[0xAB]] (Failed ''EIO'') else Missing);
        r1 = deepValidate sum_digest d Map.empty ''game/a.pak'' 1 ''ab'';
        r2 = deepValidate sum_digest d (cache_after r1) ''game/a.pak'' 1 ''ab''
    in verdict r1 = Inr False \<and> streamed r1 \<and> cache_after r1 = Map.empty
       \<and> verdict r2 = Inr False \<and> streamed r2 \<and> calls r2 = [(1, 1, 1)])"
  by (simp add: Let_def deepValidate_miss_failed)

section \<open>Rounding to a double\<close>

subsection \<open>Powers of two and the binary exponent\<close>

lemma two_pow_powi: "two_pow k = 2 powi k"
  by (simp add: two_pow_def power_int_def power_inverse inverse_eq_divide power_divide)

lemma two_pow_pos [simp]: "0 < two_pow k"
  by (simp add: two_pow_powi)

lemma two_pow_mono: "j \<le> k \<Longrightarrow> two_pow j \<le> two_pow k"
  by (simp add: two_pow_powi power_int_increasing)

lemma two_pow_add: "two_pow (j + k) = two_pow j * two_pow k"
  by (simp add: two_pow_powi power_int_add)



lemma exponent_bounds:
  assumes "x \<noteq> 0"
  shows "two_pow (exponent x) \<le> \<bar>x\<bar>" "\<bar>x\<bar> < two_pow (exponent x + 1)"
proof -
  obtain p q where pq: "quotient_of \<bar>x\<bar> = (p, q)" by (cases "quotient_of \<bar>x\<bar>")
  then have q: "0 < q" and x: "\<bar>x\<bar> = of_int p / of_int q"
    using quotient_of_denom_pos quotient_of_div by blast+
  have "0 < \<bar>x\<bar>" using assms by simp
  with x q have p: "0 < p" by (simp add: zero_less_divide_iff)
  let ?k = "bitlen p - bitlen q"
  from bitlen_bounds [OF p] have p1: "2 ^ nat (bitlen p - 1) \<le> p" and p2: "p < 2 ^ nat (bitlen p)"
    by simp_all
  from bitlen_bounds [OF q] have q1: "2 ^ nat (bitlen q - 1) \<le> q" and q2: "q < 2 ^ nat (bitlen q)"
    by simp_all
  have bp: "1 \<le> bitlen p" and bq: "1 \<le> bitlen q"
    using p q by (simp_all add: bitlen_def floorlog_def)
  have rp1: "two_pow (bitlen p - 1) \<le> of_int p"
  proof -
    have "two_pow (bitlen p - 1) = 2 ^ nat (bitlen p - 1)" using bp by (simp add: two_pow_def)
    also have "\<dots> = of_int (2 ^ nat (bitlen p - 1))" by simp
    also have "\<dots> \<le> of_int p" using p1 by (simp only: of_int_le_iff)
    finally show ?thesis .
  qed
  have rp2: "of_int p < two_pow (bitlen p)"
  proof -
    have "(of_int p :: rat) < of_int (2 ^ nat (bitlen p))" using p2 by (simp only: of_int_less_iff)
    also have "\<dots> = two_pow (bitlen p)" using bp by (simp add: two_pow_def)
    finally show ?thesis .
  qed
  have rq1: "two_pow (bitlen q - 1) \<le> of_int q"
  proof -
    have "two_pow (bitlen q - 1) = 2 ^ nat (bitlen q - 1)" using bq by (simp add: two_pow_def)
    also have "\<dots> = of_int (2 ^ nat (bitlen q - 1))" by simp
    also have "\<dots> \<le> of_int q" using q1 by (simp only: of_int_le_iff)
    finally show ?thesis .
  qed
  have rq2: "of_int q < two_pow (bitlen q)"
  proof -
    have "(of_int q :: rat) < of_int (2 ^ nat (bitlen q))" using q2 by (simp only: of_int_less_iff)
    also have "\<dots> = two_pow (bitlen q)" using bq by (simp add: two_pow_def)
    finally show ?thesis .
  qed
  have qpos: "(0::rat) < of_int q" using q by simp
  have lower: "two_pow (?k - 1) \<le> \<bar>x\<bar>"
  proof -
    have "two_pow (?k - 1) * of_int q \<le> two_pow (?k - 1) * two_pow (bitlen q)"
      using rq2 by (simp add: mult_left_mono)
    also have "\<dots> = two_pow (bitlen p - 1)"
      by (simp add: two_pow_add [symmetric])
    also have "\<dots> \<le> of_int p" by (rule rp1)
    finally show ?thesis unfolding x using qpos by (simp add: pos_le_divide_eq)
  qed
  have upper: "\<bar>x\<bar> < two_pow (?k + 1)"
  proof -
    have "of_int p < two_pow (bitlen p)" by (rule rp2)
    also have "\<dots> = two_pow (?k + 1) * two_pow (bitlen q - 1)"
      by (simp add: two_pow_add [symmetric])
    also have "\<dots> \<le> two_pow (?k + 1) * of_int q"
      using rq1 by (simp add: mult_left_mono)
    finally show ?thesis unfolding x using qpos by (simp add: pos_divide_less_eq)
  qed
  show "two_pow (exponent x) \<le> \<bar>x\<bar>"
    using lower by (simp add: exponent_def pq Let_def)
  show "\<bar>x\<bar> < two_pow (exponent x + 1)"
    using upper by (auto simp: exponent_def pq Let_def not_le)
qed

lemma exponent_unique:
  assumes "two_pow k \<le> \<bar>x\<bar>" "\<bar>x\<bar> < two_pow (k + 1)"
  shows "exponent x = k"
proof -
  have "0 < \<bar>x\<bar>" by (rule less_le_trans [OF two_pow_pos assms(1)])
  then have nz: "x \<noteq> 0" by simp
  note b = exponent_bounds [OF nz]
  have "\<not> exponent x < k"
  proof
    assume "exponent x < k"
    then have "two_pow (exponent x + 1) \<le> two_pow k" by (intro two_pow_mono) simp
    with b(2) assms(1) show False by simp
  qed
  moreover have "\<not> k < exponent x"
  proof
    assume "k < exponent x"
    then have "two_pow (k + 1) \<le> two_pow (exponent x)" by (intro two_pow_mono) simp
    with b(1) assms(2) show False by simp
  qed
  ultimately show ?thesis by simp
qed


lemma exponent_minus [simp]: "exponent (- x) = exponent x"
  by (simp add: exponent_def)

subsection \<open>Rounding to an integer\<close>






subsection \<open>The rounding function\<close>

lemma two_pow_nonneg [simp]: "0 \<le> two_pow k"
  by (rule less_imp_le) (rule two_pow_pos)

lemma two_pow_nonzero [simp]: "two_pow k \<noteq> 0"
  by (metis two_pow_pos less_irrefl)


lemma fl_zero [simp]: "fl 0 = 0"
  by (simp add: fl_def)










lemma exponent_ge_iff:
  assumes "y \<noteq> 0"
  shows "k \<le> exponent y \<longleftrightarrow> two_pow k \<le> \<bar>y\<bar>"
proof
  assume "k \<le> exponent y"
  then have "two_pow k \<le> two_pow (exponent y)" by (rule two_pow_mono)
  with exponent_bounds(1) [OF assms] show "two_pow k \<le> \<bar>y\<bar>" by simp
next
  assume a: "two_pow k \<le> \<bar>y\<bar>"
  show "k \<le> exponent y"
  proof (rule ccontr)
    assume "\<not> k \<le> exponent y"
    then have "exponent y + 1 \<le> k" by simp
    then have "two_pow (exponent y + 1) \<le> two_pow k" by (rule two_pow_mono)
    with exponent_bounds(2) [OF assms] a show False by simp
  qed
qed

lemma rounded_cases:
  "rounded x = Finite (fl x) \<and> \<bar>fl x\<bar> < two_pow 1024
   \<or> rounded x = PlusInfinity \<and> two_pow 1024 \<le> fl x
   \<or> rounded x = MinusInfinity \<and> fl x \<le> - two_pow 1024"
proof (cases "fl x = 0")
  case True
  then show ?thesis by (simp add: rounded_def)
next
  case False
  have "exponent (fl x) \<le> 1023 \<longleftrightarrow> \<not> 1024 \<le> exponent (fl x)" by linarith
  also have "\<dots> \<longleftrightarrow> \<bar>fl x\<bar> < two_pow 1024"
    by (simp add: exponent_ge_iff [OF False] not_le)
  finally have e: "exponent (fl x) \<le> 1023 \<longleftrightarrow> \<bar>fl x\<bar> < two_pow 1024" .
  show ?thesis
    using False e by (auto simp: rounded_def Let_def)
qed

lemma rounded_not_NaN [simp]: "rounded x \<noteq> NaN"
  using rounded_cases [of x] by auto



section \<open>Properties of the progress tracker\<close>






lemma currentBytes_update [simp]:
  "currentBytes (t\<lparr>currentSpeed := a, speedHistory := b, averageSpeed := c, lastUpdate := d, lastBytes := e\<rparr>) = currentBytes t"
  by (simp add: currentBytes_def)





lemma number_total: "a \<noteq> NaN \<Longrightarrow> b \<noteq> NaN \<Longrightarrow> a \<le> b \<or> b \<le> a"
  by (cases a; cases b) (auto simp: less_eq_number_def)

lemma Math_min_le: "b \<noteq> NaN \<Longrightarrow> Math_min (Finite c) b \<le> Finite c"
  using number_total [of "Finite c" b] by (auto simp: Math_min_def less_eq_number_def)

lemma signed_infinity_not_NaN [simp]: "signed_infinity p \<noteq> NaN"
  by (simp add: signed_infinity_def)

lemma percentage_not_NaN:
  "0 < n \<Longrightarrow> fmul (fdiv (Number c) (Number n)) (Finite 100) \<noteq> NaN"
  using rounded_cases [of "of_int c / of_int n"]
  by (auto simp: Number_def)

lemma updateFileProgress_bound:
  "downloadedBytes (updateFileProgress fileId n c t) \<le> totalBytes (updateFileProgress fileId n c t)"
  "totalBytes (updateFileProgress fileId n c t) = totalBytes t"
  by (simp_all add: updateFileProgress_def Let_def)

lemma updateFileProgress_all_total: "totalBytes (updateFileProgress_all cs t) = totalBytes t"
  by (induction cs arbitrary: t) (auto simp: updateFileProgress_bound)

lemma updateFileProgress_all_inv:
  "downloadedBytes t \<le> totalBytes t \<Longrightarrow>
   downloadedBytes (updateFileProgress_all cs t) \<le> totalBytes (updateFileProgress_all cs t)"
proof (induction cs arbitrary: t)
  case Nil
  then show ?case by simp
next
  case (Cons call cs)
  obtain fileId n c where call: "call = (fileId, n, c)" by (cases call)
  show ?case
    unfolding call updateFileProgress_all.simps
    by (rule Cons.IH) (rule updateFileProgress_bound)
qed

lemma percentage_le_100: "m_percentage (fst (calculateMetrics now t)) \<le> Finite 100"
  by (simp add: calculateMetrics_def Let_def Math_min_le percentage_not_NaN)

text \<open>
  Claim C10. Along every sequence of \<open>updateFileProgress\<close> calls, whatever the byte
  counts and completion flags, \<open>downloadedBytes\<close> stays at most \<open>totalBytes\<close>: from a
  tracker where that holds, and from any tracker after the first call. \<open>totalBytes\<close> is
  not changed, and the percentage of \<open>calculateMetrics\<close> is at most 100.
\<close>

theorem downloadedBytes_bounded:
  "(downloadedBytes t \<le> totalBytes t \<longrightarrow>
      downloadedBytes (updateFileProgress_all cs t) \<le> totalBytes (updateFileProgress_all cs t))
   \<and> (cs \<noteq> [] \<longrightarrow>
      downloadedBytes (updateFileProgress_all cs t) \<le> totalBytes (updateFileProgress_all cs t))
   \<and> totalBytes (updateFileProgress_all cs t) = totalBytes t
   \<and> m_percentage (fst (calculateMetrics now (updateFileProgress_all cs t))) \<le> Finite 100"
proof (intro conjI impI)
  assume "downloadedBytes t \<le> totalBytes t"
  then show "downloadedBytes (updateFileProgress_all cs t) \<le> totalBytes (updateFileProgress_all cs t)"
    by (rule updateFileProgress_all_inv)
next
  assume "cs \<noteq> []"
  then obtain fileId n c rest where cs: "cs = (fileId, n, c) # rest"
    by (cases cs) auto
  show "downloadedBytes (updateFileProgress_all cs t) \<le> totalBytes (updateFileProgress_all cs t)"
    unfolding cs updateFileProgress_all.simps
    by (rule updateFileProgress_all_inv) (rule updateFileProgress_bound)
next
  show "totalBytes (updateFileProgress_all cs t) = totalBytes t"
    by (rule updateFileProgress_all_total)
next
  show "m_percentage (fst (calculateMetrics now (updateFileProgress_all cs t))) \<le> Finite 100"
    by (rule percentage_le_100)
qed

theorem downloadedBytes_bounded_witness:
  "(let t = (new_ProgressTracker 0)\<lparr>totalBytes := 10, fileSizes := [''a'' \<mapsto> 10], phase := ''downloading''\<rparr>;
        t' = updateFileProgress_all [(''a'', 7, False), (''a'', 7, False), (''a'', 0, True), (''a'', 0, True)] t
    in downloadedBytes t \<le> totalBytes t \<and> downloadedBytes t' \<le> 10 \<and> totalBytes t' = 10
       \<and> m_percentage (fst (calculateMetrics 5 t')) \<le> Finite 100)"
proof -
  let ?t = "(new_ProgressTracker 0)\<lparr>totalBytes := 10, fileSizes := [''a'' \<mapsto> 10], phase := ''downloading''\<rparr>"
  have f: "downloadedBytes ?t = 0" "totalBytes ?t = 10"
    by (simp_all add: new_ProgressTracker_def)
  show ?thesis
    using downloadedBytes_bounded [where t = ?t and now = 5
        and cs = "[(''a'', 7, False), (''a'', 7, False), (''a'', 0, True), (''a'', 0, True)]"]
    unfolding Let_def f by simp
qed

section \<open>What the validation passes of the download manager compute and leave alone\<close>

lemma quiet_refl: "quiet s s"
  by (simp add: quiet_def)

lemma quiet_trans: "quiet s s' \<Longrightarrow> quiet s' s'' \<Longrightarrow> quiet s s''"
proof -
  assume a: "quiet s s'" and b: "quiet s' s''"
  from a have a': "s' = s\<lparr>ticks := ticks s', sent := sent s', progressTracker := progressTracker s',
            pipelineCache := pipelineCache s'\<rparr>" by (simp add: quiet_def)
  from b have "s'' = s'\<lparr>ticks := ticks s'', sent := sent s'', progressTracker := progressTracker s'',
            pipelineCache := pipelineCache s''\<rparr>" by (simp add: quiet_def)
  then have "s'' = (s\<lparr>ticks := ticks s', sent := sent s', progressTracker := progressTracker s',
            pipelineCache := pipelineCache s'\<rparr>)\<lparr>ticks := ticks s'', sent := sent s'', progressTracker := progressTracker s'',
            pipelineCache := pipelineCache s''\<rparr>" using a' by simp
  then show ?thesis by (simp add: quiet_def)
qed

lemma quietD:
  assumes "quiet s s'"
  shows "disk s' = disk s" "jsonFiles s' = jsonFiles s" "requests s' = requests s"
    "transfers s' = transfers s" "waited s' = waited s" "managerCalls s' = managerCalls s"
    "isDownloading s' = isDownloading s" "isPaused s' = isPaused s"
    "abortController s' = abortController s" "activeStreams s' = activeStreams s"
    "completedFiles s' = completedFiles s" "currentPatchVersion s' = currentPatchVersion s"
proof -
  from assms have e: "s' = s\<lparr>ticks := ticks s', sent := sent s', progressTracker := progressTracker s',
            pipelineCache := pipelineCache s'\<rparr>" by (simp add: quiet_def)
  show "disk s' = disk s" by (subst e) simp
  show "jsonFiles s' = jsonFiles s" by (subst e) simp
  show "requests s' = requests s" by (subst e) simp
  show "transfers s' = transfers s" by (subst e) simp
  show "waited s' = waited s" by (subst e) simp
  show "managerCalls s' = managerCalls s" by (subst e) simp
  show "isDownloading s' = isDownloading s" by (subst e) simp
  show "isPaused s' = isPaused s" by (subst e) simp
  show "abortController s' = abortController s" by (subst e) simp
  show "activeStreams s' = activeStreams s" by (subst e) simp
  show "completedFiles s' = completedFiles s" by (subst e) simp
  show "currentPatchVersion s' = currentPatchVersion s" by (subst e) simp
qed

lemma quiet_send: "quiet s (send e ev s)"
  by (simp add: quiet_def send_def)

lemma quiet_tick: "quiet s (tick s)"
  by (simp add: quiet_def tick_def)

lemma quiet_tracker: "quiet s (s\<lparr>progressTracker := t\<rparr>)"
  by (simp add: quiet_def)

lemma quiet_cache: "quiet s (s\<lparr>pipelineCache := c\<rparr>)"
  by (simp add: quiet_def)

lemma pipeline_sendProgress_quiet: "quiet s (pipeline_sendProgress e md s)"
  unfolding pipeline_sendProgress_def Let_def
  by (auto split: prod.splits simp: quiet_def send_def tick_def)

lemma pipeline_sendProgress_cache: "pipelineCache (pipeline_sendProgress e md s) = pipelineCache s"
  unfolding pipeline_sendProgress_def Let_def
  by (auto split: prod.splits simp: send_def tick_def)


lemma on_chunk_quiet: "quiet s (on_chunk e md r s call)"
proof -
  obtain m t where u: "updateValidationProgress (Date_now e s) (fst call) (Some (dest r)) 0
      (progressTracker s) = (m, t)"
    by (cases "updateValidationProgress (Date_now e s) (fst call) (Some (dest r)) 0 (progressTracker s)")
  have "quiet s (tick (s\<lparr>progressTracker := t\<rparr>))"
    by (simp add: quiet_def tick_def)
  then have "quiet s (pipeline_sendProgress e md (tick (s\<lparr>progressTracker := t\<rparr>)))"
    by (rule quiet_trans [OF _ pipeline_sendProgress_quiet])
  then show ?thesis by (simp add: on_chunk_def u)
qed

lemma on_chunk_cache: "pipelineCache (on_chunk e md r s call) = pipelineCache s"
  unfolding on_chunk_def
  by (auto split: prod.splits simp: pipeline_sendProgress_cache tick_def)

lemma foldl_on_chunk_quiet: "quiet s (foldl (on_chunk e md r) s cs)"
proof (induction cs arbitrary: s)
  case Nil
  show ?case by (simp add: quiet_refl)
next
  case (Cons c cs)
  show ?case
    unfolding foldl_Cons
    by (rule quiet_trans [OF on_chunk_quiet Cons.IH])
qed

lemma foldl_on_chunk_cache: "pipelineCache (foldl (on_chunk e md r) s cs) = pipelineCache s"
  by (induction cs arbitrary: s) (simp_all add: on_chunk_cache)

lemma deepValidate_valid_file:
  assumes "cache_agrees dg d c"
  shows "verdict (deepValidate dg d c p sz h) = Inr (valid_file dg d p sz h)"
proof (cases "d p")
  case Missing
  then show ?thesis by (simp add: deepValidate_missing valid_file_def)
next
  case (Faulty x)
  then show ?thesis by (simp add: deepValidate_faulty valid_file_def)
next
  case (File fsz mt chunks en)
  show ?thesis
  proof (cases "fsz = sz")
    case False
    with File show ?thesis by (simp add: deepValidate_size valid_file_def)
  next
    case True
    show ?thesis
    proof (cases "c (cacheKey p mt sz)")
      case None
      with File True show ?thesis
        by (cases en) (simp_all add: deepValidate_miss_ok deepValidate_miss_failed valid_file_def)
    next
      case (Some m)
      from assms have "case cached_for d c p of None \<Rightarrow> True
           | Some m \<Rightarrow> (case d p of File sz mt chunks en \<Rightarrow> en = End \<and> m = dg (concat chunks)
                                  | _ \<Rightarrow> False)"
        unfolding cache_agrees_def by blast
      with File True Some have "en = End \<and> m = dg (concat chunks)"
        by (simp add: cached_for_def)
      with File True Some show ?thesis
        by (simp add: deepValidate_hit valid_file_def)
    qed
  qed
qed

lemma cache_after_cases:
  "cache_after (deepValidate dg d c p sz h) = c
   \<or> (\<exists>mt chunks. d p = File sz mt chunks End
        \<and> cache_after (deepValidate dg d c p sz h) = c(cacheKey p mt sz \<mapsto> dg (concat chunks)))"
proof (cases "d p")
  case Missing
  then show ?thesis by (simp add: deepValidate_missing)
next
  case (Faulty x)
  then show ?thesis by (simp add: deepValidate_faulty)
next
  case (File fsz mt chunks en)
  show ?thesis
  proof (cases "fsz = sz")
    case False
    with File show ?thesis by (simp add: deepValidate_size)
  next
    case True
    show ?thesis
    proof (cases "c (cacheKey p mt sz)")
      case None
      with File True show ?thesis
        by (cases en) (simp_all add: deepValidate_miss_ok deepValidate_miss_failed)
    next
      case (Some m)
      with File True show ?thesis by (simp add: deepValidate_hit)
    qed
  qed
qed

lemma cache_agrees_after:
  assumes "cache_agrees dg d c"
  shows "cache_agrees dg d (cache_after (deepValidate dg d c p sz h))"
proof -
  from cache_after_cases [of dg d c p sz h]
  show ?thesis
  proof
    assume "cache_after (deepValidate dg d c p sz h) = c"
    with assms show ?thesis by simp
  next
    assume "\<exists>mt chunks. d p = File sz mt chunks End
        \<and> cache_after (deepValidate dg d c p sz h) = c(cacheKey p mt sz \<mapsto> dg (concat chunks))"
    then obtain mt chunks where f: "d p = File sz mt chunks End"
      and c': "cache_after (deepValidate dg d c p sz h) = c(cacheKey p mt sz \<mapsto> dg (concat chunks))"
      by blast
    have "case cached_for d (c(cacheKey p mt sz \<mapsto> dg (concat chunks))) q of None \<Rightarrow> True
           | Some m \<Rightarrow> (case d q of File sz mt chunks en \<Rightarrow> en = End \<and> m = dg (concat chunks)
                                  | _ \<Rightarrow> False)" for q
    proof (cases "d q")
      case Missing
      then show ?thesis by (simp add: cached_for_def)
    next
      case (Faulty x)
      then show ?thesis by (simp add: cached_for_def)
    next
      case (File qsz qmt qchunks qen)
      show ?thesis
      proof (cases "cacheKey q qmt qsz = cacheKey p mt sz")
        case True
        then have "q = p" using cacheKey_inj by blast
        with File f True show ?thesis by (simp add: cached_for_def)
      next
        case False
        from assms have "case cached_for d c q of None \<Rightarrow> True
           | Some m \<Rightarrow> (case d q of File sz mt chunks en \<Rightarrow> en = End \<and> m = dg (concat chunks)
                                  | _ \<Rightarrow> False)"
          unfolding cache_agrees_def by blast
        with File False show ?thesis by (simp add: cached_for_def)
      qed
    qed
    then show ?thesis unfolding c' cache_agrees_def by blast
  qed
qed

lemma cache_agrees_empty: "cache_agrees dg d Map.empty"
  by (simp add: cache_agrees_def cached_for_def split: node.splits)

lemma validate_each_result:
  assumes "abortController s \<noteq> Some True" and "cache_agrees (md5sum e) (disk s) (pipelineCache s)"
  shows "fst (validate_each e installPath md rs invalidFiles s)
           = Inr (invalidFiles @ filter (\<lambda>r. \<not> valid_on_disk (md5sum e) (disk s) installPath r) rs)
         \<and> quiet s (snd (validate_each e installPath md rs invalidFiles s))"
  using assms
proof (induction rs arbitrary: invalidFiles s)
  case Nil
  show ?case by (simp add: quiet_refl)
next
  case (Cons r rs)
  let ?filePath = "path_join installPath (dest r)"
  let ?v = "deepValidate (md5sum e) (disk s) (pipelineCache s) ?filePath (rsize r) (md5 r)"
  let ?s1 = "foldl (on_chunk e md r) (s\<lparr>pipelineCache := cache_after ?v\<rparr>) (calls ?v)"
  let ?remaining = "rsize r - sum_list (map fst (calls ?v))"
  let ?s2 = "if ?remaining > 0
                   then tick (?s1\<lparr>progressTracker :=
                          snd (updateValidationProgress (Date_now e ?s1) ?remaining None 0
                                 (progressTracker ?s1))\<rparr>)
                   else ?s1"
  let ?s3 = "?s2\<lparr>progressTracker :=
                       (progressTracker ?s2)\<lparr>processedFiles := processedFiles (progressTracker ?s2) + 1\<rparr>\<rparr>"
  let ?s4 = "pipeline_sendProgress e md ?s3"
  let ?inv = "if verdict ?v = Inr True then invalidFiles else invalidFiles @ [r]"
  have q1: "quiet s ?s1"
    by (rule quiet_trans [OF quiet_cache foldl_on_chunk_quiet])
  have c1: "pipelineCache ?s1 = cache_after ?v"
    by (simp add: foldl_on_chunk_cache)
  have q2: "quiet ?s1 ?s2" and c2: "pipelineCache ?s2 = pipelineCache ?s1"
    by (simp_all add: quiet_def tick_def)
  have q3: "quiet ?s2 ?s3" and c3: "pipelineCache ?s3 = pipelineCache ?s2"
    by (simp_all add: quiet_def)
  have q4: "quiet ?s3 ?s4" and c4: "pipelineCache ?s4 = pipelineCache ?s3"
    by (simp_all add: pipeline_sendProgress_quiet pipeline_sendProgress_cache)
  have q: "quiet s ?s4"
    by (rule quiet_trans [OF quiet_trans [OF quiet_trans [OF q1 q2] q3] q4])
  have c: "pipelineCache ?s4 = cache_after ?v"
    using c1 c2 c3 c4 by simp
  have d4: "disk ?s4 = disk s" and a4: "abortController ?s4 = abortController s"
    using quietD [OF q] by simp_all
  have agrees: "cache_agrees (md5sum e) (disk ?s4) (pipelineCache ?s4)"
    unfolding d4 c by (rule cache_agrees_after [OF Cons.prems(2)])
  have na: "abortController ?s4 \<noteq> Some True"
    using a4 Cons.prems(1) by simp
  have v: "verdict ?v = Inr (valid_on_disk (md5sum e) (disk s) installPath r)"
    unfolding valid_on_disk_def by (rule deepValidate_valid_file [OF Cons.prems(2)])
  have step: "validate_each e installPath md (r # rs) invalidFiles s
                = validate_each e installPath md rs ?inv ?s4"
    using Cons.prems(1) by (simp add: Let_def)
  from Cons.IH [OF na agrees, of ?inv]
  have ih: "fst (validate_each e installPath md rs ?inv ?s4)
           = Inr (?inv @ filter (\<lambda>r. \<not> valid_on_disk (md5sum e) (disk s) installPath r) rs)"
    and qi: "quiet ?s4 (snd (validate_each e installPath md rs ?inv ?s4))"
    unfolding d4 by simp_all
  show ?case
    unfolding step
  proof
    show "fst (validate_each e installPath md rs ?inv ?s4)
           = Inr (invalidFiles @ filter (\<lambda>r. \<not> valid_on_disk (md5sum e) (disk s) installPath r) (r # rs))"
      unfolding ih using v by simp
    show "quiet s (snd (validate_each e installPath md rs ?inv ?s4))"
      by (rule quiet_trans [OF q qi])
  qed
qed

lemma dm_sendProgress_quiet: "quiet s (dm_sendProgress e status err pct s)"
  unfolding dm_sendProgress_def
  by (auto split: prod.splits simp: quiet_def send_def tick_def)

lemma dm_sendProgress_cache: "pipelineCache (dm_sendProgress e status err pct s) = pipelineCache s"
  unfolding dm_sendProgress_def
  by (auto split: prod.splits simp: send_def tick_def)

lemma dm_sendProgress_last:
  "windowAlive e \<Longrightarrow> ev_status (last (sent (dm_sendProgress e status err pct s))) = Some status"
  unfolding dm_sendProgress_def
  by (auto split: prod.splits simp: send_def tick_def)

lemma calm_refl: "calm s s"
  by (simp add: calm_def)

lemma quiet_calm: "quiet s s' \<Longrightarrow> calm s s'"
proof -
  assume "quiet s s'"
  then have e: "s' = s\<lparr>ticks := ticks s', sent := sent s', progressTracker := progressTracker s',
            pipelineCache := pipelineCache s'\<rparr>" by (simp add: quiet_def)
  have r: "requests s' = requests s" by (subst e) simp
  show ?thesis unfolding calm_def r using e by simp
qed

lemma calm_trans: "calm s s' \<Longrightarrow> calm s' s'' \<Longrightarrow> calm s s''"
proof -
  assume a: "calm s s'" and b: "calm s' s''"
  from a have a': "s' = s\<lparr>ticks := ticks s', requests := requests s', sent := sent s',
            progressTracker := progressTracker s', pipelineCache := pipelineCache s'\<rparr>"
    by (simp add: calm_def)
  from b have "s'' = s'\<lparr>ticks := ticks s'', requests := requests s'', sent := sent s'',
            progressTracker := progressTracker s'', pipelineCache := pipelineCache s''\<rparr>"
    by (simp add: calm_def)
  then have "s'' = (s\<lparr>ticks := ticks s', requests := requests s', sent := sent s',
            progressTracker := progressTracker s', pipelineCache := pipelineCache s'\<rparr>)
            \<lparr>ticks := ticks s'', requests := requests s'', sent := sent s'',
            progressTracker := progressTracker s'', pipelineCache := pipelineCache s''\<rparr>"
    using a' by simp
  then show ?thesis by (simp add: calm_def)
qed

lemma calmD:
  assumes "calm s s'"
  shows "disk s' = disk s" "jsonFiles s' = jsonFiles s"
    "transfers s' = transfers s" "waited s' = waited s" "managerCalls s' = managerCalls s"
    "isDownloading s' = isDownloading s" "isPaused s' = isPaused s"
    "abortController s' = abortController s" "activeStreams s' = activeStreams s"
    "completedFiles s' = completedFiles s" "currentPatchVersion s' = currentPatchVersion s"
proof -
  from assms have e: "s' = s\<lparr>ticks := ticks s', requests := requests s', sent := sent s',
            progressTracker := progressTracker s', pipelineCache := pipelineCache s'\<rparr>"
    by (simp add: calm_def)
  show "disk s' = disk s" by (subst e) simp
  show "jsonFiles s' = jsonFiles s" by (subst e) simp
  show "transfers s' = transfers s" by (subst e) simp
  show "waited s' = waited s" by (subst e) simp
  show "managerCalls s' = managerCalls s" by (subst e) simp
  show "isDownloading s' = isDownloading s" by (subst e) simp
  show "isPaused s' = isPaused s" by (subst e) simp
  show "abortController s' = abortController s" by (subst e) simp
  show "activeStreams s' = activeStreams s" by (subst e) simp
  show "completedFiles s' = completedFiles s" by (subst e) simp
  show "currentPatchVersion s' = currentPatchVersion s" by (subst e) simp
qed

lemma httpRequest_json_calm: "calm s (snd (httpRequest_json e url signal s))"
  by (simp add: httpRequest_json_def calm_def)

lemma httpRequest_json_cache:
  "pipelineCache (snd (httpRequest_json e url signal s)) = pipelineCache s"
  by (simp add: httpRequest_json_def)

lemma getGameConfig_calm:
  "calm s (snd (getGameConfig e versionType s))
   \<and> pipelineCache (snd (getGameConfig e versionType s)) = pipelineCache s"
proof -
  let ?s1 = "dm_sendProgress e ''Fetching remote configuration...'' None None s"
  have c1: "calm s ?s1" by (rule quiet_calm [OF dm_sendProgress_quiet])
  have p1: "pipelineCache ?s1 = pipelineCache s" by (rule dm_sendProgress_cache)
  obtain r2 s2 where h2: "httpRequest_json e GAME_CONFIG_URL (abortController ?s1) ?s1 = (r2, s2)"
    by (cases "httpRequest_json e GAME_CONFIG_URL (abortController ?s1) ?s1")
  have c2: "calm s s2"
    using calm_trans [OF c1 httpRequest_json_calm [of ?s1 e GAME_CONFIG_URL "abortController ?s1"]] h2
    by simp
  have p2: "pipelineCache s2 = pipelineCache s"
    using httpRequest_json_cache [of e GAME_CONFIG_URL "abortController ?s1" ?s1] h2 p1 by simp
  show ?thesis
  proof (cases r2)
    case (Inl err)
    with h2 have "getGameConfig e versionType s = (Inl err, s2)"
      by (simp add: getGameConfig_def Let_def)
    with c2 p2 show ?thesis by simp
  next
    case (Inr gameConfig)
    show ?thesis
    proof (cases "channel_of gameConfig versionType")
      case None
      with Inr h2 have "snd (getGameConfig e versionType s) = s2"
        by (simp add: getGameConfig_def Let_def)
      with c2 p2 show ?thesis by simp
    next
      case (Some channelConfig)
      show ?thesis
      proof (cases "cdnList channelConfig")
        case Nil
        with Inr Some h2 have "snd (getGameConfig e versionType s) = s2"
          by (simp add: getGameConfig_def Let_def)
        with c2 p2 show ?thesis by simp
      next
        case (Cons cdnUrl others)
        obtain r3 s3 where h3: "httpRequest_json e (combineUrl cdnUrl (indexFile channelConfig))
                     (abortController s2) s2 = (r3, s3)"
          by (cases "httpRequest_json e (combineUrl cdnUrl (indexFile channelConfig))
                     (abortController s2) s2")
        from Inr Some Cons h2 h3 have "snd (getGameConfig e versionType s) = s3"
          by (cases r3) (simp_all add: getGameConfig_def Let_def)
        moreover have "calm s s3"
          using calm_trans [OF c2 httpRequest_json_calm
              [of s2 e "combineUrl cdnUrl (indexFile channelConfig)" "abortController s2"]] h3
          by simp
        moreover have "pipelineCache s3 = pipelineCache s"
          using httpRequest_json_cache
              [of e "combineUrl cdnUrl (indexFile channelConfig)" "abortController s2" s2] h3 p2
          by simp
        ultimately show ?thesis by simp
      qed
    qed
  qed
qed

lemma validate_each_quiet: "quiet s (snd (validate_each e installPath md rs invalidFiles s))"
proof (induction rs arbitrary: invalidFiles s)
  case Nil
  show ?case by (simp add: quiet_refl)
next
  case (Cons r rs)
  show ?case
  proof (cases "abortController s = Some True")
    case True
    then show ?thesis by (simp add: quiet_refl)
  next
    case False
    let ?filePath = "path_join installPath (dest r)"
    let ?v = "deepValidate (md5sum e) (disk s) (pipelineCache s) ?filePath (rsize r) (md5 r)"
    let ?s1 = "foldl (on_chunk e md r) (s\<lparr>pipelineCache := cache_after ?v\<rparr>) (calls ?v)"
    let ?remaining = "rsize r - sum_list (map fst (calls ?v))"
    let ?s2 = "if ?remaining > 0
                   then tick (?s1\<lparr>progressTracker :=
                          snd (updateValidationProgress (Date_now e ?s1) ?remaining None 0
                                 (progressTracker ?s1))\<rparr>)
                   else ?s1"
    let ?s3 = "?s2\<lparr>progressTracker :=
                       (progressTracker ?s2)\<lparr>processedFiles := processedFiles (progressTracker ?s2) + 1\<rparr>\<rparr>"
    let ?s4 = "pipeline_sendProgress e md ?s3"
    let ?inv = "if verdict ?v = Inr True then invalidFiles else invalidFiles @ [r]"
    have q1: "quiet s ?s1"
      by (rule quiet_trans [OF quiet_cache foldl_on_chunk_quiet])
    have q2: "quiet ?s1 ?s2" by (simp add: quiet_def tick_def)
    have q3: "quiet ?s2 ?s3" by (simp add: quiet_def)
    have q4: "quiet ?s3 ?s4" by (simp add: pipeline_sendProgress_quiet)
    have q: "quiet s ?s4"
      by (rule quiet_trans [OF quiet_trans [OF quiet_trans [OF q1 q2] q3] q4])
    have step: "validate_each e installPath md (r # rs) invalidFiles s
                = validate_each e installPath md rs ?inv ?s4"
      using False by (simp add: Let_def)
    show ?thesis
      unfolding step by (rule quiet_trans [OF q Cons.IH])
  qed
qed

lemma validateResources_quiet: "quiet s (snd (validateResources e resources installPath md s))"
proof (cases resources)
  case (Arr rs)
  let ?t1 = "(reset (Date_now e s) (progressTracker s))
                      \<lparr>totalBytes := sum_list (map rsize rs), totalFiles := int (length rs)\<rparr>"
  let ?s1 = "tick (s\<lparr>progressTracker := ?t1\<rparr>)"
  let ?s2 = "tick (?s1\<lparr>progressTracker :=
                            setPhase (Date_now e ?s1) ''validating'' ''Verifying file integrity...''
                              (progressTracker ?s1)\<rparr>)"
  have q2: "quiet s ?s2" by (simp add: quiet_def tick_def)
  have q3: "quiet s (snd (validate_each e installPath md rs [] ?s2))"
    by (rule quiet_trans [OF q2 validate_each_quiet])
  have q4: "quiet s ((snd (validate_each e installPath md rs [] ?s2))\<lparr>pipelineCache := clearCache\<rparr>)"
    by (rule quiet_trans [OF q3 quiet_cache])
  show ?thesis
    using Arr q3 q4
    by (cases "validate_each e installPath md rs [] ?s2";
        cases "fst (validate_each e installPath md rs [] ?s2)")
       (simp_all add: validateResources_def Let_def)
next
  case Undefined
  then show ?thesis by (simp add: validateResources_def quiet_refl)
next
  case Other
  then show ?thesis by (simp add: validateResources_def quiet_refl)
qed

lemma validateResources_result:
  assumes "abortController s \<noteq> Some True" and "cache_agrees (md5sum e) (disk s) (pipelineCache s)"
  shows "fst (validateResources e (Arr rs) installPath md s)
           = Inr (filter (\<lambda>r. \<not> valid_on_disk (md5sum e) (disk s) installPath r) rs)
         \<and> pipelineCache (snd (validateResources e (Arr rs) installPath md s)) = Map.empty"
proof -
  let ?t1 = "(reset (Date_now e s) (progressTracker s))
                      \<lparr>totalBytes := sum_list (map rsize rs), totalFiles := int (length rs)\<rparr>"
  let ?s1 = "tick (s\<lparr>progressTracker := ?t1\<rparr>)"
  let ?s2 = "tick (?s1\<lparr>progressTracker :=
                            setPhase (Date_now e ?s1) ''validating'' ''Verifying file integrity...''
                              (progressTracker ?s1)\<rparr>)"
  have f: "abortController ?s2 = abortController s" "disk ?s2 = disk s"
    "pipelineCache ?s2 = pipelineCache s"
    by (simp_all add: tick_def)
  from validate_each_result [of ?s2 e installPath md rs "[]"] assms f
  have "fst (validate_each e installPath md rs [] ?s2)
           = Inr (filter (\<lambda>r. \<not> valid_on_disk (md5sum e) (disk s) installPath r) rs)"
    by simp
  then show ?thesis
    by (cases "validate_each e installPath md rs [] ?s2")
       (simp add: validateResources_def Let_def clearCache_def)
qed

lemma getFilesToDownload_quiet: "quiet s (snd (getFilesToDownload e resources installPath s))"
proof -
  let ?md = "\<lparr>isFinal = False, md_version = currentPatchVersion s\<rparr>"
  have q: "quiet s (snd (validateResources e resources installPath ?md s))"
    by (rule validateResources_quiet)
  show ?thesis
  proof (cases "validateResources e resources installPath ?md s")
    case (Pair res s1)
    with q have q1: "quiet s s1" by simp
    show ?thesis
    proof (cases res)
      case (Inl err)
      with Pair q1 show ?thesis by (simp add: getFilesToDownload_def)
    next
      case (Inr invalidFiles)
      have "quiet s1 (tick (s1\<lparr>progressTracker := t\<rparr>))" for t
        by (simp add: quiet_def tick_def)
      with Pair Inr q1 show ?thesis
        by (simp add: getFilesToDownload_def Let_def quiet_trans)
    qed
  qed
qed

lemma getFilesToDownload_result:
  assumes "abortController s \<noteq> Some True" and "cache_agrees (md5sum e) (disk s) (pipelineCache s)"
  shows "fst (getFilesToDownload e (Arr rs) installPath s)
           = Inr (filter (\<lambda>r. \<not> valid_on_disk (md5sum e) (disk s) installPath r) rs)
         \<and> pipelineCache (snd (getFilesToDownload e (Arr rs) installPath s)) = Map.empty"
proof -
  let ?md = "\<lparr>isFinal = False, md_version = currentPatchVersion s\<rparr>"
  from validateResources_result [OF assms, of rs installPath ?md]
  show ?thesis
    by (cases "validateResources e (Arr rs) installPath ?md s")
       (simp add: getFilesToDownload_def Let_def tick_def)
qed

section \<open>Single flight\<close>

text \<open>
  Claim C1, as the code has it. A call of \<open>downloadGame\<close> on a manager that is downloading
  returns at once the error response \<^verbatim>\<open>A download is already in progress.\<close> and leaves the
  whole state as it is: the flags and the abort controller, the progress tracker, the set
  of completed files, the disk. A call of \<open>repairGame\<close> on a manager that is repairing
  changes nothing of the state either and starts nothing, but it is not answered with an
  error result: \<open>repairGame\<close> returns no value, the handler of the start command answers
  \<^verbatim>\<open>success: true\<close>, and the error \<^verbatim>\<open>Repair process is already running.\<close> goes to the
  renderer as a \<^verbatim>\<open>repair-progress\<close> message, and only when the main window is there.
  Nothing is queued: no later step of the model runs for either call.
\<close>

theorem busy_rejection:
  "(isDownloading s \<longrightarrow>
      downloadGame e installPath versionType s
        = Some (\<lparr>success = False, r_installPath = None, r_version = None, r_cancelled = None,
                  r_error = Some ''A download is already in progress.''\<rparr>, s))
   \<and> (isRepairing r \<longrightarrow>
        repairGame e gamePath mode r
          = r\<lparr>sent := sent r @
                 (if windowAlive e
                  then [\<lparr>ev_channel = ''repair-progress'', ev_status = Some ''Error'', ev_metrics = None,
                         ev_error = Some ''Repair process is already running.'', ev_log = None\<rparr>]
                  else [])\<rparr>)
   \<and> (isRepairing r \<and> gamePath \<noteq> [] \<longrightarrow>
        handleRepairRequest e (Some gamePath) mode r
          = (\<lparr>success = True, r_installPath = None, r_version = None, r_cancelled = None,
               r_error = None\<rparr>,
             r\<lparr>sent := sent r @
                 (if windowAlive e
                  then [\<lparr>ev_channel = ''repair-progress'', ev_status = Some ''Error'', ev_metrics = None,
                         ev_error = Some ''Repair process is already running.'', ev_log = None\<rparr>]
                  else [])\<rparr>))"
  by (simp add: downloadGame_def createStandardResponse_def repairGame_def rm_sendProgress_def
      send_def rm_event_def handleRepairRequest_def)

text \<open>
  The claim as written fails for repair: the start command of a repair, given while a
  repair is running and the main window is gone, is answered with \<^verbatim>\<open>success: true\<close> and
  no error, and nothing at all is reported; the state is as before.
\<close>

theorem busy_repair_answers_success:
  "handleRepairRequest ((example_env (RequestError ''offline''))\<lparr>windowAlive := False\<rparr>)
       (Some ''game'') ''full''
       ((new_GameRepairManager (example_env (RequestError ''offline'')) empty_world)
          \<lparr>isRepairing := True, rm_abortController := Some False\<rparr>)
     = (\<lparr>success = True, r_installPath = None, r_version = None, r_cancelled = None,
          r_error = None\<rparr>,
        (new_GameRepairManager (example_env (RequestError ''offline'')) empty_world)
          \<lparr>isRepairing := True, rm_abortController := Some False\<rparr>)"
  by (simp add: handleRepairRequest_def repairGame_def rm_sendProgress_def send_def
      createStandardResponse_def)

section \<open>Where quick repair takes its resources from\<close>



lemma rm_sendProgress_eq:
  "rm_sendProgress e ev s = s\<lparr>sent := (if windowAlive e then sent s @ [ev] else sent s)\<rparr>"
  by (simp add: rm_sendProgress_def send_def)



section \<open>Runs of downloadGame\<close>

lemma dm_reset_facts:
  "disk (dm_reset e s) = disk s" "transfers (dm_reset e s) = transfers s"
  "sent (dm_reset e s) = sent s" "isDownloading (dm_reset e s) = False"
  "pipelineCache (dm_reset e s) = pipelineCache s" "requests (dm_reset e s) = requests s"
  "abortController (dm_reset e s) = None" "isPaused (dm_reset e s) = False"
  "jsonFiles (dm_reset e s) = jsonFiles s" "waited (dm_reset e s) = waited s"
  by (simp_all add: dm_reset_def tick_def)

lemma initializeDownload_facts:
  "disk (initializeDownload e s) = disk s" "transfers (initializeDownload e s) = transfers s"
  "isDownloading (initializeDownload e s) = True" "isPaused (initializeDownload e s) = False"
  "abortController (initializeDownload e s) = Some False"
  "pipelineCache (initializeDownload e s) = pipelineCache s"
  "requests (initializeDownload e s) = requests s" "waited (initializeDownload e s) = waited s"
  by (simp_all add: initializeDownload_def dm_reset_facts)

lemma completeDownload_facts:
  "fst (completeDownload e installPath version resources s)
     = \<lparr>success = True, r_installPath = Some installPath, r_version = Some version,
        r_cancelled = None, r_error = None\<rparr>"
  "disk (snd (completeDownload e installPath version resources s)) = disk s"
  "transfers (snd (completeDownload e installPath version resources s)) = transfers s"
  "waited (snd (completeDownload e installPath version resources s)) = waited s"
  "windowAlive e \<Longrightarrow>
     ev_status (last (sent (snd (completeDownload e installPath version resources s)))) = Some ''Completed''"
  "jsonFiles (snd (completeDownload e installPath version resources s))
     (path_join installPath ''LocalGameResources.json'') = Some (LocalIndex resources Undefined)"
proof -
  show "fst (completeDownload e installPath version resources s)
     = \<lparr>success = True, r_installPath = Some installPath, r_version = Some version,
        r_cancelled = None, r_error = None\<rparr>"
    by (simp add: completeDownload_def Let_def createStandardResponse_def)
  show "disk (snd (completeDownload e installPath version resources s)) = disk s"
    by (simp add: completeDownload_def Let_def quietD [OF dm_sendProgress_quiet] send_def
        split: option.splits)
  show "transfers (snd (completeDownload e installPath version resources s)) = transfers s"
    by (simp add: completeDownload_def Let_def quietD [OF dm_sendProgress_quiet] send_def
        split: option.splits)
  show "waited (snd (completeDownload e installPath version resources s)) = waited s"
    by (simp add: completeDownload_def Let_def quietD [OF dm_sendProgress_quiet] send_def
        split: option.splits)
  show "windowAlive e \<Longrightarrow>
     ev_status (last (sent (snd (completeDownload e installPath version resources s)))) = Some ''Completed''"
    by (simp add: completeDownload_def Let_def dm_sendProgress_last)
  show "jsonFiles (snd (completeDownload e installPath version resources s))
     (path_join installPath ''LocalGameResources.json'') = Some (LocalIndex resources Undefined)"
    by (simp add: completeDownload_def Let_def quietD [OF dm_sendProgress_quiet] send_def
        split: option.splits)
qed


lemma withRetry_from_preserves:
  assumes step: "\<And>t. P t \<Longrightarrow> P (snd (operation t))"
  shows "P s \<Longrightarrow> P (fst (snd (withRetry_from a operation m b s)))"
proof (induction "m + 1 - a" arbitrary: a s)
  case 0
  then have "\<not> a \<le> m" by simp
  with "0.prems" show ?case by (subst withRetry_from.simps) simp
next
  case (Suc n)
  then have le: "a \<le> m" by simp
  obtain res s' where op: "operation s = (res, s')" by (cases "operation s")
  from step [OF Suc.prems] op have p': "P s'" by simp
  show ?case
  proof (cases res)
    case (Inr v)
    with le op p' show ?thesis by (subst withRetry_from.simps) simp
  next
    case (Inl err)
    show ?thesis
    proof (cases "a = m")
      case True
      with le op Inl p' show ?thesis by (subst withRetry_from.simps) simp
    next
      case False
      from Suc.hyps(2) have "n = m + 1 - (a + 1)" by simp
      from Suc.hyps(1) [OF this p']
      have "P (fst (snd (withRetry_from (a + 1) operation m b s')))" .
      with le False op Inl show ?thesis
        by (subst withRetry_from.simps)
           (cases "withRetry_from (a + 1) operation m b s'", simp)
    qed
  qed
qed

lemma cancelDownload_cache: "pipelineCache (cancelDownload s) = pipelineCache s"
  by (simp add: cancelDownload_def)

lemma setupDownloadStream_cache:
  "pipelineCache (snd (setupDownloadStream e url chunks ending filePath fileId s)) = pipelineCache s"
  by (cases ending) (simp_all add: setupDownloadStream_def Let_def dm_sendProgress_cache cancelDownload_cache)

lemma downloadAndPipe_cache:
  "pipelineCache (snd (downloadAndPipe e url filePath fileId s)) = pipelineCache s"
  by (cases "fetch_file e (requests s) url")
     (simp_all add: downloadAndPipe_def Let_def setupDownloadStream_cache)

lemma download_attempt_cache:
  "pipelineCache (snd (download_attempt e r baseUrl installPath s)) = pipelineCache s"
proof -
  obtain res s1 where d: "downloadAndPipe e (combineUrl baseUrl (dest r))
      (path_join installPath (dest r)) (dest r) s = (res, s1)"
    by (cases "downloadAndPipe e (combineUrl baseUrl (dest r)) (path_join installPath (dest r)) (dest r) s")
  from downloadAndPipe_cache [of e "combineUrl baseUrl (dest r)" "path_join installPath (dest r)" "dest r" s] d
  have "pipelineCache s1 = pipelineCache s" by simp
  with d show ?thesis
    by (cases res; cases "quickValidate (disk s1) (path_join installPath (dest r)) (rsize r)")
       (simp_all add: download_attempt_def Let_def)
qed

lemma downloadFileWithRetry_cache:
  "pipelineCache (snd (downloadFileWithRetry e r baseUrl installPath s)) = pipelineCache s"
proof -
  have "pipelineCache (fst (snd (withRetry_from 1 (download_attempt e r baseUrl installPath)
          MAX_RETRIES RETRY_DELAY_BASE s))) = pipelineCache s"
    by (rule withRetry_from_preserves [where P = "\<lambda>t. pipelineCache t = pipelineCache s"])
       (simp_all add: download_attempt_cache)
  then show ?thesis
    by (cases "withRetry_from 1 (download_attempt e r baseUrl installPath)
          MAX_RETRIES RETRY_DELAY_BASE s")
       (simp add: downloadFileWithRetry_def withRetry_def)
qed

lemma worker_cache:
  "worker e baseUrl installPath queue s = Some (res, s') \<Longrightarrow> pipelineCache s' = pipelineCache s"
proof (induction queue arbitrary: s)
  case Nil
  then show ?case by simp
next
  case (Cons r queue)
  obtain res1 s1 where d: "downloadFileWithRetry e r baseUrl installPath s = (res1, s1)"
    by (cases "downloadFileWithRetry e r baseUrl installPath s")
  from downloadFileWithRetry_cache [of e r baseUrl installPath s] d
  have c1: "pipelineCache s1 = pipelineCache s" by simp
  show ?case
  proof (cases "abortController s = Some True \<or> isPaused s")
    case True
    with Cons.prems show ?thesis by (auto split: if_splits)
  next
    case False
    show ?thesis
    proof (cases res1)
      case (Inl err)
      with False d Cons.prems c1 show ?thesis by auto
    next
      case (Inr u)
      with False d Cons.prems have "worker e baseUrl installPath queue s1 = Some (res, s')" by auto
      from Cons.IH [OF this] c1 show ?thesis by simp
    qed
  qed
qed

lemma executeDownload_ok:
  assumes "executeDownload e files baseUrl installPath s = Some (Inr u, s')"
  shows "abortController s' = Some False \<and> pipelineCache s' = pipelineCache s"
proof -
  let ?s1 = "tick (s\<lparr>progressTracker :=
                         setPhase (Date_now e s) ''downloading'' ''Downloading files...''
                           (progressTracker s)\<rparr>)"
  let ?s2 = "dm_sendProgress e (statusText ?s1) None None ?s1"
  have p2: "pipelineCache ?s2 = pipelineCache s"
    by (simp add: dm_sendProgress_cache tick_def)
  from assms obtain res where w: "worker e baseUrl installPath files ?s2 = Some (res, s')"
    by (auto simp: executeDownload_def Let_def split: option.splits prod.splits sum.splits if_splits)
  from worker_cache [OF w] p2 have "pipelineCache s' = pipelineCache s" by simp
  moreover from assms w have "abortController s' = Some False"
    by (auto simp: executeDownload_def Let_def split: option.splits prod.splits sum.splits if_splits)
  ultimately show ?thesis by simp
qed

lemma handleDownloadError_facts:
  "fst (handleDownloadError e error s)
     = createStandardResponse False None None (abortController s) (message error)"
  "disk (snd (handleDownloadError e error s)) = disk s"
  "transfers (snd (handleDownloadError e error s)) = transfers s"
  "windowAlive e \<Longrightarrow> ev_status (last (sent (snd (handleDownloadError e error s))))
     = Some (if abortController s = Some True then ''Cancelled'' else ''Error'')"
  by (simp_all add: handleDownloadError_def Let_def quietD [OF dm_sendProgress_quiet]
      dm_sendProgress_last)








lemma executeDownload_prelude:
  "quiet s (dm_sendProgress e st None None
     (tick (s\<lparr>progressTracker := setPhase (Date_now e s) ''downloading'' ''Downloading files...''
                                   (progressTracker s)\<rparr>)))"
proof -
  have "quiet s (tick (s\<lparr>progressTracker := setPhase (Date_now e s) ''downloading''
      ''Downloading files...'' (progressTracker s)\<rparr>))"
    by (simp add: quiet_def tick_def)
  then show ?thesis by (rule quiet_trans [OF _ dm_sendProgress_quiet])
qed



text \<open>
  Claim C7. Let \<open>downloadGame\<close> be called on an idle manager whose validation cache agrees
  with the disk, let the configuration be fetched, and let every entry of the manifest
  be valid on disk, as it is after a successful run when nothing on disk has changed.
  Then the validation pass finds no invalid file, no file transfer is started, the
  download phase is skipped, the disk is left as it is, and the call returns the success
  response with the install path and the version, after the status \<^verbatim>\<open>Completed\<close>.
\<close>

theorem downloadGame_nothing_to_do:
  assumes idle: "\<not> isDownloading s"
    and agrees: "cache_agrees (md5sum e) (disk s) (pipelineCache s)"
    and config: "getGameConfig e versionType (initializeDownload e s) = (Inr config, s1)"
    and arr: "cfg_resources config = Arr rs"
    and valid: "\<forall>r\<in>set rs. valid_on_disk (md5sum e) (disk s) installPath r"
  shows "\<exists>s'. downloadGame e installPath versionType s
                = Some (\<lparr>success = True, r_installPath = Some installPath,
                          r_version = Some (cfg_version config), r_cancelled = None,
                          r_error = None\<rparr>, s')
              \<and> transfers s' = transfers s \<and> disk s' = disk s \<and> \<not> isDownloading s'
              \<and> fst (getFilesToDownload e (Arr rs) installPath
                        (s1\<lparr>currentPatchVersion := Some (cfg_version config)\<rparr>)) = Inr []
              \<and> (windowAlive e \<longrightarrow> ev_status (last (sent s')) = Some ''Completed'')"
proof -
  let ?s0 = "initializeDownload e s"
  let ?s2 = "s1\<lparr>currentPatchVersion := Some (cfg_version config)\<rparr>"
  from getGameConfig_calm [of ?s0 e versionType] config
  have c1: "calm ?s0 s1" and p1: "pipelineCache s1 = pipelineCache ?s0" by simp_all
  have a2: "abortController ?s2 = Some False" and d2: "disk ?s2 = disk s"
    and p2: "pipelineCache ?s2 = pipelineCache s" and t2: "transfers ?s2 = transfers s"
    using calmD [OF c1] p1 by (simp_all add: initializeDownload_facts)
  have na: "abortController ?s2 \<noteq> Some True" using a2 by simp
  have ag: "cache_agrees (md5sum e) (disk ?s2) (pipelineCache ?s2)"
    unfolding d2 p2 by (rule agrees)
  have none: "filter (\<lambda>r. \<not> valid_on_disk (md5sum e) (disk s) installPath r) rs = []"
    using valid by (simp add: filter_empty_conv)
  obtain res s3 where g: "getFilesToDownload e (Arr rs) installPath ?s2 = (res, s3)"
    by (cases "getFilesToDownload e (Arr rs) installPath ?s2")
  from getFilesToDownload_result [OF na ag, of rs installPath] g none
  have res: "res = Inr []" by (simp add: d2)
  from getFilesToDownload_quiet [of ?s2 e "Arr rs" installPath] g
  have q3: "quiet ?s2 s3" by simp
  let ?c = "completeDownload e installPath (cfg_version config) (Arr rs) s3"
  have tried: "downloadGame_try e installPath versionType ?s0 = Some (Inr (fst ?c), snd ?c)"
    using config arr g res
    by (simp add: downloadGame_try_def Let_def split: prod.splits)
  have run: "downloadGame e installPath versionType s = Some (fst ?c, dm_reset e (snd ?c))"
    using idle tried by (simp add: downloadGame_def)
  show ?thesis
  proof (intro exI conjI)
    show "downloadGame e installPath versionType s
            = Some (\<lparr>success = True, r_installPath = Some installPath,
                      r_version = Some (cfg_version config), r_cancelled = None,
                      r_error = None\<rparr>, dm_reset e (snd ?c))"
      unfolding run by (simp add: completeDownload_facts)
    show "transfers (dm_reset e (snd ?c)) = transfers s"
      using quietD [OF q3] t2 by (simp add: dm_reset_facts completeDownload_facts)
    show "disk (dm_reset e (snd ?c)) = disk s"
      using quietD [OF q3] d2 by (simp add: dm_reset_facts completeDownload_facts)
    show "\<not> isDownloading (dm_reset e (snd ?c))"
      by (simp add: dm_reset_facts)
    show "fst (getFilesToDownload e (Arr rs) installPath ?s2) = Inr []"
      using g res by simp
    show "windowAlive e \<longrightarrow> ev_status (last (sent (dm_reset e (snd ?c)))) = Some ''Completed''"
      by (simp add: dm_reset_facts completeDownload_facts)
  qed
qed

text \<open>
  Claim C6, for \<open>downloadGame\<close>. When the first validation pass queues at least one file
  and the download phase ends without an error, a second validation pass runs over the
  whole manifest, not over the queue: it returns exactly the entries that are not valid on
  the disk as the downloads left it. The call succeeds iff that list is empty. Otherwise
  it ends with the error \<^verbatim>\<open>Validation failed: n files are still corrupt after download.\<close>,
  status \<^verbatim>\<open>Error\<close>, not cancelled, and starts no further transfer: there is no second
  download round.
\<close>

theorem final_validation_gate:
  assumes idle: "\<not> isDownloading s"
    and agrees: "cache_agrees (md5sum e) (disk s) (pipelineCache s)"
    and config: "getGameConfig e versionType (initializeDownload e s) = (Inr config, s1)"
    and arr: "cfg_resources config = Arr rs"
    and files: "getFilesToDownload e (Arr rs) installPath
                  (s1\<lparr>currentPatchVersion := Some (cfg_version config)\<rparr>) = (Inr queue, s3)"
    and some: "queue \<noteq> []"
    and exec: "executeDownload e queue (cfg_baseUrl config) installPath s3 = Some (Inr (), s4)"
  shows "\<exists>resp s'. downloadGame e installPath versionType s = Some (resp, s')
           \<and> transfers s' = transfers s4 \<and> disk s' = disk s4
           \<and> fst (validateResources e (Arr rs) installPath
                     \<lparr>isFinal = True, md_version = currentPatchVersion s4\<rparr> s4)
               = Inr (filter (\<lambda>r. \<not> valid_on_disk (md5sum e) (disk s4) installPath r) rs)
           \<and> (success resp \<longleftrightarrow> (\<forall>r\<in>set rs. valid_on_disk (md5sum e) (disk s4) installPath r))
           \<and> (success resp \<longrightarrow> (windowAlive e \<longrightarrow> ev_status (last (sent s')) = Some ''Completed''))
           \<and> (\<not> success resp \<longrightarrow>
                 r_error resp = Some (''Validation failed: ''
                   @ show_nat (length (filter (\<lambda>r. \<not> valid_on_disk (md5sum e) (disk s4) installPath r) rs))
                   @ '' files are still corrupt after download.'')
                 \<and> r_cancelled resp = Some False
                 \<and> (windowAlive e \<longrightarrow> ev_status (last (sent s')) = Some ''Error''))"
proof -
  let ?s0 = "initializeDownload e s"
  let ?s2 = "s1\<lparr>currentPatchVersion := Some (cfg_version config)\<rparr>"
  from getGameConfig_calm [of ?s0 e versionType] config
  have c1: "calm ?s0 s1" and p1: "pipelineCache s1 = pipelineCache ?s0" by simp_all
  have a2: "abortController ?s2 = Some False" and d2: "disk ?s2 = disk s"
    and p2: "pipelineCache ?s2 = pipelineCache s"
    using calmD [OF c1] p1 by (simp_all add: initializeDownload_facts)
  have na: "abortController ?s2 \<noteq> Some True" using a2 by simp
  have ag: "cache_agrees (md5sum e) (disk ?s2) (pipelineCache ?s2)"
    unfolding d2 p2 by (rule agrees)
  from getFilesToDownload_result [OF na ag, of rs installPath] files
  have p3: "pipelineCache s3 = Map.empty" by simp
  from executeDownload_ok [OF exec] p3
  have a4: "abortController s4 = Some False" and p4: "pipelineCache s4 = Map.empty" by simp_all
  have na4: "abortController s4 \<noteq> Some True" using a4 by simp
  have ag4: "cache_agrees (md5sum e) (disk s4) (pipelineCache s4)"
    unfolding p4 by (rule cache_agrees_empty)
  let ?md = "\<lparr>isFinal = True, md_version = currentPatchVersion s4\<rparr>"
  let ?bad = "filter (\<lambda>r. \<not> valid_on_disk (md5sum e) (disk s4) installPath r) rs"
  obtain res s5 where v: "validateResources e (Arr rs) installPath ?md s4 = (res, s5)"
    by (cases "validateResources e (Arr rs) installPath ?md s4")
  from validateResources_result [OF na4 ag4, of rs installPath ?md] v
  have res: "res = Inr ?bad" by simp
  from validateResources_quiet [of s4 e "Arr rs" installPath ?md] v
  have q5: "quiet s4 s5" by simp
  have gate: "fst (validateResources e (Arr rs) installPath ?md s4) = Inr ?bad"
    using v res by simp
  have q_len: "queue \<noteq> [] \<Longrightarrow> \<not> length queue = 0" by simp
  show ?thesis
  proof (cases "?bad = []")
    case True
    let ?c = "completeDownload e installPath (cfg_version config) (Arr rs) s5"
    have tried: "downloadGame_try e installPath versionType ?s0 = Some (Inr (fst ?c), snd ?c)"
      using config arr files some exec v res True
      by (simp add: downloadGame_try_def Let_def split: prod.splits)
    have run: "downloadGame e installPath versionType s = Some (fst ?c, dm_reset e (snd ?c))"
      using idle tried by (simp add: downloadGame_def)
    from True have all: "\<forall>r\<in>set rs. valid_on_disk (md5sum e) (disk s4) installPath r"
      by (simp add: filter_empty_conv)
    show ?thesis
    proof (intro exI conjI)
      show "downloadGame e installPath versionType s = Some (fst ?c, dm_reset e (snd ?c))"
        by (rule run)
      show "transfers (dm_reset e (snd ?c)) = transfers s4"
        using quietD [OF q5] by (simp add: dm_reset_facts completeDownload_facts)
      show "disk (dm_reset e (snd ?c)) = disk s4"
        using quietD [OF q5] by (simp add: dm_reset_facts completeDownload_facts)
      show "fst (validateResources e (Arr rs) installPath ?md s4) = Inr ?bad" by (rule gate)
      show "success (fst ?c) \<longleftrightarrow> (\<forall>r\<in>set rs. valid_on_disk (md5sum e) (disk s4) installPath r)"
        using all by (simp add: completeDownload_facts)
      show "success (fst ?c) \<longrightarrow> (windowAlive e \<longrightarrow>
              ev_status (last (sent (dm_reset e (snd ?c)))) = Some ''Completed'')"
        by (simp add: dm_reset_facts completeDownload_facts)
      show "\<not> success (fst ?c) \<longrightarrow>
                 r_error (fst ?c) = Some (''Validation failed: '' @ show_nat (length ?bad)
                   @ '' files are still corrupt after download.'')
                 \<and> r_cancelled (fst ?c) = Some False
                 \<and> (windowAlive e \<longrightarrow> ev_status (last (sent (dm_reset e (snd ?c)))) = Some ''Error'')"
        by (simp add: completeDownload_facts)
    qed
  next
    case False
    let ?err = "JsError (''Validation failed: '' @ show_nat (length ?bad)
                   @ '' files are still corrupt after download.'')"
    let ?h = "handleDownloadError e ?err s5"
    have tried: "downloadGame_try e installPath versionType ?s0 = Some (Inl ?err, s5)"
      using config arr files some exec v res False
      by (simp add: downloadGame_try_def Let_def split: prod.splits)
    have run: "downloadGame e installPath versionType s = Some (fst ?h, dm_reset e (snd ?h))"
      using idle tried by (simp add: downloadGame_def split: prod.splits)
    have a5: "abortController s5 = Some False" using quietD [OF q5] a4 by simp
    from False have notall: "\<not> (\<forall>r\<in>set rs. valid_on_disk (md5sum e) (disk s4) installPath r)"
      by (simp add: filter_empty_conv)
    show ?thesis
    proof (intro exI conjI)
      show "downloadGame e installPath versionType s = Some (fst ?h, dm_reset e (snd ?h))"
        by (rule run)
      show "transfers (dm_reset e (snd ?h)) = transfers s4"
        using quietD [OF q5] by (simp add: dm_reset_facts handleDownloadError_facts)
      show "disk (dm_reset e (snd ?h)) = disk s4"
        using quietD [OF q5] by (simp add: dm_reset_facts handleDownloadError_facts)
      show "fst (validateResources e (Arr rs) installPath ?md s4) = Inr ?bad" by (rule gate)
      show "success (fst ?h) \<longleftrightarrow> (\<forall>r\<in>set rs. valid_on_disk (md5sum e) (disk s4) installPath r)"
        using notall by (simp add: handleDownloadError_facts createStandardResponse_def)
      show "success (fst ?h) \<longrightarrow> (windowAlive e \<longrightarrow>
              ev_status (last (sent (dm_reset e (snd ?h)))) = Some ''Completed'')"
        by (simp add: handleDownloadError_facts createStandardResponse_def)
      show "\<not> success (fst ?h) \<longrightarrow>
                 r_error (fst ?h) = Some (''Validation failed: '' @ show_nat (length ?bad)
                   @ '' files are still corrupt after download.'')
                 \<and> r_cancelled (fst ?h) = Some False
                 \<and> (windowAlive e \<longrightarrow> ev_status (last (sent (dm_reset e (snd ?h)))) = Some ''Error'')"
        using a5 by (simp add: handleDownloadError_facts createStandardResponse_def dm_reset_facts)
    qed
  qed
qed


section \<open>Example runs of the download manager\<close>

text \<open>The theorems above, applied to runs in the example environment: a run that finds
  the installation valid, a run that downloads the missing file and passes the final
  validation, a run whose download has the wrong content, a run that is cancelled during
  the transfer, and calls on busy managers.\<close>

lemma new_GameDownloadManager_facts:
  "isDownloading (new_GameDownloadManager e w) = False"
  "pipelineCache (new_GameDownloadManager e w) = Map.empty"
  "disk (new_GameDownloadManager e w) = disk w"
  "transfers (new_GameDownloadManager e w) = transfers w"
  by (simp_all add: new_GameDownloadManager_def dm_reset_facts tick_def)

lemma example_env_facts:
  "windowAlive (example_env fr) = True" "md5sum (example_env fr) = sum_digest"
  "fetch_file (example_env fr) k url = fr"
  "fetch_json (example_env fr) k GAME_CONFIG_URL = Inr (ConfigDoc [''default'' \<mapsto> example_channel])"
  "url \<noteq> GAME_CONFIG_URL \<Longrightarrow>
     fetch_json (example_env fr) k url = Inr (IndexDoc (Arr [example_resource]) Undefined)"
  by (simp_all add: example_env_def)

lemma example_urls:
  "combineUrl ''https://cdn/'' ''idx.json'' = ''https://cdn/idx.json''"
  "combineUrl ''https://cdn/'' ''files'' = ''https://cdn/files''"
  "combineUrl ''https://cdn/files'' ''a.pak'' = ''https://cdn/files/a.pak''"
  "''https://cdn/idx.json'' \<noteq> GAME_CONFIG_URL"
  by (simp_all add: combineUrl_def GAME_CONFIG_URL_def)

lemma example_getGameConfig:
  assumes "abortController s \<noteq> Some True"
  shows "fst (getGameConfig (example_env fr) ''default'' s) = Inr example_config"
proof -
  let ?e = "example_env fr"
  let ?s1 = "dm_sendProgress ?e ''Fetching remote configuration...'' None None s"
  have a1: "abortController ?s1 \<noteq> Some True"
    using quietD [OF dm_sendProgress_quiet, of ?e "''Fetching remote configuration...''" None None s] assms
    by simp
  show ?thesis
    using a1
    by (simp add: getGameConfig_def Let_def httpRequest_json_def example_env_facts
        example_channel_def example_urls example_config_def)
qed

lemma files_to_download:
  assumes agrees: "cache_agrees (md5sum e) (disk s) (pipelineCache s)"
    and config: "getGameConfig e versionType (initializeDownload e s) = (Inr config, s1)"
  shows "fst (getFilesToDownload e (Arr rs) installPath (s1\<lparr>currentPatchVersion := v\<rparr>))
           = Inr (filter (\<lambda>r. \<not> valid_on_disk (md5sum e) (disk s) installPath r) rs)"
proof -
  let ?init = "initializeDownload e s"
  let ?s2 = "s1\<lparr>currentPatchVersion := v\<rparr>"
  from getGameConfig_calm [of ?init e versionType] config
  have c1: "calm ?init s1" and p1: "pipelineCache s1 = pipelineCache ?init" by simp_all
  have a2: "abortController ?s2 = Some False" and d2: "disk ?s2 = disk s"
    and p2: "pipelineCache ?s2 = pipelineCache s"
    using calmD [OF c1] p1 by (simp_all add: initializeDownload_facts)
  have na: "abortController ?s2 \<noteq> Some True" using a2 by simp
  have ag: "cache_agrees (md5sum e) (disk ?s2) (pipelineCache ?s2)"
    unfolding d2 p2 by (rule agrees)
  from getFilesToDownload_result [OF na ag, of rs installPath]
  show ?thesis by (simp add: d2)
qed

lemma example_digests:
  "sum_digest [0xAB] = ''ab''" "sum_digest [0xAC] = ''ac''"
  "toLowerCase ''AB'' = ''ab''" "toLowerCase ''ab'' = ''ab''" "toLowerCase ''ac'' = ''ac''"
  by code_simp+

theorem downloadGame_nothing_to_do_witness:
  "\<exists>s'. downloadGame (example_env (RequestError ''offline'')) ''game'' ''default''
           (new_GameDownloadManager (example_env (RequestError ''offline'')) installed_world)
         = Some (\<lparr>success = True, r_installPath = Some ''game'', r_version = Some ''2.0'',
                   r_cancelled = None, r_error = None\<rparr>, s')
       \<and> transfers s' = [] \<and> disk s' = disk installed_world
       \<and> ev_status (last (sent s')) = Some ''Completed''"
proof -
  let ?e = "example_env (RequestError ''offline'')"
  let ?s = "new_GameDownloadManager ?e installed_world"
  let ?init = "initializeDownload ?e ?s"
  have idle: "\<not> isDownloading ?s" by (simp add: new_GameDownloadManager_facts)
  have agrees: "cache_agrees (md5sum ?e) (disk ?s) (pipelineCache ?s)"
    by (simp add: new_GameDownloadManager_facts cache_agrees_empty)
  have "fst (getGameConfig ?e ''default'' ?init) = Inr example_config"
    by (rule example_getGameConfig) (simp add: initializeDownload_facts)
  then have config: "getGameConfig ?e ''default'' ?init
      = (Inr example_config, snd (getGameConfig ?e ''default'' ?init))"
    by (metis prod.collapse)
  have arr: "cfg_resources example_config = Arr [example_resource]"
    by (simp add: example_config_def)
  have valid: "\<forall>r\<in>set [example_resource]. valid_on_disk (md5sum ?e) (disk ?s) ''game'' r"
    by (simp add: new_GameDownloadManager_facts example_env_facts installed_world_def
        valid_on_disk_def valid_file_def path_join_def example_resource_def example_digests)
  from downloadGame_nothing_to_do [OF idle agrees config arr valid]
  obtain s' where "downloadGame ?e ''game'' ''default'' ?s
                = Some (\<lparr>success = True, r_installPath = Some ''game'',
                          r_version = Some (cfg_version example_config), r_cancelled = None,
                          r_error = None\<rparr>, s')"
    and "transfers s' = transfers ?s" and "disk s' = disk ?s"
    and "windowAlive ?e \<longrightarrow> ev_status (last (sent s')) = Some ''Completed''"
    by blast
  then show ?thesis
    by (intro exI [of _ s'])
       (simp add: example_env_facts example_config_def new_GameDownloadManager_facts
          installed_world_def empty_world_def)
qed

lemma before_download:
  assumes config: "getGameConfig e versionType (initializeDownload e s) = (Inr config, s1)"
    and files: "getFilesToDownload e resources installPath (s1\<lparr>currentPatchVersion := v\<rparr>) = (res, s3)"
  shows "abortController s3 = Some False" "isDownloading s3" "\<not> isPaused s3"
    "transfers s3 = transfers s" "disk s3 = disk s"
proof -
  from getGameConfig_calm [of "initializeDownload e s" e versionType] config
  have c1: "calm (initializeDownload e s) s1" by simp
  from getFilesToDownload_quiet [of "s1\<lparr>currentPatchVersion := v\<rparr>" e resources installPath] files
  have q3: "quiet (s1\<lparr>currentPatchVersion := v\<rparr>) s3" by simp
  show "abortController s3 = Some False" "isDownloading s3" "\<not> isPaused s3"
    "transfers s3 = transfers s" "disk s3 = disk s"
    using quietD [OF q3] calmD [OF c1] by (simp_all add: initializeDownload_facts)
qed

lemma withRetry_first:
  "operation s = (Inr v, s') \<Longrightarrow> 1 \<le> m \<Longrightarrow> withRetry operation m b s = (Inr (Some v), s', 1, [])"
  unfolding withRetry_def by (subst withRetry_from.simps) simp

lemma download_attempt_complete:
  assumes live: "abortController s = Some False"
    and resp: "fetch_file e (requests s) (combineUrl baseUrl (dest r)) = Response 200 chunks Complete"
    and size: "int (length (concat chunks)) = rsize r"
  shows "\<exists>s'. download_attempt e r baseUrl installPath s = (Inr (), s')
           \<and> disk s' = (disk s)(path_join installPath (dest r) := File (rsize r) (Date_now e s) chunks End)
           \<and> abortController s' = Some False \<and> waited s' = waited s"
proof -
  let ?url = "combineUrl baseUrl (dest r)"
  let ?path = "path_join installPath (dest r)"
  obtain res s1 where d: "downloadAndPipe e ?url ?path (dest r) s = (res, s1)"
    by (cases "downloadAndPipe e ?url ?path (dest r) s")
  have "res = Inr () \<and> disk s1 = (disk s)(?path := File (rsize r) (Date_now e s) chunks End)
        \<and> abortController s1 = Some False \<and> waited s1 = waited s"
    using d resp live size
    by (auto simp: downloadAndPipe_def setupDownloadStream_def Let_def written_def Date_now_def
        quietD [OF dm_sendProgress_quiet])
  then show ?thesis
    using d live
    by (simp add: download_attempt_def Let_def quickValidate_def fs_stat_def)
qed

lemma single_file_download:
  assumes live: "abortController s = Some False" "\<not> isPaused s"
    and resp: "fetch_file e (requests s) (combineUrl baseUrl (dest r)) = Response 200 chunks Complete"
    and size: "int (length (concat chunks)) = rsize r"
  shows "\<exists>s4 mt. executeDownload e [r] baseUrl installPath s = Some (Inr (), s4)
           \<and> disk s4 = (disk s)(path_join installPath (dest r) := File (rsize r) mt chunks End)"
proof -
  let ?p1 = "tick (s\<lparr>progressTracker :=
                         setPhase (Date_now e s) ''downloading'' ''Downloading files...''
                           (progressTracker s)\<rparr>)"
  let ?p2 = "dm_sendProgress e (statusText ?p1) None None ?p1"
  have qp: "quiet s ?p2" by (rule executeDownload_prelude)
  have ap: "abortController ?p2 = Some False" and npp: "\<not> isPaused ?p2"
    and rp: "requests ?p2 = requests s" and dp: "disk ?p2 = disk s"
    using quietD [OF qp] live by simp_all
  from resp rp have resp': "fetch_file e (requests ?p2) (combineUrl baseUrl (dest r))
      = Response 200 chunks Complete" by simp
  from download_attempt_complete [OF ap resp' size, of installPath]
  obtain s' where att: "download_attempt e r baseUrl installPath ?p2 = (Inr (), s')"
    and d': "disk s' = (disk s)(path_join installPath (dest r)
               := File (rsize r) (Date_now e ?p2) chunks End)"
    and a': "abortController s' = Some False"
    by (auto simp: dp)
  have "withRetry (download_attempt e r baseUrl installPath) MAX_RETRIES RETRY_DELAY_BASE ?p2
          = (Inr (Some ()), s', 1, [])"
    using withRetry_first [of "download_attempt e r baseUrl installPath" ?p2 "()" s' MAX_RETRIES
        RETRY_DELAY_BASE] att
    by (simp add: MAX_RETRIES_def)
  then have one: "downloadFileWithRetry e r baseUrl installPath ?p2 = (Inr (Some ()), s'\<lparr>waited := waited s'\<rparr>)"
    by (simp add: downloadFileWithRetry_def)
  have w: "worker e baseUrl installPath [r] ?p2 = Some (Inr (), s'\<lparr>waited := waited s'\<rparr>)"
    using ap npp one by simp
  have "executeDownload e [r] baseUrl installPath s = Some (Inr (), s'\<lparr>waited := waited s'\<rparr>)"
    using w a' by (simp add: executeDownload_def Let_def)
  with d' show ?thesis by auto
qed

lemma example_run_prefix:
  fixes fr :: response
  defines "e \<equiv> example_env fr"
  defines "s \<equiv> new_GameDownloadManager e empty_world"
  defines "s1 \<equiv> snd (getGameConfig e ''default'' (initializeDownload e s))"
  defines "s3 \<equiv> snd (getFilesToDownload e (Arr [example_resource]) ''game''
                        (s1\<lparr>currentPatchVersion := Some ''2.0''\<rparr>))"
  shows "\<not> isDownloading s"
    and "cache_agrees (md5sum e) (disk s) (pipelineCache s)"
    and "getGameConfig e ''default'' (initializeDownload e s) = (Inr example_config, s1)"
    and "getFilesToDownload e (Arr [example_resource]) ''game''
           (s1\<lparr>currentPatchVersion := Some ''2.0''\<rparr>) = (Inr [example_resource], s3)"
    and "abortController s3 = Some False" and "\<not> isPaused s3" and "disk s3 = (\<lambda>p. Missing)"
    and "transfers s = []"
proof -
  show idle: "\<not> isDownloading s" by (simp add: s_def new_GameDownloadManager_facts)
  show agrees: "cache_agrees (md5sum e) (disk s) (pipelineCache s)"
    by (simp add: s_def new_GameDownloadManager_facts cache_agrees_empty)
  have "fst (getGameConfig e ''default'' (initializeDownload e s)) = Inr example_config"
    unfolding e_def by (rule example_getGameConfig) (simp add: initializeDownload_facts)
  then show config: "getGameConfig e ''default'' (initializeDownload e s) = (Inr example_config, s1)"
    unfolding s1_def by (metis prod.collapse)
  have d: "disk s = (\<lambda>p. Missing)"
    by (simp add: s_def new_GameDownloadManager_facts empty_world_def)
  from files_to_download [OF agrees config, of "[example_resource]" "''game''" "Some ''2.0''"]
  have "fst (getFilesToDownload e (Arr [example_resource]) ''game''
           (s1\<lparr>currentPatchVersion := Some ''2.0''\<rparr>)) = Inr [example_resource]"
    by (simp add: d valid_on_disk_def valid_file_def)
  then show files: "getFilesToDownload e (Arr [example_resource]) ''game''
           (s1\<lparr>currentPatchVersion := Some ''2.0''\<rparr>) = (Inr [example_resource], s3)"
    unfolding s3_def by (metis prod.collapse)
  from before_download [OF config files]
  show "abortController s3 = Some False" and "\<not> isPaused s3" and "disk s3 = (\<lambda>p. Missing)"
    by (simp_all add: d)
  show "transfers s = []"
    by (simp add: s_def new_GameDownloadManager_facts empty_world_def)
qed

theorem final_validation_gate_witness:
  "(\<exists>resp s'. downloadGame (example_env (Response 200 [[0xAB]] Complete)) ''game'' ''default''
        (new_GameDownloadManager (example_env (Response 200 [[0xAB]] Complete)) empty_world)
        = Some (resp, s')
      \<and> success resp
      \<and> valid_on_disk sum_digest (disk s') ''game'' example_resource
      \<and> ev_status (last (sent s')) = Some ''Completed'')
   \<and> (\<exists>resp s'. downloadGame (example_env (Response 200 [[0xAC]] Complete)) ''game'' ''default''
        (new_GameDownloadManager (example_env (Response 200 [[0xAC]] Complete)) empty_world)
        = Some (resp, s')
      \<and> \<not> success resp
      \<and> r_error resp = Some ''Validation failed: 1 files are still corrupt after download.''
      \<and> ev_status (last (sent s')) = Some ''Error'')"
proof
  let ?fr = "Response 200 [[0xAB]] Complete"
  let ?e = "example_env ?fr"
  let ?s = "new_GameDownloadManager ?e empty_world"
  let ?s1 = "snd (getGameConfig ?e ''default'' (initializeDownload ?e ?s))"
  let ?s3 = "snd (getFilesToDownload ?e (Arr [example_resource]) ''game''
                        (?s1\<lparr>currentPatchVersion := Some ''2.0''\<rparr>))"
  note p = example_run_prefix [of ?fr]
  have resp: "fetch_file ?e (requests ?s3) (combineUrl ''https://cdn/files'' (dest example_resource)) = ?fr"
    by (simp add: example_env_facts)
  have size: "int (length (concat [[0xAB :: 8 word]])) = rsize example_resource"
    by (simp add: example_resource_def)
  from single_file_download [OF p(5) p(6) resp size, of "''game''"]
  obtain s4 mt where exec: "executeDownload ?e [example_resource] ''https://cdn/files'' ''game'' ?s3
      = Some (Inr (), s4)"
    and d4: "disk s4 = (disk ?s3)(path_join ''game'' (dest example_resource)
                := File (rsize example_resource) mt [[0xAB]] End)"
    by blast
  have ok: "valid_on_disk sum_digest (disk s4) ''game'' example_resource"
    by (simp add: d4 valid_on_disk_def valid_file_def example_digests example_resource_def)
  have arr: "cfg_resources example_config = Arr [example_resource]"
    and ver: "cfg_version example_config = ''2.0''"
    and base: "cfg_baseUrl example_config = ''https://cdn/files''"
    by (simp_all add: example_config_def)
  from final_validation_gate [OF p(1) p(2) p(3) arr, of "''game''" "[example_resource]" ?s3 s4]
    p(4) exec
  obtain resp s' where run: "downloadGame ?e ''game'' ''default'' ?s = Some (resp, s')"
    and d': "disk s' = disk s4"
    and iff: "success resp \<longleftrightarrow> (\<forall>r\<in>set [example_resource]. valid_on_disk (md5sum ?e) (disk s4) ''game'' r)"
    and fin: "success resp \<longrightarrow> (windowAlive ?e \<longrightarrow> ev_status (last (sent s')) = Some ''Completed'')"
    unfolding ver base by blast
  from iff ok have "success resp" by (simp add: example_env_facts)
  with run d' ok fin
  show "\<exists>resp s'. downloadGame ?e ''game'' ''default'' ?s = Some (resp, s')
      \<and> success resp
      \<and> valid_on_disk sum_digest (disk s') ''game'' example_resource
      \<and> ev_status (last (sent s')) = Some ''Completed''"
    by (intro exI [of _ resp] exI [of _ s']) (simp add: example_env_facts)
next
  let ?fr = "Response 200 [[0xAC]] Complete"
  let ?e = "example_env ?fr"
  let ?s = "new_GameDownloadManager ?e empty_world"
  let ?s1 = "snd (getGameConfig ?e ''default'' (initializeDownload ?e ?s))"
  let ?s3 = "snd (getFilesToDownload ?e (Arr [example_resource]) ''game''
                        (?s1\<lparr>currentPatchVersion := Some ''2.0''\<rparr>))"
  note p = example_run_prefix [of ?fr]
  have resp: "fetch_file ?e (requests ?s3) (combineUrl ''https://cdn/files'' (dest example_resource)) = ?fr"
    by (simp add: example_env_facts)
  have size: "int (length (concat [[0xAC :: 8 word]])) = rsize example_resource"
    by (simp add: example_resource_def)
  from single_file_download [OF p(5) p(6) resp size, of "''game''"]
  obtain s4 mt where exec: "executeDownload ?e [example_resource] ''https://cdn/files'' ''game'' ?s3
      = Some (Inr (), s4)"
    and d4: "disk s4 = (disk ?s3)(path_join ''game'' (dest example_resource)
                := File (rsize example_resource) mt [[0xAC]] End)"
    by blast
  have bad: "\<not> valid_on_disk sum_digest (disk s4) ''game'' example_resource"
    by (simp add: d4 valid_on_disk_def valid_file_def example_digests example_resource_def)
  have one: "show_nat (Suc 0) = ''1''"
    by code_simp
  have arr: "cfg_resources example_config = Arr [example_resource]"
    and ver: "cfg_version example_config = ''2.0''"
    and base: "cfg_baseUrl example_config = ''https://cdn/files''"
    by (simp_all add: example_config_def)
  from final_validation_gate [OF p(1) p(2) p(3) arr, of "''game''" "[example_resource]" ?s3 s4]
    p(4) exec
  obtain resp s' where run: "downloadGame ?e ''game'' ''default'' ?s = Some (resp, s')"
    and iff: "success resp \<longleftrightarrow> (\<forall>r\<in>set [example_resource]. valid_on_disk (md5sum ?e) (disk s4) ''game'' r)"
    and fin: "\<not> success resp \<longrightarrow>
                 r_error resp = Some (''Validation failed: ''
                   @ show_nat (length (filter (\<lambda>r. \<not> valid_on_disk (md5sum ?e) (disk s4) ''game'' r)
                        [example_resource]))
                   @ '' files are still corrupt after download.'')
                 \<and> r_cancelled resp = Some False
                 \<and> (windowAlive ?e \<longrightarrow> ev_status (last (sent s')) = Some ''Error'')"
    unfolding ver base by blast
  from iff bad have "\<not> success resp" by (simp add: example_env_facts)
  with run fin bad
  show "\<exists>resp s'. downloadGame ?e ''game'' ''default'' ?s = Some (resp, s')
      \<and> \<not> success resp
      \<and> r_error resp = Some ''Validation failed: 1 files are still corrupt after download.''
      \<and> ev_status (last (sent s')) = Some ''Error''"
    by (intro exI [of _ resp] exI [of _ s']) (simp add: example_env_facts one)
qed


theorem busy_rejection_witness:
  "downloadGame (example_env (RequestError ''offline'')) ''game'' ''default''
     ((new_GameDownloadManager (example_env (RequestError ''offline'')) empty_world)
        \<lparr>isDownloading := True, abortController := Some False\<rparr>)
   = Some (\<lparr>success = False, r_installPath = None, r_version = None, r_cancelled = None,
             r_error = Some ''A download is already in progress.''\<rparr>,
           (new_GameDownloadManager (example_env (RequestError ''offline'')) empty_world)
              \<lparr>isDownloading := True, abortController := Some False\<rparr>)
   \<and> (let r = (new_GameRepairManager (example_env (RequestError ''offline'')) empty_world)
                 \<lparr>isRepairing := True, rm_abortController := Some False\<rparr>;
           r' = repairGame (example_env (RequestError ''offline'')) ''game'' ''quick'' r
       in isRepairing r' \<and> rm_abortController r' = Some False
          \<and> rm_progressTracker r' = rm_progressTracker r \<and> disk r' = disk r
          \<and> map ev_error (sent r') = [Some ''Repair process is already running.'']
          \<and> handleRepairRequest (example_env (RequestError ''offline'')) (Some ''game'') ''quick'' r
              = (\<lparr>success = True, r_installPath = None, r_version = None, r_cancelled = None,
                   r_error = None\<rparr>, r'))"
proof -
  let ?e = "example_env (RequestError ''offline'')"
  let ?s = "(new_GameDownloadManager ?e empty_world)\<lparr>isDownloading := True, abortController := Some False\<rparr>"
  let ?r = "(new_GameRepairManager ?e empty_world)\<lparr>isRepairing := True, rm_abortController := Some False\<rparr>"
  have sent0: "sent ?r = []"
    by (simp add: new_GameRepairManager_def empty_world_def tick_def)
  show ?thesis
    using busy_rejection [where e = ?e and s = ?s and r = ?r and installPath = "''game''"
        and versionType = "''default''" and gamePath = "''game''" and mode = "''quick''"] sent0
    by (simp add: example_env_facts Let_def)
qed

section \<open>The repair manager: frames and example runs\<close>

subsection \<open>What the reporting steps of a repair leave alone\<close>

lemma rm_quiet_refl: "rm_quiet s s"
  by (simp add: rm_quiet_def)

lemma rm_quiet_trans: "rm_quiet s s' \<Longrightarrow> rm_quiet s' s'' \<Longrightarrow> rm_quiet s s''"
proof -
  assume a: "rm_quiet s s'" and b: "rm_quiet s' s''"
  from a have a': "s' = s\<lparr>ticks := ticks s', sent := sent s',
      rm_progressTracker := rm_progressTracker s', rm_validatorCache := rm_validatorCache s'\<rparr>"
    by (simp add: rm_quiet_def)
  from b have "s'' = s'\<lparr>ticks := ticks s'', sent := sent s'',
      rm_progressTracker := rm_progressTracker s'', rm_validatorCache := rm_validatorCache s''\<rparr>"
    by (simp add: rm_quiet_def)
  then have "s'' = (s\<lparr>ticks := ticks s', sent := sent s',
      rm_progressTracker := rm_progressTracker s', rm_validatorCache := rm_validatorCache s'\<rparr>)
      \<lparr>ticks := ticks s'', sent := sent s'',
      rm_progressTracker := rm_progressTracker s'', rm_validatorCache := rm_validatorCache s''\<rparr>"
    using a' by simp
  then show ?thesis by (simp add: rm_quiet_def)
qed

lemma rm_quietD:
  assumes "rm_quiet s s'"
  shows "disk s' = disk s" "jsonFiles s' = jsonFiles s" "requests s' = requests s"
    "transfers s' = transfers s" "waited s' = waited s" "managerCalls s' = managerCalls s"
    "isRepairing s' = isRepairing s" "rm_abortController s' = rm_abortController s"
proof -
  from assms have e: "s' = s\<lparr>ticks := ticks s', sent := sent s',
      rm_progressTracker := rm_progressTracker s', rm_validatorCache := rm_validatorCache s'\<rparr>"
    by (simp add: rm_quiet_def)
  show "disk s' = disk s" by (subst e) simp
  show "jsonFiles s' = jsonFiles s" by (subst e) simp
  show "requests s' = requests s" by (subst e) simp
  show "transfers s' = transfers s" by (subst e) simp
  show "waited s' = waited s" by (subst e) simp
  show "managerCalls s' = managerCalls s" by (subst e) simp
  show "isRepairing s' = isRepairing s" by (subst e) simp
  show "rm_abortController s' = rm_abortController s" by (subst e) simp
qed

lemma rm_calm_trans: "rm_calm s s' \<Longrightarrow> rm_calm s' s'' \<Longrightarrow> rm_calm s s''"
proof -
  assume a: "rm_calm s s'" and b: "rm_calm s' s''"
  from a have a': "s' = s\<lparr>ticks := ticks s', requests := requests s', sent := sent s',
      rm_progressTracker := rm_progressTracker s', rm_validatorCache := rm_validatorCache s'\<rparr>"
    by (simp add: rm_calm_def)
  from b have "s'' = s'\<lparr>ticks := ticks s'', requests := requests s'', sent := sent s'',
      rm_progressTracker := rm_progressTracker s'', rm_validatorCache := rm_validatorCache s''\<rparr>"
    by (simp add: rm_calm_def)
  then have "s'' = (s\<lparr>ticks := ticks s', requests := requests s', sent := sent s',
      rm_progressTracker := rm_progressTracker s', rm_validatorCache := rm_validatorCache s'\<rparr>)
      \<lparr>ticks := ticks s'', requests := requests s'', sent := sent s'',
      rm_progressTracker := rm_progressTracker s'', rm_validatorCache := rm_validatorCache s''\<rparr>"
    using a' by simp
  then show ?thesis by (simp add: rm_calm_def)
qed

lemma rm_calmD:
  assumes "rm_calm s s'"
  shows "disk s' = disk s" "jsonFiles s' = jsonFiles s"
    "transfers s' = transfers s" "waited s' = waited s" "managerCalls s' = managerCalls s"
    "isRepairing s' = isRepairing s" "rm_abortController s' = rm_abortController s"
proof -
  from assms have e: "s' = s\<lparr>ticks := ticks s', requests := requests s', sent := sent s',
      rm_progressTracker := rm_progressTracker s', rm_validatorCache := rm_validatorCache s'\<rparr>"
    by (simp add: rm_calm_def)
  show "disk s' = disk s" by (subst e) simp
  show "jsonFiles s' = jsonFiles s" by (subst e) simp
  show "transfers s' = transfers s" by (subst e) simp
  show "waited s' = waited s" by (subst e) simp
  show "managerCalls s' = managerCalls s" by (subst e) simp
  show "isRepairing s' = isRepairing s" by (subst e) simp
  show "rm_abortController s' = rm_abortController s" by (subst e) simp
qed

lemma rm_sendProgress_quiet: "rm_quiet s (rm_sendProgress e ev s)"
  by (simp add: rm_quiet_def rm_sendProgress_eq)

lemma rm_sendMetrics_quiet: "rm_quiet s (rm_sendMetrics e status s)"
  unfolding rm_sendMetrics_def
  by (auto split: prod.splits simp: rm_quiet_def rm_sendProgress_eq tick_def)

lemma rm_throttled_quiet: "rm_quiet s (rm_throttled e status s)"
proof -
  obtain ok u where sh: "shouldUpdate False (Date_now e s) (uiThrottler (rm_progressTracker s)) = (ok, u)"
    by (cases "shouldUpdate False (Date_now e s) (uiThrottler (rm_progressTracker s))")
  let ?s1 = "tick (s\<lparr>rm_progressTracker := (rm_progressTracker s)\<lparr>uiThrottler := u\<rparr>\<rparr>)"
  have q1: "rm_quiet s ?s1" by (simp add: rm_quiet_def tick_def)
  have "rm_quiet s (rm_sendMetrics e status ?s1)"
    by (rule rm_quiet_trans [OF q1 rm_sendMetrics_quiet])
  with q1 sh show ?thesis by (simp add: rm_throttled_def Let_def)
qed

lemma rm_on_data_quiet: "rm_quiet s (rm_on_data e s chunk)"
proof -
  have "rm_quiet s (tick (s\<lparr>rm_progressTracker := t\<rparr>))" for t
    by (simp add: rm_quiet_def tick_def)
  then show ?thesis
    unfolding rm_on_data_def by (rule rm_quiet_trans [OF _ rm_throttled_quiet])
qed

lemma foldl_rm_on_data_quiet: "rm_quiet s (foldl (rm_on_data e) s chunks)"
proof (induction chunks arbitrary: s)
  case Nil
  show ?case by (simp add: rm_quiet_refl)
next
  case (Cons c chunks)
  show ?case
    unfolding foldl_Cons by (rule rm_quiet_trans [OF rm_on_data_quiet Cons.IH])
qed

lemma rm_quiet_calm: "rm_quiet s s' \<Longrightarrow> rm_calm s s'"
proof -
  assume q: "rm_quiet s s'"
  then have e: "s' = s\<lparr>ticks := ticks s', sent := sent s',
      rm_progressTracker := rm_progressTracker s', rm_validatorCache := rm_validatorCache s'\<rparr>"
    by (simp add: rm_quiet_def)
  have r: "requests s' = requests s" by (rule rm_quietD [OF q])
  show ?thesis unfolding rm_calm_def r using e by simp
qed

lemma rm_httpRequest_calm: "rm_calm s (snd (httpRequest_json e url signal s))"
  by (simp add: httpRequest_json_def rm_calm_def)

lemma set_phase_quiet: "rm_quiet s (set_phase ph s)"
  by (simp add: rm_quiet_def set_phase_def)

lemma fetchGameConfig_calm: "rm_calm s (snd (fetchGameConfig e s))"
proof -
  let ?s1 = "rm_sendProgress e (rm_event (Some ''Fetching configuration...'') None None None)
                 (set_phase ''fetching'' s)"
  have c1: "rm_calm s ?s1"
    by (rule rm_quiet_calm [OF rm_quiet_trans [OF set_phase_quiet rm_sendProgress_quiet]])
  obtain r2 s2 where h2: "httpRequest_json e GAME_CONFIG_URL (rm_abortController ?s1) ?s1 = (r2, s2)"
    by (cases "httpRequest_json e GAME_CONFIG_URL (rm_abortController ?s1) ?s1")
  have c2: "rm_calm s s2"
    using rm_calm_trans [OF c1 rm_httpRequest_calm [of ?s1 e GAME_CONFIG_URL "rm_abortController ?s1"]] h2
    by simp
  show ?thesis
  proof (cases r2)
    case (Inl err)
    with h2 have "snd (fetchGameConfig e s) = s2" by (simp add: fetchGameConfig_def Let_def)
    with c2 show ?thesis by simp
  next
    case (Inr gameConfig)
    show ?thesis
    proof (cases "channel_of gameConfig ''default''")
      case None
      with Inr h2 have "snd (fetchGameConfig e s) = s2" by (simp add: fetchGameConfig_def Let_def)
      with c2 show ?thesis by simp
    next
      case (Some channelConfig)
      show ?thesis
      proof (cases "cdnList channelConfig")
        case Nil
        with Inr Some h2 have "snd (fetchGameConfig e s) = s2"
          by (simp add: fetchGameConfig_def Let_def)
        with c2 show ?thesis by simp
      next
        case (Cons cdnUrl others)
        let ?s3 = "rm_sendProgress e (rm_event (Some ''Fetching file index...'') None None None) s2"
        let ?url = "combineUrl cdnUrl (indexFile channelConfig)"
        have c3: "rm_calm s ?s3"
          by (rule rm_calm_trans [OF c2 rm_quiet_calm [OF rm_sendProgress_quiet]])
        obtain r4 s4 where h4: "httpRequest_json e ?url (rm_abortController ?s3) ?s3 = (r4, s4)"
          by (cases "httpRequest_json e ?url (rm_abortController ?s3) ?s3")
        from Inr Some Cons h2 h4 have "snd (fetchGameConfig e s) = s4"
          by (cases r4) (simp_all add: fetchGameConfig_def Let_def)
        moreover have "rm_calm s s4"
          using rm_calm_trans [OF c3 rm_httpRequest_calm [of ?s3 e ?url "rm_abortController ?s3"]] h4
          by simp
        ultimately show ?thesis by simp
      qed
    qed
  qed
qed


subsection \<open>Quick repair on the example manifests\<close>

lemma new_GameRepairManager_facts:
  "isRepairing (new_GameRepairManager e w) = False"
  "rm_abortController (new_GameRepairManager e w) = None"
  "disk (new_GameRepairManager e w) = disk w"
  "jsonFiles (new_GameRepairManager e w) = jsonFiles w"
  "transfers (new_GameRepairManager e w) = transfers w"
  "requests (new_GameRepairManager e w) = requests w"
  by (simp_all add: new_GameRepairManager_def tick_def)

lemma fetchGameConfig_example:
  assumes live: "rm_abortController s \<noteq> Some True"
    and cfg: "\<And>k. fetch_json e k GAME_CONFIG_URL = Inr (ConfigDoc [''default'' \<mapsto> example_channel])"
    and idx: "\<And>k. fetch_json e k ''https://cdn/idx.json'' = Inr (IndexDoc (Arr rs) Undefined)"
  shows "fst (fetchGameConfig e s) = Inr (Arr rs, ''https://cdn/files'')"
proof -
  let ?s1 = "rm_sendProgress e (rm_event (Some ''Fetching configuration...'') None None None)
                 (set_phase ''fetching'' s)"
  have a1: "rm_abortController ?s1 \<noteq> Some True"
    using live by (simp add: rm_quietD [OF rm_quiet_trans [OF set_phase_quiet rm_sendProgress_quiet]])
  have a3: "rm_abortController (rm_sendProgress e ev (t\<lparr>requests := n\<rparr>)) = rm_abortController t"
    for ev t n
    by (simp add: rm_quietD [OF rm_sendProgress_quiet])
  show ?thesis
    using a1
    by (simp add: fetchGameConfig_def Let_def httpRequest_json_def cfg idx example_channel_def
        example_urls a3 or_else_def)
qed



subsection \<open>A full repair of one missing file\<close>

lemma rm_on_chunk_quiet: "rm_quiet s (rm_on_chunk e s call)"
  unfolding rm_on_chunk_def
  by (rule rm_quiet_trans [OF _ rm_throttled_quiet]) (simp add: rm_quiet_def tick_def)

lemma foldl_rm_on_chunk_quiet: "rm_quiet s (foldl (rm_on_chunk e) s cs)"
proof (induction cs arbitrary: s)
  case Nil
  show ?case by (simp add: rm_quiet_refl)
next
  case (Cons c cs)
  show ?case
    unfolding foldl_Cons
    by (rule rm_quiet_trans [OF rm_on_chunk_quiet Cons.IH])
qed

lemma rm_validate_each_quiet:
  "rm_quiet s (snd (rm_validate_each e gamePath isQuickMode rs corrupt s))"
proof (induction rs arbitrary: corrupt s)
  case Nil
  show ?case by (simp add: rm_quiet_refl)
next
  case (Cons r rs)
  let ?filePath = "path_join gamePath (dest r)"
  let ?s0 = "s\<lparr>rm_progressTracker := (rm_progressTracker s)\<lparr>currentFile := Some (dest r)\<rparr>\<rparr>"
  have q0: "rm_quiet s ?s0" by (simp add: rm_quiet_def)
  have after: "rm_quiet s (snd (rm_validate_each e gamePath isQuickMode rs c
      (rm_throttled e ''Validating''
         (rm_sendProgress e ev s1\<lparr>rm_progressTracker :=
            incrementProcessedFiles (rm_progressTracker (rm_sendProgress e ev s1))\<rparr>))))"
    if "rm_quiet s s1" for s1 ev c
  proof -
    let ?s2 = "rm_sendProgress e ev s1"
    let ?s3 = "?s2\<lparr>rm_progressTracker := incrementProcessedFiles (rm_progressTracker ?s2)\<rparr>"
    have q3: "rm_quiet ?s2 ?s3" by (simp add: rm_quiet_def)
    have "rm_quiet s (rm_throttled e ''Validating'' ?s3)"
      by (rule rm_quiet_trans [OF rm_quiet_trans [OF rm_quiet_trans [OF that rm_sendProgress_quiet] q3]
            rm_throttled_quiet])
    then show ?thesis by (rule rm_quiet_trans [OF _ Cons.IH])
  qed
  show ?case
  proof (cases "rm_abortController s = Some True")
    case True
    then show ?thesis by (simp add: rm_quiet_refl)
  next
    case live: False
    show ?thesis
    proof (cases isQuickMode)
      case True
      show ?thesis
      proof (cases "quickValidate (disk ?s0) ?filePath (rsize r)")
        case (Inl err)
        then show ?thesis using live True q0 by (simp add: Let_def)
      next
        case (Inr isValid)
        let ?s1 = "tick (?s0\<lparr>rm_progressTracker :=
                      updateProgress (Date_now e ?s0) (rsize r) None (rm_progressTracker ?s0)\<rparr>)"
        have "rm_quiet s ?s1" by (simp add: rm_quiet_def tick_def)
        from after [OF this] show ?thesis using live True Inr by (simp add: Let_def)
      qed
    next
      case False
      let ?v = "deepValidate (md5sum e) (disk ?s0) (rm_validatorCache ?s0) ?filePath (rsize r) (md5 r)"
      let ?s1 = "foldl (rm_on_chunk e) (?s0\<lparr>rm_validatorCache := cache_after ?v\<rparr>) (calls ?v)"
      have "rm_quiet s (?s0\<lparr>rm_validatorCache := cache_after ?v\<rparr>)" by (simp add: rm_quiet_def)
      then have "rm_quiet s ?s1" by (rule rm_quiet_trans [OF _ foldl_rm_on_chunk_quiet])
      from after [OF this] show ?thesis using live False by (simp add: Let_def)
    qed
  qed
qed

lemma rm_validate_missing:
  assumes live: "rm_abortController s \<noteq> Some True"
    and gone: "disk s (path_join gamePath (dest r)) = Missing"
  shows "fst (rm_validate_each e gamePath False [r] [] s) = Inr [r]"
  using live gone by (simp add: Let_def deepValidate_missing)

lemma validate_missing:
  assumes live: "rm_abortController s \<noteq> Some True"
    and gone: "disk s (path_join gamePath (dest r)) = Missing"
  shows "fst (validateGameFilesWithPerFileUpdates e (Arr [r]) gamePath ''full'' s) = Inr [r]
         \<and> rm_quiet s (snd (validateGameFilesWithPerFileUpdates e (Arr [r]) gamePath ''full'' s))"
proof -
  let ?s1 = "s\<lparr>rm_progressTracker :=
                       (rm_progressTracker s)\<lparr>totalFiles := int (length [r]),
                                               totalBytes := sum_list (map rsize [r]),
                                               phase := ''validating''\<rparr>\<rparr>"
  let ?s2 = "rm_sendProgress e (rm_event (Some ''Validating'') None None None) ?s1"
  have q2: "rm_quiet s ?s2"
    by (rule rm_quiet_trans [OF _ rm_sendProgress_quiet]) (simp add: rm_quiet_def)
  have a2: "rm_abortController ?s2 \<noteq> Some True" and d2: "disk ?s2 (path_join gamePath (dest r)) = Missing"
    using rm_quietD [OF q2] live gone by simp_all
  have f: "fst (rm_validate_each e gamePath False [r] [] ?s2) = Inr [r]"
    by (rule rm_validate_missing [OF a2 d2])
  have q: "rm_quiet ?s2 (snd (rm_validate_each e gamePath False [r] [] ?s2))"
    by (rule rm_validate_each_quiet)
  obtain res s3 where ve: "rm_validate_each e gamePath False [r] [] ?s2 = (res, s3)"
    by (cases "rm_validate_each e gamePath False [r] [] ?s2")
  from f q ve have res: "res = Inr [r]" and q3: "rm_quiet ?s2 s3" by simp_all
  have q4: "rm_quiet s3 (s3\<lparr>rm_progressTracker := setCorruptFiles [r] (rm_progressTracker s3)\<rparr>)"
    by (simp add: rm_quiet_def)
  have "validateGameFilesWithPerFileUpdates e (Arr [r]) gamePath ''full'' s
          = (Inr [r], s3\<lparr>rm_progressTracker := setCorruptFiles [r] (rm_progressTracker s3)\<rparr>)"
    using ve res by (simp add: validateGameFilesWithPerFileUpdates_def Let_def)
  moreover have "rm_quiet s (s3\<lparr>rm_progressTracker := setCorruptFiles [r] (rm_progressTracker s3)\<rparr>)"
    by (rule rm_quiet_trans [OF rm_quiet_trans [OF q2 q3] q4])
  ultimately show ?thesis by simp
qed

lemma repair_attempt_complete:
  assumes live: "rm_abortController s \<noteq> Some True"
    and resp: "fetch_file e (requests s) (combineUrl baseUrl (dest r)) = Response 200 chunks Complete"
    and size: "int (length (concat chunks)) = rsize r"
  shows "\<exists>s'. repair_attempt e r baseUrl gamePath s = (Inr (), s')
           \<and> disk s' = (disk s)(path_join gamePath (dest r) := File (rsize r) (Date_now e s) chunks End)
           \<and> rm_abortController s' = rm_abortController s
           \<and> transfers s' = transfers s @ [combineUrl baseUrl (dest r)]"
proof -
  let ?url = "combineUrl baseUrl (dest r)"
  let ?path = "path_join gamePath (dest r)"
  let ?s1 = "s\<lparr>requests := requests s + 1, transfers := transfers s @ [?url]\<rparr>"
  let ?w = "?s1\<lparr>disk := (disk ?s1)(?path := written (Date_now e ?s1) chunks)\<rparr>"
  let ?s2 = "foldl (rm_on_data e) ?w chunks"
  let ?f = "?s2\<lparr>rm_progressTracker :=
                                (rm_progressTracker ?s2)
                                  \<lparr>uiThrottler := forceUpdate (uiThrottler (rm_progressTracker ?s2))\<rparr>\<rparr>"
  let ?s3 = "rm_sendMetrics e ''Repairing'' ?f"
  have q2: "rm_quiet ?w ?s2" by (rule foldl_rm_on_data_quiet)
  have qf: "rm_quiet ?s2 ?f" by (simp add: rm_quiet_def)
  have q3: "rm_quiet ?w ?s3"
    by (rule rm_quiet_trans [OF rm_quiet_trans [OF q2 qf] rm_sendMetrics_quiet])
  have d3: "disk ?s3 = (disk s)(?path := File (rsize r) (Date_now e s) chunks End)"
    and a3: "rm_abortController ?s3 = rm_abortController s"
    and t3: "transfers ?s3 = transfers s @ [?url]"
    using rm_quietD [OF q3] size by (simp_all add: written_def Date_now_def)
  have dl: "downloadFile e ?url ?path s = (Inr (), ?s3)"
    using resp by (simp add: downloadFile_def Let_def)
  let ?s4 = "rm_sendProgress e
               (rm_event None None None (Some (''[Repaired] '' @ basename (dest r)))) ?s3"
  have att: "repair_attempt e r baseUrl gamePath s = (Inr (), ?s4)"
    using live dl d3 by (simp add: repair_attempt_def Let_def quickValidate_def fs_stat_def)
  have "disk ?s4 = disk ?s3" "rm_abortController ?s4 = rm_abortController ?s3"
    "transfers ?s4 = transfers ?s3"
    by (simp_all add: rm_quietD [OF rm_sendProgress_quiet])
  with att d3 a3 t3 show ?thesis by simp
qed

lemma single_file_repair:
  assumes live: "rm_abortController s \<noteq> Some True"
    and resp: "fetch_file e (requests s) (combineUrl baseUrl (dest r)) = Response 200 chunks Complete"
    and size: "int (length (concat chunks)) = rsize r"
  shows "\<exists>s' mt. repairCorruptFiles e [r] baseUrl gamePath s = (Inr (), s')
           \<and> disk s' = (disk s)(path_join gamePath (dest r) := File (rsize r) mt chunks End)
           \<and> rm_abortController s' = rm_abortController s
           \<and> transfers s' = transfers s @ [combineUrl baseUrl (dest r)]"
proof -
  define s1 where "s1 = rm_sendProgress e
                 (rm_event (Some ''Downloading missing/corrupted files'') None None
                    (Some (''[INFO] Starting download of '' @ show_nat (length [r])
                           @ '' missing/corrupted files...'')))
                 (s\<lparr>rm_progressTracker := setCorruptFiles [r]
                      ((rm_progressTracker s)\<lparr>downloadedBytes := 0, repairedFiles := 0,
                                              totalBytes := sum_list (map rsize [r]),
                                              phase := ''repairing''\<rparr>)\<rparr>)"
  define s0 where "s0 = rm_sendProgress e
                 (rm_event None None None (Some (''[Repairing] '' @ basename (dest r))))
                 (s1\<lparr>rm_progressTracker := (rm_progressTracker s1)\<lparr>currentFile := Some (dest r)\<rparr>\<rparr>)"
  have q1: "rm_quiet s s1"
    unfolding s1_def by (rule rm_quiet_trans [OF _ rm_sendProgress_quiet]) (simp add: rm_quiet_def)
  have q10: "rm_quiet s1 s0"
    unfolding s0_def by (rule rm_quiet_trans [OF _ rm_sendProgress_quiet]) (simp add: rm_quiet_def)
  have q0: "rm_quiet s s0" by (rule rm_quiet_trans [OF q1 q10])
  have a0: "rm_abortController s0 \<noteq> Some True" and r0: "requests s0 = requests s"
    and d0: "disk s0 = disk s" and a0': "rm_abortController s0 = rm_abortController s"
    and t0: "transfers s0 = transfers s"
    using rm_quietD [OF q0] live by simp_all
  have a1: "rm_abortController s1 \<noteq> Some True"
    using rm_quietD [OF q1] live by simp
  from resp r0 have resp': "fetch_file e (requests s0) (combineUrl baseUrl (dest r))
      = Response 200 chunks Complete" by simp
  from repair_attempt_complete [OF a0 resp' size, of gamePath]
  obtain s' where att: "repair_attempt e r baseUrl gamePath s0 = (Inr (), s')"
    and d': "disk s' = (disk s0)(path_join gamePath (dest r)
               := File (rsize r) (Date_now e s0) chunks End)"
    and a': "rm_abortController s' = rm_abortController s0"
    and t': "transfers s' = transfers s0 @ [combineUrl baseUrl (dest r)]"
    by blast
  have "withRetry (repair_attempt e r baseUrl gamePath) MAX_REPAIR_RETRIES RETRY_DELAY_BASE s0
          = (Inr (Some ()), s', 1, [])"
    using withRetry_first [of "repair_attempt e r baseUrl gamePath" s0 "()" s' MAX_REPAIR_RETRIES
        RETRY_DELAY_BASE] att
    by (simp add: MAX_REPAIR_RETRIES_def)
  then have one: "repairFile e r baseUrl gamePath s1 = (Inr (Some ()), s'\<lparr>waited := waited s'\<rparr>)"
    by (simp add: repairFile_def Let_def s0_def)
  have "repairWorker e baseUrl gamePath [r] s1
          = (Inr (), (s'\<lparr>waited := waited s'\<rparr>)
               \<lparr>rm_progressTracker := incrementRepairedFiles (rm_progressTracker (s'\<lparr>waited := waited s'\<rparr>))\<rparr>)"
    using a1 one by simp
  then have "repairCorruptFiles e [r] baseUrl gamePath s
          = (Inr (), (s'\<lparr>waited := waited s'\<rparr>)
               \<lparr>rm_progressTracker := incrementRepairedFiles (rm_progressTracker (s'\<lparr>waited := waited s'\<rparr>))\<rparr>)"
    by (simp add: repairCorruptFiles_def Let_def s1_def)
  with d' a' t' d0 a0' t0 show ?thesis by auto
qed

lemma handleRepairComplete_facts:
  "disk (handleRepairComplete e n s) = disk s"
  "transfers (handleRepairComplete e n s) = transfers s"
  "windowAlive e \<Longrightarrow> ev_status (last (sent (handleRepairComplete e n s))) = Some ''Completed''"
  by (simp_all add: handleRepairComplete_def Let_def rm_sendProgress_eq tick_def rm_event_def)

lemma rm_cleanup_facts:
  "disk (rm_cleanup e s) = disk s" "sent (rm_cleanup e s) = sent s"
  "transfers (rm_cleanup e s) = transfers s"
  "isRepairing (rm_cleanup e s) = False"
  by (simp_all add: rm_cleanup_def tick_def)

text \<open>
  A full repair of an empty install against a server whose only file has the expected
  size and another content: the single validation pass finds the file missing, the file is
  downloaded once and passes the size check of \<^verbatim>\<open>repairFile\<close>,
  and \<^verbatim>\<open>repairGame\<close> reports \<^verbatim>\<open>Completed\<close> while the file on disk does
  not have the digest of the manifest. No validation runs after \<^verbatim>\<open>repairCorruptFiles\<close>.
\<close>

theorem repair_has_no_final_validation:
  "ev_status (last (sent (repairGame (example_env (Response 200 [[0xAC]] Complete)) ''game'' ''full''
       (new_GameRepairManager (example_env (Response 200 [[0xAC]] Complete)) empty_world))))
     = Some ''Completed''
   \<and> transfers (repairGame (example_env (Response 200 [[0xAC]] Complete)) ''game'' ''full''
         (new_GameRepairManager (example_env (Response 200 [[0xAC]] Complete)) empty_world))
       = [''https://cdn/files/a.pak'']
   \<and> \<not> valid_on_disk sum_digest
         (disk (repairGame (example_env (Response 200 [[0xAC]] Complete)) ''game'' ''full''
            (new_GameRepairManager (example_env (Response 200 [[0xAC]] Complete)) empty_world)))
         ''game'' example_resource"
proof -
  let ?fr = "Response 200 [[0xAC]] Complete"
  let ?e = "example_env ?fr"
  let ?r = "new_GameRepairManager ?e empty_world"
  let ?b = "tick (tick (?r\<lparr>isRepairing := True, rm_abortController := Some False,
                          rm_progressTracker := reset (Date_now ?e ?r) (rm_progressTracker ?r)\<rparr>))"
  have ab: "rm_abortController ?b = Some False" and db: "disk ?b = (\<lambda>p. Missing)"
    and tb: "transfers ?b = []"
    by (simp_all add: tick_def new_GameRepairManager_facts empty_world_def)
  \<comment> \<open>the resources come from the remote index\<close>
  obtain s1 where f1: "fetchGameConfig ?e ?b = (fst (fetchGameConfig ?e ?b), s1)"
    by (metis prod.collapse)
  have "fst (fetchGameConfig ?e ?b) = Inr (Arr [example_resource], ''https://cdn/files'')"
    by (rule fetchGameConfig_example) (simp_all add: ab example_env_facts example_urls)
  with f1 have f: "fetchGameConfig ?e ?b = (Inr (Arr [example_resource], ''https://cdn/files''), s1)"
    by simp
  from fetchGameConfig_calm [of ?b ?e] f have c1: "rm_calm ?b s1" by simp
  have a1: "rm_abortController s1 = Some False" and d1: "disk s1 = (\<lambda>p. Missing)"
    and t1: "transfers s1 = []"
    using rm_calmD [OF c1] ab db tb by simp_all
  have src: "sourceResources ?e ''game'' ''full'' ?b
               = (Inr (Arr [example_resource], Some ''https://cdn/files''), s1)"
    using f by (simp add: sourceResources_def)
  \<comment> \<open>the only validation pass finds the file missing\<close>
  obtain s2 where v2: "validateGameFilesWithPerFileUpdates ?e (Arr [example_resource]) ''game'' ''full'' s1
      = (fst (validateGameFilesWithPerFileUpdates ?e (Arr [example_resource]) ''game'' ''full'' s1), s2)"
    by (metis prod.collapse)
  have na1: "rm_abortController s1 \<noteq> Some True" using a1 by simp
  have g1: "disk s1 (path_join ''game'' (dest example_resource)) = Missing" by (simp add: d1)
  from validate_missing [OF na1 g1, of ?e] v2
  have v: "validateGameFilesWithPerFileUpdates ?e (Arr [example_resource]) ''game'' ''full'' s1
             = (Inr [example_resource], s2)"
    and q2: "rm_quiet s1 s2"
    by simp_all
  have a2: "rm_abortController s2 = Some False" and d2: "disk s2 = (\<lambda>p. Missing)"
    and t2: "transfers s2 = []"
    using rm_quietD [OF q2] a1 d1 t1 by simp_all
  \<comment> \<open>the file is downloaded with the right size and the wrong content\<close>
  have na2: "rm_abortController s2 \<noteq> Some True" using a2 by simp
  have resp: "fetch_file ?e (requests s2) (combineUrl ''https://cdn/files'' (dest example_resource)) = ?fr"
    by (simp add: example_env_facts)
  have size: "int (length (concat [[0xAC :: 8 word]])) = rsize example_resource"
    by (simp add: example_resource_def)
  from single_file_repair [OF na2 resp size, of "''game''"]
  obtain s4 mt where rep: "repairCorruptFiles ?e [example_resource] ''https://cdn/files'' ''game'' s2
      = (Inr (), s4)"
    and d4: "disk s4 = (disk s2)(path_join ''game'' (dest example_resource)
               := File (rsize example_resource) mt [[0xAC]] End)"
    and a4: "rm_abortController s4 = rm_abortController s2"
    and t4: "transfers s4 = transfers s2 @ [combineUrl ''https://cdn/files'' (dest example_resource)]"
    by blast
  have tried: "repairGame_try ?e ''game'' ''full'' ?b = (Inr (), handleRepairComplete ?e 1 s4)"
    using src v rep a2 a4 by (simp add: repairGame_try_def)
  have run: "repairGame ?e ''game'' ''full'' ?r = rm_cleanup ?e (handleRepairComplete ?e 1 s4)"
    using tried by (simp add: repairGame_def Let_def new_GameRepairManager_facts)
  have bad: "\<not> valid_on_disk sum_digest (disk s4) ''game'' example_resource"
    by (simp add: d4 valid_on_disk_def valid_file_def example_digests example_resource_def)
  have sent4: "transfers s4 = [''https://cdn/files/a.pak'']"
    using t4 t2 by (simp add: example_urls example_resource_def)
  show ?thesis
    unfolding run using bad sent4
    by (simp add: rm_cleanup_facts handleRepairComplete_facts example_env_facts)
qed


end
